(* ===== verification/Go_Prelude.thy ===== *)
theory Go_Prelude
  imports Main "HOL-Library.Word" "HOL-Library.AList"
begin

text \<open>
  What every component theory uses: Go's machine integers and byte strings, the state
  monad in which the program's methods are written (a method may return or panic, and
  keeps the effects done before a panic), loops over slices with early exit, the
  formatting and string functions of Go's standard library that the program calls, and
  the rule collections the component proofs share.

  Go's \<open>string\<close> and \<open>[]byte\<close> are both lists of bytes (\<^typ>\<open>char\<close> has 256 values), so the
  conversions between them are the identity. A Go map is an association list with
  distinct keys, read with \<^const>\<open>map_of\<close> and written with \<^const>\<open>AList.update\<close>.
\<close>

section \<open>Machine types\<close>

type_synonym bytes = string
type_synonym go_int = "64 word"
type_synonym duration = "64 word" \<comment> \<open>nanoseconds, two's complement\<close>
type_synonym timestamp = int \<comment> \<open>an instant, in nanoseconds since the Unix epoch\<close>
type_synonym unix_seconds = int \<comment> \<open>whole seconds as the program keeps them, in a \<open>float64\<close> (exact below $2^{53}$)\<close>

definition Second :: duration where "Second = 1000000000"
definition Minute :: duration where "Minute = 60000000000"

text \<open>\<open>1 << uint(n)\<close> at type \<open>int64\<close>: the count is read unsigned, a count of 64 or more gives 0.\<close>

definition shl1 :: "go_int \<Rightarrow> 64 word" where
  "shl1 n = push_bit (unat n) 1"

lemma shl1_small: "shl1 0 = 1" "shl1 1 = 2" "shl1 2 = 4" "shl1 3 = 8" "shl1 4 = 16" "shl1 5 = 32"
  by (simp_all add: shl1_def push_bit_eq_mult)

lemma shl1_zero: "64 \<le> unat n \<Longrightarrow> shl1 n = 0"
  by (rule bit_eqI) (auto simp: shl1_def bit_push_bit_iff bit_exp_iff)

section \<open>The monad of Go methods\<close>

datatype 'a outcome = Done 'a | Panicked string

type_synonym ('s, 'a) go = "'s \<Rightarrow> 'a outcome \<times> 's"

definition ret :: "'a \<Rightarrow> ('s, 'a) go" where
  "ret a s = (Done a, s)"

definition panic :: "string \<Rightarrow> ('s, 'a) go" where
  "panic p s = (Panicked p, s)"

definition andThen :: "('s, 'a) go \<Rightarrow> ('a \<Rightarrow> ('s, 'b) go) \<Rightarrow> ('s, 'b) go" where
  "andThen m f s = (case m s of (Done a, s') \<Rightarrow> f a s' | (Panicked p, s') \<Rightarrow> (Panicked p, s'))"

definition gets :: "('s \<Rightarrow> 'a) \<Rightarrow> ('s, 'a) go" where
  "gets f s = (Done (f s), s)"

definition modify :: "('s \<Rightarrow> 's) \<Rightarrow> ('s, unit) go" where
  "modify f s = (Done (), f s)"

abbreviation seq :: "('s, 'a) go \<Rightarrow> ('s, 'b) go \<Rightarrow> ('s, 'b) go" where
  "seq m k \<equiv> andThen m (\<lambda>_. k)"

definition nilDeref :: "('s, 'a) go" where
  "nilDeref = panic ''invalid memory address or nil pointer dereference''"

text \<open>Dereferencing a pointer: \<^const>\<open>None\<close> is \<open>nil\<close>.\<close>

definition deref :: "'a option \<Rightarrow> ('s, 'a) go" where
  "deref p = (case p of None \<Rightarrow> nilDeref | Some a \<Rightarrow> ret a)"

text \<open>
  \<open>for _, x := range xs { body }\<close>: the body gives \<^const>\<open>None\<close> to go on (\<open>continue\<close> or the end
  of the body) and \<open>Some r\<close> to leave the enclosing function with \<open>return r\<close>.
\<close>

fun forEach :: "'x list \<Rightarrow> ('x \<Rightarrow> ('s, 'r option) go) \<Rightarrow> ('s, 'r option) go" where
  "forEach [] body = ret None"
| "forEach (x # xs) body =
     andThen (body x) (\<lambda>r. case r of Some e \<Rightarrow> ret (Some e) | None \<Rightarrow> forEach xs body)"

text \<open>Calling a method on a struct held behind a pointer field of the receiver.\<close>

definition zoom :: "('s \<Rightarrow> 't option) \<Rightarrow> ('t \<Rightarrow> 's \<Rightarrow> 's) \<Rightarrow> ('t, 'a) go \<Rightarrow> ('s, 'a) go" where
  "zoom get put m s =
     (case get s of
        None \<Rightarrow> nilDeref s
      | Some t \<Rightarrow> (case m t of (r, t') \<Rightarrow> (r, put t' s)))"

subsection \<open>Running a method\<close>

named_theorems go_run \<open>equations that run the monad's combinators on a state\<close>

lemma run_ret [go_run]: "ret a s = (Done a, s)"
  by (simp add: ret_def)

lemma run_panic [go_run]: "panic p s = (Panicked p, s)"
  by (simp add: panic_def)

lemma run_gets [go_run]: "gets f s = (Done (f s), s)"
  by (simp add: gets_def)

lemma run_modify [go_run]: "modify f s = (Done (), f s)"
  by (simp add: modify_def)

lemma run_nilDeref [go_run]:
  "nilDeref s = (Panicked ''invalid memory address or nil pointer dereference'', s)"
  by (simp add: nilDeref_def panic_def)

lemma run_deref [go_run]: "deref (Some a) s = (Done a, s)" "deref None s = nilDeref s"
  by (simp_all add: deref_def ret_def)

lemma run_andThen [go_run]:
  "andThen m f s = (case m s of (r, s') \<Rightarrow>
     (case r of Done a \<Rightarrow> f a s' | Panicked p \<Rightarrow> (Panicked p, s')))"
  by (simp add: andThen_def split: prod.splits outcome.splits)

lemma andThen_Done: "m s = (Done a, s') \<Longrightarrow> andThen m f s = f a s'"
  by (simp add: andThen_def)

lemma andThen_Panicked: "m s = (Panicked p, s') \<Longrightarrow> andThen m f s = (Panicked p, s')"
  by (simp add: andThen_def)

lemma andThen_ret_left [simp]: "andThen (ret a) f = f a"
  by (simp add: fun_eq_iff andThen_def ret_def)

lemma andThen_assoc: "andThen (andThen m f) g = andThen m (\<lambda>a. andThen (f a) g)"
  by (simp add: fun_eq_iff andThen_def split: prod.splits outcome.splits)

lemma forEach_append:
  "forEach (xs @ ys) body =
     andThen (forEach xs body) (\<lambda>r. case r of Some e \<Rightarrow> ret (Some e) | None \<Rightarrow> forEach ys body)"
proof (induction xs)
  case Nil
  show ?case by simp
next
  case (Cons x xs)
  have "andThen (body x) (\<lambda>r. case r of None \<Rightarrow> forEach (xs @ ys) body | Some e \<Rightarrow> ret (Some e))
    = andThen (body x) (\<lambda>r. andThen (case r of None \<Rightarrow> forEach xs body | Some e \<Rightarrow> ret (Some e))
        (\<lambda>r. case r of None \<Rightarrow> forEach ys body | Some e \<Rightarrow> ret (Some e)))"
    unfolding Cons.IH
    by (rule arg_cong [where f = "andThen (body x)"]) (auto simp: fun_eq_iff split: option.splits)
  then show ?case by (simp add: andThen_assoc)
qed

subsection \<open>Hoare triples\<close>

text \<open>
  \<open>holds P m Q\<close>: from a state where \<open>P\<close> holds, \<open>m\<close> ends (by returning or by panicking)
  with an outcome and a state related by \<open>Q\<close>. \<open>keeps I m\<close> is the invariant form.
\<close>

definition holds :: "('s \<Rightarrow> bool) \<Rightarrow> ('s, 'a) go \<Rightarrow> ('a outcome \<Rightarrow> 's \<Rightarrow> bool) \<Rightarrow> bool" where
  "holds P m Q \<longleftrightarrow> (\<forall>s. P s \<longrightarrow> (case m s of (r, s') \<Rightarrow> Q r s'))"

definition keeps :: "('s \<Rightarrow> bool) \<Rightarrow> ('s, 'a) go \<Rightarrow> bool" where
  "keeps I m \<longleftrightarrow> (\<forall>s. I s \<longrightarrow> I (snd (m s)))"

named_theorems go_keeps \<open>introduction rules for invariants of methods\<close>

lemma holdsI: "(\<And>s r s'. P s \<Longrightarrow> m s = (r, s') \<Longrightarrow> Q r s') \<Longrightarrow> holds P m Q"
  by (simp add: holds_def split: prod.splits)

lemma holdsD: "holds P m Q \<Longrightarrow> P s \<Longrightarrow> m s = (r, s') \<Longrightarrow> Q r s'"
  by (force simp: holds_def)

lemma keepsI: "(\<And>s r s'. I s \<Longrightarrow> m s = (r, s') \<Longrightarrow> I s') \<Longrightarrow> keeps I m"
  by (simp add: keeps_def) (metis prod.collapse)

lemma keepsD: "keeps I m \<Longrightarrow> I s \<Longrightarrow> m s = (r, s') \<Longrightarrow> I s'"
  by (force simp: keeps_def)

lemma keeps_ret [go_keeps]: "keeps I (ret a)"
  by (simp add: keeps_def ret_def)

lemma keeps_panic [go_keeps]: "keeps I (panic p)"
  by (simp add: keeps_def panic_def)

lemma keeps_nilDeref [go_keeps]: "keeps I nilDeref"
  by (simp add: nilDeref_def keeps_panic)

lemma keeps_deref [go_keeps]: "keeps I (deref p)"
  by (cases p) (simp_all add: deref_def keeps_nilDeref keeps_ret)

lemma keeps_gets [go_keeps]: "keeps I (gets f)"
  by (simp add: keeps_def gets_def)

lemma keeps_modify [go_keeps]: "(\<And>s. I s \<Longrightarrow> I (f s)) \<Longrightarrow> keeps I (modify f)"
  by (simp add: keeps_def modify_def)

lemma keeps_andThen [go_keeps]:
  "keeps I m \<Longrightarrow> (\<And>a. keeps I (f a)) \<Longrightarrow> keeps I (andThen m f)"
  by (rule keepsI) (auto simp: andThen_def split: prod.splits outcome.splits dest: keepsD)

lemma keeps_forEach [go_keeps]:
  assumes "\<And>x. x \<in> set xs \<Longrightarrow> keeps I (body x)"
  shows "keeps I (forEach xs body)"
  using assms
proof (induction xs)
  case Nil
  show ?case by (simp add: keeps_ret)
next
  case (Cons x xs)
  then show ?case
    by (auto intro!: keeps_andThen keeps_ret split: option.splits)
qed

lemma keeps_if [go_keeps]: "(b \<Longrightarrow> keeps I m) \<Longrightarrow> (\<not> b \<Longrightarrow> keeps I m') \<Longrightarrow> keeps I (if b then m else m')"
  by simp

lemma keeps_case_option [go_keeps]:
  "(x = None \<Longrightarrow> keeps I m) \<Longrightarrow> (\<And>a. x = Some a \<Longrightarrow> keeps I (f a)) \<Longrightarrow>
   keeps I (case x of None \<Rightarrow> m | Some a \<Rightarrow> f a)"
  by (cases x) simp_all

lemma keeps_case_sum [go_keeps]:
  "(\<And>e. x = Inl e \<Longrightarrow> keeps I (f e)) \<Longrightarrow> (\<And>a. x = Inr a \<Longrightarrow> keeps I (g a)) \<Longrightarrow>
   keeps I (case x of Inl e \<Rightarrow> f e | Inr a \<Rightarrow> g a)"
  by (cases x) simp_all

lemma keeps_case_prod [go_keeps]:
  "(\<And>a b. x = (a, b) \<Longrightarrow> keeps I (f a b)) \<Longrightarrow> keeps I (case x of (a, b) \<Rightarrow> f a b)"
  by (cases x) simp

lemma keeps_zoom:
  assumes "\<And>s t r t'. I s \<Longrightarrow> get s = Some t \<Longrightarrow> m t = (r, t') \<Longrightarrow> I (put t' s)"
  shows "keeps I (zoom get put m)"
  by (rule keepsI)
    (auto simp: zoom_def run_nilDeref split: option.splits prod.splits intro: assms)

text \<open>
  A method that fails to do its work on some branch still ends with an outcome in \<open>Q\<close>; a panic
  counts as such an outcome.
\<close>

definition answers :: "('s \<Rightarrow> bool) \<Rightarrow> ('s, 'a) go \<Rightarrow> ('a \<Rightarrow> 's \<Rightarrow> bool) \<Rightarrow> bool" where
  "answers P m Q \<longleftrightarrow> holds P m (\<lambda>r s'. case r of Done a \<Rightarrow> Q a s' | Panicked p \<Rightarrow> True)"

named_theorems go_answers \<open>rules for \<open>answers\<close>\<close>

lemma answersI: "(\<And>s a s'. P s \<Longrightarrow> m s = (Done a, s') \<Longrightarrow> Q a s') \<Longrightarrow> answers P m Q"
  unfolding answers_def by (rule holdsI) (auto split: outcome.split)

lemma answersD: "answers P m Q \<Longrightarrow> P s \<Longrightarrow> m s = (Done a, s') \<Longrightarrow> Q a s'"
  unfolding answers_def using holdsD by fastforce

lemma answers_andThen [go_answers]:
  assumes "keeps P m" and "\<And>a. answers P (f a) Q"
  shows "answers P (andThen m f) Q"
  by (rule answersI)
    (auto simp: run_andThen split: prod.splits outcome.splits dest: keepsD [OF assms(1)] answersD [OF assms(2)])

lemma answers_if [go_answers]: "answers P m Q \<Longrightarrow> answers P m' Q \<Longrightarrow> answers P (if b then m else m') Q"
  by simp

lemma answers_option [go_answers]:
  "answers P m Q \<Longrightarrow> (\<And>a. answers P (f a) Q) \<Longrightarrow> answers P (case x of None \<Rightarrow> m | Some a \<Rightarrow> f a) Q"
  by (cases x) simp_all

lemma answers_sum [go_answers]:
  "(\<And>e. answers P (f e) Q) \<Longrightarrow> (\<And>a. answers P (g a) Q) \<Longrightarrow> answers P (case x of Inl e \<Rightarrow> f e | Inr a \<Rightarrow> g a) Q"
  by (cases x) simp_all

lemma answers_prod [go_answers]: "(\<And>a b. answers P (f a b) Q) \<Longrightarrow> answers P (case x of (a, b) \<Rightarrow> f a b) Q"
  by (cases x) simp

lemma answers_weaken: "answers P m Q \<Longrightarrow> (\<And>a s. Q a s \<Longrightarrow> Q' a s) \<Longrightarrow> answers P m Q'"
  by (rule answersI) (blast dest: answersD)

section \<open>Formatting: fmt.Sprintf of integers and durations\<close>

text \<open>Non-negative integers in decimal; \<open>int\<close> so that terms evaluate in binary.\<close>

function fmt_dec :: "int \<Rightarrow> string" where
  "fmt_dec n = (if n < 10 then [char_of (48 + n)] else fmt_dec (n div 10) @ [char_of (48 + n mod 10)])"
  by pat_completeness auto
termination
  by (relation "measure nat") auto

declare fmt_dec.simps [simp del]

lemma fmt_dec_digit: "n < 10 \<Longrightarrow> fmt_dec n = [char_of (48 + n)]"
  by (simp add: fmt_dec.simps)

lemma fmt_dec_more: "10 \<le> n \<Longrightarrow> fmt_dec n = fmt_dec (n div 10) @ [char_of (48 + n mod 10)]"
  by (subst fmt_dec.simps) simp

lemmas fmt_dec_eval = fmt_dec_digit fmt_dec_more

definition fmt_int :: "go_int \<Rightarrow> string" where
  "fmt_int w = (if sint w < 0 then ''-'' @ fmt_dec (- sint w) else fmt_dec (sint w))"

text \<open>The decimal digits of \<open>v < 10 ^ k\<close>, exactly \<open>k\<close> of them, and trailing zeros cut.\<close>

fun digits_fixed :: "nat \<Rightarrow> int \<Rightarrow> string" where
  "digits_fixed 0 v = []"
| "digits_fixed (Suc k) v = digits_fixed k (v div 10) @ [char_of (48 + v mod 10)]"

definition trim_zeros :: "string \<Rightarrow> string" where
  "trim_zeros ds = rev (dropWhile (\<lambda>c. c = CHR ''0'') (rev ds))"

definition fmt_frac :: "nat \<Rightarrow> int \<Rightarrow> string" where
  "fmt_frac prec v =
     (let ds = trim_zeros (digits_fixed prec (v mod 10 ^ prec)) in if ds = [] then [] else CHR ''.'' # ds)"

text \<open>\<open>time.Duration.String\<close>: hours, minutes and seconds, or a smaller unit below one second.\<close>

definition fmt_duration_abs :: "int \<Rightarrow> string" where
  "fmt_duration_abs u =
     (if u < 1000000000 then
        (if u = 0 then ''0s''
         else if u < 1000 then fmt_dec u @ ''ns''
         else if u < 1000000 then
           fmt_dec (u div 1000) @ fmt_frac 3 u @ [CHR 0xC2, CHR 0xB5] @ ''s''
         else fmt_dec (u div 1000000) @ fmt_frac 6 u @ ''ms'')
      else
        (let secs = u div 1000000000; mins = secs div 60; hours = mins div 60 in
           (if 0 < hours then fmt_dec hours @ ''h'' else [])
           @ (if 0 < mins then fmt_dec (mins mod 60) @ ''m'' else [])
           @ fmt_dec (secs mod 60) @ fmt_frac 9 u @ ''s''))"

definition fmt_duration :: "duration \<Rightarrow> string" where
  "fmt_duration d =
     (if sint d < 0 then ''-'' @ fmt_duration_abs (- sint d) else fmt_duration_abs (sint d))"

lemma fmt_duration_examples:
  "fmt_duration (4 * Minute) = ''4m0s''"
  "fmt_duration (90 * Second) = ''1m30s''"
  "fmt_duration 1500000 = ''1.5ms''"
  by code_simp+

section \<open>The functions of package strings\<close>

text \<open>
  These are the functions' results on ASCII text. The program applies them to names of
  Kubernetes and Key Vault objects, to a command line flag and to the output of openssl.
\<close>

definition lower_char :: "char \<Rightarrow> char" where
  "lower_char c = (let n = (of_char c :: nat) in if 65 \<le> n \<and> n \<le> 90 then char_of (n + 32) else c)"

definition ToLower :: "string \<Rightarrow> string" where
  "ToLower = map lower_char"

fun has_prefix :: "string \<Rightarrow> string \<Rightarrow> bool" where
  "has_prefix s [] = True"
| "has_prefix [] (c # cs) = False"
| "has_prefix (x # s) (c # cs) = (x = c \<and> has_prefix s cs)"

fun Contains :: "string \<Rightarrow> string \<Rightarrow> bool" where
  "Contains [] sub = (sub = [])"
| "Contains (c # s) sub = (has_prefix (c # s) sub \<or> Contains s sub)"

definition trim_where :: "(char \<Rightarrow> bool) \<Rightarrow> string \<Rightarrow> string" where
  "trim_where p s = rev (dropWhile p (rev (dropWhile p s)))"

definition is_space :: "char \<Rightarrow> bool" where
  "is_space c = (let n = (of_char c :: nat) in n = 32 \<or> (9 \<le> n \<and> n \<le> 13))"

definition TrimSpace :: "string \<Rightarrow> string" where
  "TrimSpace = trim_where is_space"

fun Split1 :: "char \<Rightarrow> string \<Rightarrow> string list" where
  "Split1 sep [] = [[]]"
| "Split1 sep (c # s) =
     (if c = sep then [] # Split1 sep s
      else (case Split1 sep s of [] \<Rightarrow> [[c]] | p # ps \<Rightarrow> (c # p) # ps))"

fun Join :: "string list \<Rightarrow> string \<Rightarrow> string" where
  "Join [] sep = []"
| "Join [s] sep = s"
| "Join (s # t # ss) sep = s @ sep @ Join (t # ss) sep"

lemma Split1_not_Nil [simp]: "Split1 sep s \<noteq> []"
  by (cases s) (auto split: list.splits)

lemma Split1_no_sep: "sep \<notin> set s \<Longrightarrow> Split1 sep s = [s]"
  by (induction s) auto

lemma Split1_append: "sep \<notin> set s \<Longrightarrow> Split1 sep (s @ sep # t) = s # Split1 sep t"
  by (induction s) auto

lemma Split1_Join:
  "ss \<noteq> [] \<Longrightarrow> \<forall>s \<in> set ss. sep \<notin> set s \<Longrightarrow> Split1 sep (Join ss [sep]) = ss"
  by (induction ss "[sep]" rule: Join.induct) (auto simp: Split1_no_sep Split1_append)

lemma Join_empty_iff: "sep \<noteq> [] \<Longrightarrow> Join ss sep = [] \<longleftrightarrow> ss = [] \<or> ss = [[]]"
  by (induction ss sep rule: Join.induct) auto

lemma has_prefix_append: "has_prefix (s @ t) s"
  by (induction s) auto

lemma Contains_append: "Contains (p @ s @ t) s"
proof (induction p)
  case Nil
  then show ?case by (cases "s @ t") (auto simp: has_prefix_append, metis append_Nil2 has_prefix_append has_prefix.simps(1))
next
  case (Cons c p)
  then show ?case by simp
qed

lemma ToLower_idem [simp]: "ToLower (ToLower s) = ToLower s"
  by (simp add: ToLower_def lower_char_def Let_def o_def)

section \<open>Go maps\<close>

text \<open>The facts about association lists that the components use.\<close>

lemma map_of_filter_keys:
  "map_of (filter (\<lambda>(k, _). P k) xs) k = (if P k then map_of xs k else None)"
  by (induction xs) auto

lemma fst_set_filter_keys:
  "fst ` set (filter (\<lambda>(k, _). P k) xs) = {k \<in> fst ` set xs. P k}"
  by force

lemma map_of_None_notin: "k \<notin> fst ` set xs \<Longrightarrow> map_of xs k = None"
  by (simp add: map_of_eq_None_iff)

lemma map_of_rev_distinct: "distinct (map fst xs) \<Longrightarrow> map_of (rev xs) = map_of xs"
  by (rule map_of_inject_set [THEN iffD2]) (simp_all add: rev_map flip: rev_map)

lemma map_of_fold_update:
  "map_of (fold (\<lambda>(k, v) m. AList.update k v m) xs m) = map_of m ++ map_of (rev xs)"
  by (induction xs arbitrary: m) (auto simp: update_conv')

lemma distinct_fold_update:
  "distinct (map fst m) \<Longrightarrow> distinct (map fst (fold (\<lambda>(k, v) m. AList.update k v m) xs m))"
  by (induction xs arbitrary: m) (auto intro: distinct_update)

lemma dom_map_of_fst: "dom (map_of m) = fst ` set m"
  by (rule dom_map_of_conv_image_fst)

lemma length_eq_card_dom: "distinct (map fst m) \<Longrightarrow> length m = card (dom (map_of m))"
  by (metis distinct_card dom_map_of_fst length_map set_map)

end
