(* ===== verification/Api_Types.thy ===== *)
theory Api_Types
  imports Go_Prelude
begin

text \<open>
  The custom resources of \<open>api/v1alpha1\<close> and the Kubernetes objects the operator reads and
  writes, as records with the fields the program uses; the constants of \<open>internal/shared/vars\<close>
  and \<open>api/v1alpha1/constants.go\<close>; Go's error values; and the interface
  \<open>CertificateObject\<close> of \<open>internal/shared/utils/event_handler.go\<close> as a locale, interpreted on
  the methods of \<open>ExportCertificateSecret\<close>. A pointer or map that may be \<open>nil\<close>, and a
  timestamp that may be zero, is an option.
\<close>

section \<open>Constants\<close>

definition FINALIZER :: string where "FINALIZER = ''external-certificate.io/finalizer''"
definition BASE64EN_TEMPLATING :: string where "BASE64EN_TEMPLATING = ''base64encode''"
definition PEMTOPFX_TEMPLATING :: string where "PEMTOPFX_TEMPLATING = ''pemtopfx''"
definition BaseDelay :: duration where "BaseDelay = Minute * 2"
definition BaseDelayDelete :: duration where "BaseDelayDelete = Second * 30"
definition MaxRetries :: go_int where "MaxRetries = 5"
definition MaxDuration :: duration where "MaxDuration = 30 * Minute"
definition MaxStatusCount :: nat where "MaxStatusCount = 5"
definition IMPORT_CERT_SECRET_CRD :: string where
  "IMPORT_CERT_SECRET_CRD = ''importcertificatesecrets.external-certificate.io''"
definition EXPORT_CERT_SECRET_CRD :: string where
  "EXPORT_CERT_SECRET_CRD = ''exportcertificatesecrets.external-certificate.io''"

definition TLSKEY :: string where "TLSKEY = ''tls.key''"
definition TLSCRT :: string where "TLSCRT = ''tls.crt''"
definition CACRT :: string where "CACRT = ''ca.crt''"
definition COMBINEDPEM :: string where "COMBINEDPEM = ''tls-combined.pem''"

lemmas duration_defs = BaseDelay_def BaseDelayDelete_def MaxDuration_def Minute_def Second_def

text \<open>A retry count that is not used up.\<close>

lemma small_count:
  fixes n :: go_int
  assumes "0 \<le>s n" and "\<not> MaxRetries \<le>s n"
  shows "n = 0 \<or> n = 1 \<or> n = 2 \<or> n = 3 \<or> n = 4"
proof -
  have "sint n \<in> {0, 1, 2, 3, 4}" using assms by (auto simp: word_sle_eq MaxRetries_def)
  moreover have "n = word_of_int (sint n)" by simp
  ultimately show ?thesis by (metis empty_iff insert_iff of_int_0 of_int_1 of_int_numeral)
qed

section \<open>Errors\<close>

text \<open>
  The error values the program distinguishes: a Kubernetes status error with reason
  \<open>NotFound\<close>, an \<open>autorest.DetailedError\<close> with its status code, any other error, and an error
  wrapped with \<open>%w\<close>. Each carries the text its \<open>Error()\<close> method returns.
\<close>

datatype go_error =
    NotFoundError string
  | DetailedError nat string
  | PlainError string
  | WrappedError string go_error

fun errorText :: "go_error \<Rightarrow> string" where
  "errorText (NotFoundError t) = t"
| "errorText (DetailedError c t) = t"
| "errorText (PlainError t) = t"
| "errorText (WrappedError t e) = t @ errorText e"

text \<open>\<open>errors.IsNotFound\<close> of \<open>k8s.io/apimachinery\<close> looks through wrapped errors.\<close>

fun IsNotFound :: "go_error \<Rightarrow> bool" where
  "IsNotFound (NotFoundError t) = True"
| "IsNotFound (WrappedError t e) = IsNotFound e"
| "IsNotFound _ = False"

section \<open>Resources\<close>

record NamespacedName =
  nn_Namespace :: string
  nn_Name :: string

record ObjectMeta =
  Name :: string
  Namespace :: string
  UID :: string
  Generation :: int
  DeletionTimestamp :: "timestamp option"
  Finalizers :: "string list"
  Annotations :: "(string \<times> string) list option"
  Labels :: "(string \<times> string) list option"

record ServiceAccountRef =
  sa_Name :: string
  Audiences :: "string list"

record CertificateSecretRef =
  KVSecretName :: string
  RefType :: string
  SecretKey :: string
  SecretName :: string
  Templating :: string

record Condition =
  CondType :: string
  CondStatus :: string
  Reason :: string
  Message :: string
  LastTransitionTime :: timestamp

definition ConditionTrue :: string where "ConditionTrue = ''True''"
definition ConditionFalse :: string where "ConditionFalse = ''False''"

record ExportAzureKVProvider =
  eVaultUrl :: string
  eServiceAccountRef :: ServiceAccountRef
  eCertificateSecretRef :: "CertificateSecretRef list"
  OnDeletePurge :: bool

record ExportCertificateSecretStatus =
  eConditions :: "Condition list"
  eRetryCount :: go_int

record ExportCertificateSecret =
  eMeta :: ObjectMeta
  eAzureKV :: ExportAzureKVProvider \<comment> \<open>\<open>Spec.AzureKV\<close>, the only field of \<open>Spec\<close>\<close>
  eStatus :: ExportCertificateSecretStatus

record ImportAzureKVProvider =
  iVaultUrl :: string
  iServiceAccountRef :: ServiceAccountRef
  iCertificateSecretRef :: "CertificateSecretRef list"
  SecretNamespace :: string
  ScanInterval :: go_int

record ImportCertificateSecretStatus =
  iConditions :: "Condition list"
  iRetryCount :: go_int

record ImportCertificateSecret =
  iMeta :: ObjectMeta
  iAzureKV :: ImportAzureKVProvider
  iStatus :: ImportCertificateSecretStatus

text \<open>Kubernetes objects of other API groups, with the fields the operator uses.\<close>

record K8sSecret =
  secMeta :: ObjectMeta
  Data :: "(string \<times> bytes) list option"
  secType :: string

record ServiceAccount =
  saMeta :: ObjectMeta

record CustomResourceDefinition =
  crdMeta :: ObjectMeta

record K8sEvent =
  GenerateName :: string
  evNamespace :: string
  InvolvedKind :: string
  InvolvedNamespace :: string
  InvolvedName :: string
  InvolvedUID :: string
  APIVersion :: string
  evReason :: string
  evMessage :: string
  evType :: string
  SourceComponent :: string
  FirstTimestamp :: timestamp
  LastTimestamp :: timestamp
  EventCount :: nat

definition emptyMeta :: ObjectMeta where
  "emptyMeta = \<lparr>Name = [], Namespace = [], UID = [], Generation = 0, DeletionTimestamp = None,
     Finalizers = [], Annotations = None, Labels = None\<rparr>"

definition emptySecret :: K8sSecret where
  "emptySecret = \<lparr>secMeta = emptyMeta, Data = None, secType = []\<rparr>"

text \<open>\<open>client.ObjectKeyFromObject\<close>\<close>

definition metaKey :: "ObjectMeta \<Rightarrow> NamespacedName" where
  "metaKey m = \<lparr>nn_Namespace = Namespace m, nn_Name = Name m\<rparr>"

section \<open>The methods of ExportCertificateSecret\<close>

definition GetConditions :: "ExportCertificateSecret \<Rightarrow> Condition list" where
  "GetConditions r = eConditions (eStatus r)"

definition SetConditions :: "Condition list \<Rightarrow> ExportCertificateSecret \<Rightarrow> ExportCertificateSecret" where
  "SetConditions conditions r = r\<lparr>eStatus := (eStatus r)\<lparr>eConditions := conditions\<rparr>\<rparr>"

text \<open>\<open>GetAnnotations\<close> allocates the map when it is \<open>nil\<close> and returns it.\<close>

definition GetAnnotations ::
  "ExportCertificateSecret \<Rightarrow> (string \<times> string) list \<times> ExportCertificateSecret" where
  "GetAnnotations r =
     (case Annotations (eMeta r) of
        None \<Rightarrow> ([], r\<lparr>eMeta := (eMeta r)\<lparr>Annotations := Some []\<rparr>\<rparr>)
      | Some m \<Rightarrow> (m, r))"

definition GetRetryCount :: "ExportCertificateSecret \<Rightarrow> go_int" where
  "GetRetryCount r = eRetryCount (eStatus r)"

definition SetRetryCount :: "go_int \<Rightarrow> ExportCertificateSecret \<Rightarrow> ExportCertificateSecret" where
  "SetRetryCount count r = r\<lparr>eStatus := (eStatus r)\<lparr>eRetryCount := count\<rparr>\<rparr>"

definition exportKey :: "ExportCertificateSecret \<Rightarrow> NamespacedName" where
  "exportKey r = metaKey (eMeta r)"

section \<open>The interface CertificateObject\<close>

text \<open>
  What the event handler relies on: conditions and retry count are independent fields that
  read back what was set, and setting them leaves the object's key alone.
\<close>

locale certificate_object =
  fixes getC :: "'o \<Rightarrow> Condition list"
    and setC :: "Condition list \<Rightarrow> 'o \<Rightarrow> 'o"
    and getR :: "'o \<Rightarrow> go_int"
    and setR :: "go_int \<Rightarrow> 'o \<Rightarrow> 'o"
    and objKey :: "'o \<Rightarrow> NamespacedName"
  assumes get_set_conditions: "getC (setC cs x) = cs"
    and retry_set_conditions: "getR (setC cs x) = getR x"
    and get_set_retry: "getR (setR n x) = n"
    and conditions_set_retry: "getC (setR n x) = getC x"
    and key_set_conditions: "objKey (setC cs x) = objKey x"
    and key_set_retry: "objKey (setR n x) = objKey x"
    and set_set_conditions: "setC cs (setC ds x) = setC cs x"
begin

text \<open>Prepending a condition and cutting the history at a bound, as the event handler does.\<close>

lemma push_condition:
  assumes "0 < k"
  shows "getC (setC (take k (c # getC x)) x) \<noteq> []"
    and "hd (getC (setC (take k (c # getC x)) x)) = c"
    and "length (getC (setC (take k (c # getC x)) x)) \<le> k"
    and "getR (setC (take k (c # getC x)) x) = getR x"
    and "objKey (setC (take k (c # getC x)) x) = objKey x"
  using assms
  by (cases k; simp add: get_set_conditions retry_set_conditions key_set_conditions)+

lemma history_bound_kept:
  "length (getC (setC (take k (c # getC x)) x)) = min k (Suc (length (getC x)))"
  by (simp add: get_set_conditions)

end

interpretation ecs: certificate_object GetConditions SetConditions GetRetryCount SetRetryCount exportKey
  by unfold_locales
    (simp_all add: GetConditions_def SetConditions_def GetRetryCount_def SetRetryCount_def exportKey_def)

section \<open>Example objects\<close>

text \<open>Concrete objects for the witnesses of the properties.\<close>

definition caseRef :: "string \<Rightarrow> string \<Rightarrow> CertificateSecretRef" where
  "caseRef key kv = \<lparr>KVSecretName = kv, RefType = ''crt'', SecretKey = key, SecretName = ''web-tls'',
     Templating = []\<rparr>"

lemma caseRef_simps [simp]:
  "KVSecretName (caseRef key kv) = kv" "RefType (caseRef key kv) = ''crt''"
  "SecretKey (caseRef key kv) = key" "SecretName (caseRef key kv) = ''web-tls''"
  "Templating (caseRef key kv) = []"
  by (simp_all add: caseRef_def)

definition exampleExport :: "CertificateSecretRef list \<Rightarrow> ExportCertificateSecret" where
  "exampleExport refs =
     \<lparr>eMeta = emptyMeta\<lparr>Name := ''web'', Namespace := ''prod''\<rparr>,
      eAzureKV = \<lparr>eVaultUrl = ''https://kv.vault.azure.net/'',
        eServiceAccountRef = \<lparr>sa_Name = ''sa'', Audiences = []\<rparr>,
        eCertificateSecretRef = refs, OnDeletePurge = False\<rparr>,
      eStatus = \<lparr>eConditions = [], eRetryCount = 0\<rparr>\<rparr>"

lemma exampleExport_simps [simp]:
  "eCertificateSecretRef (eAzureKV (exampleExport refs)) = refs"
  "eMeta (exampleExport refs) = emptyMeta\<lparr>Name := ''web'', Namespace := ''prod''\<rparr>"
  "eStatus (exampleExport refs) = \<lparr>eConditions = [], eRetryCount = 0\<rparr>"
  by (simp_all add: exampleExport_def)

abbreviation exampleObject :: ExportCertificateSecret where
  "exampleObject \<equiv> exampleExport []"

end
