(* ===== verification/Export_Webhook.thy ===== *)
theory Export_Webhook
  imports Api_Types
begin

text \<open>
  \<open>api/v1alpha1/exportcertificatesecret_webhook.go\<close>: the defaulting and the validating
  admission webhook of \<open>ExportCertificateSecret\<close>. \<open>Default\<close> rewrites the object,
  \<open>ValidateCreate\<close> and \<open>ValidateUpdate\<close> return \<^const>\<open>None\<close> for \<open>nil\<close> or the \<open>NewInvalid\<close>
  error with its list of field errors.
\<close>

section \<open>Admission errors\<close>

datatype path_elem = Child string | Index nat

datatype field_error = FieldInvalid "path_elem list" string string

datatype admission_error = NewInvalid string string string "field_error list"

definition refPath :: "nat \<Rightarrow> string \<Rightarrow> path_elem list" where
  "refPath i fld = [Child ''spec'', Child ''azureKV'', Child ''certificateSecretRef'', Index i, Child fld]"

definition newInvalidExport :: "string \<Rightarrow> field_error list \<Rightarrow> admission_error" where
  "newInvalidExport nm allErrs =
     NewInvalid ''external-certificate.io'' ''ExportCertificateSecret'' nm allErrs"

section \<open>Defaulting\<close>

text \<open>The characters the regular expression \<open>[^0-9a-zA-Z-]+\<close> keeps.\<close>

definition kv_char :: "char \<Rightarrow> bool" where
  "kv_char c = (let n = (of_char c :: nat) in
     (48 \<le> n \<and> n \<le> 57) \<or> (65 \<le> n \<and> n \<le> 90) \<or> (97 \<le> n \<and> n \<le> 122) \<or> n = 45)"

definition sanitizeSecretNameString :: "string \<Rightarrow> string" where
  "sanitizeSecretNameString = filter kv_char"

definition defaultRef :: "CertificateSecretRef \<Rightarrow> CertificateSecretRef" where
  "defaultRef certRef =
     (let r1 = (if KVSecretName certRef = []
                then certRef\<lparr>KVSecretName :=
                  sanitizeSecretNameString (SecretName certRef @ ''-'' @ RefType certRef)\<rparr>
                else certRef\<lparr>KVSecretName := sanitizeSecretNameString (KVSecretName certRef)\<rparr>);
          r2 = (if SecretKey r1 = TLSCRT \<or> SecretKey r1 = TLSKEY \<or> SecretKey r1 = CACRT
                then r1\<lparr>RefType := ''crt''\<rparr> else r1)
      in if SecretKey r2 = COMBINEDPEM
         then (let r3 = r2\<lparr>RefType := ''pem''\<rparr>
               in if Templating r3 = [] then r3\<lparr>Templating := PEMTOPFX_TEMPLATING\<rparr> else r3)
         else r2)"

definition ExportDefault :: "ExportCertificateSecret \<Rightarrow> ExportCertificateSecret" where
  "ExportDefault r =
     (let kv = eAzureKV r;
          kv1 = (if \<not> OnDeletePurge kv then kv\<lparr>OnDeletePurge := True\<rparr> else kv)
      in r\<lparr>eAzureKV := kv1\<lparr>eCertificateSecretRef := map defaultRef (eCertificateSecretRef kv1)\<rparr>\<rparr>)"

section \<open>Validation\<close>

definition allowedKeys :: "string list" where
  "allowedKeys = [TLSKEY, TLSCRT, CACRT, COMBINEDPEM]"

fun badKeyErrs :: "nat \<Rightarrow> CertificateSecretRef list \<Rightarrow> field_error list" where
  "badKeyErrs i [] = []"
| "badKeyErrs i (certRef # rs) =
     (if SecretKey certRef \<notin> set allowedKeys
      then [FieldInvalid (refPath i ''secretKey'') (SecretKey certRef)
              ''Invalid secret key. Only tls.key, tls.crt, ca.crt, and tls-combined.pem are allowed'']
      else []) @ badKeyErrs (Suc i) rs"

definition validateCertificateSecretRef :: "ExportCertificateSecret \<Rightarrow> admission_error option" where
  "validateCertificateSecretRef r =
     (let allErrs = badKeyErrs 0 (eCertificateSecretRef (eAzureKV r))
      in if allErrs = [] then None else Some (newInvalidExport (Name (eMeta r)) allErrs))"

fun nameErrs :: "nat \<Rightarrow> CertificateSecretRef list \<Rightarrow> field_error list" where
  "nameErrs i [] = []"
| "nameErrs i (certRef # rs) =
     FieldInvalid (refPath i ''secretName'') (SecretName certRef)
       ''All SecretName values in CertificateSecretRef must be the same'' # nameErrs (Suc i) rs"

definition validateSecretNames :: "ExportCertificateSecret \<Rightarrow> admission_error option" where
  "validateSecretNames r =
     (let refs = eCertificateSecretRef (eAzureKV r) in
      if refs = [] then None
      else (let secretNameMap = fold (\<lambda>c m. AList.update (SecretName c) True m) refs []
            in if 1 < length secretNameMap
               then Some (newInvalidExport (Name (eMeta r)) (nameErrs 0 refs))
               else None))"

fun dupErrs :: "nat \<Rightarrow> (string \<times> bool) list \<Rightarrow> CertificateSecretRef list \<Rightarrow> field_error list" where
  "dupErrs i m [] = []"
| "dupErrs i m (certRef # rs) =
     (case map_of m (KVSecretName certRef) of
        Some _ \<Rightarrow> FieldInvalid (refPath i ''kvSecretName'') (KVSecretName certRef)
                   ''KVSecretName values must be unique'' # dupErrs (Suc i) m rs
      | None \<Rightarrow> dupErrs (Suc i) (AList.update (KVSecretName certRef) True m) rs)"

definition validateUniqueKVSecretNames :: "ExportCertificateSecret \<Rightarrow> admission_error option" where
  "validateUniqueKVSecretNames r =
     (let refs = eCertificateSecretRef (eAzureKV r) in
      if refs = [] then None
      else (let allErrs = dupErrs 0 [] refs
            in if allErrs = [] then None else Some (newInvalidExport (Name (eMeta r)) allErrs)))"

definition ExportValidateCreate :: "ExportCertificateSecret \<Rightarrow> admission_error option" where
  "ExportValidateCreate r =
     (case validateCertificateSecretRef r of
        Some err \<Rightarrow> Some err
      | None \<Rightarrow> (case validateSecretNames r of
          Some err \<Rightarrow> Some err
        | None \<Rightarrow> (case validateUniqueKVSecretNames r of
            Some err \<Rightarrow> Some err
          | None \<Rightarrow> None)))"

definition ExportValidateUpdate ::
  "ExportCertificateSecret \<Rightarrow> ExportCertificateSecret \<Rightarrow> admission_error option" where
  "ExportValidateUpdate old r =
     (case validateCertificateSecretRef r of
        Some err \<Rightarrow> Some err
      | None \<Rightarrow> (case validateSecretNames r of
          Some err \<Rightarrow> Some err
        | None \<Rightarrow> (case validateUniqueKVSecretNames r of
            Some err \<Rightarrow> Some err
          | None \<Rightarrow> None)))"

definition ExportValidateDelete :: "ExportCertificateSecret \<Rightarrow> admission_error option" where
  "ExportValidateDelete r = None"

section \<open>Lemmas\<close>

lemmas key_defs = TLSKEY_def TLSCRT_def CACRT_def COMBINEDPEM_def

lemma sanitize_chars: "\<forall>c \<in> set (sanitizeSecretNameString s). kv_char c"
  by (simp add: sanitizeSecretNameString_def)

lemma sanitize_id: "\<forall>c \<in> set s. kv_char c \<Longrightarrow> sanitizeSecretNameString s = s"
  by (simp add: sanitizeSecretNameString_def filter_id_conv)

lemma sanitize_idem [simp]:
  "sanitizeSecretNameString (sanitizeSecretNameString s) = sanitizeSecretNameString s"
  by (simp add: sanitizeSecretNameString_def)

lemma sanitize_derived_nonempty: "sanitizeSecretNameString (s @ ''-'' @ t) \<noteq> []"
  by (simp add: sanitizeSecretNameString_def kv_char_def)

lemma defaultRef_fields [simp]:
  "SecretKey (defaultRef c) = SecretKey c" "SecretName (defaultRef c) = SecretName c"
  by (simp_all add: defaultRef_def Let_def)

lemma defaultRef_kv:
  "KVSecretName (defaultRef c) =
     sanitizeSecretNameString (if KVSecretName c = [] then SecretName c @ ''-'' @ RefType c else KVSecretName c)"
  by (simp add: defaultRef_def Let_def)

lemma defaultRef_type:
  "RefType (defaultRef c) =
     (if SecretKey c = COMBINEDPEM then ''pem''
      else if SecretKey c \<in> {TLSCRT, TLSKEY, CACRT} then ''crt'' else RefType c)"
  by (simp add: defaultRef_def Let_def key_defs)

lemma defaultRef_templating:
  "Templating (defaultRef c) =
     (if SecretKey c = COMBINEDPEM \<and> Templating c = [] then PEMTOPFX_TEMPLATING else Templating c)"
  by (simp add: defaultRef_def Let_def key_defs)

lemmas defaultRef_simps = defaultRef_kv defaultRef_type defaultRef_templating

lemma ref_eqI:
  fixes a b :: CertificateSecretRef
  shows "\<lbrakk>KVSecretName a = KVSecretName b; RefType a = RefType b; SecretKey a = SecretKey b;
    SecretName a = SecretName b; Templating a = Templating b\<rbrakk> \<Longrightarrow> a = b"
  by simp

lemma defaultRef_idem:
  assumes "KVSecretName c \<noteq> [] \<longrightarrow> sanitizeSecretNameString (KVSecretName c) \<noteq> []"
  shows "defaultRef (defaultRef c) = defaultRef c"
proof (rule ref_eqI)
  have "KVSecretName (defaultRef c) \<noteq> []"
    using assms sanitize_derived_nonempty by (auto simp: defaultRef_kv)
  then show "KVSecretName (defaultRef (defaultRef c)) = KVSecretName (defaultRef c)"
    by (simp add: defaultRef_kv)
qed (simp_all add: defaultRef_type defaultRef_templating PEMTOPFX_TEMPLATING_def)

lemma ExportDefault_refs [simp]:
  "eCertificateSecretRef (eAzureKV (ExportDefault r)) = map defaultRef (eCertificateSecretRef (eAzureKV r))"
  by (simp add: ExportDefault_def Let_def)

lemma ExportDefault_purge [simp]: "OnDeletePurge (eAzureKV (ExportDefault r))"
  by (simp add: ExportDefault_def Let_def)

lemma badKeyErrs_Nil: "badKeyErrs i rs = [] \<longleftrightarrow> (\<forall>c \<in> set rs. SecretKey c \<in> set allowedKeys)"
  by (induction rs arbitrary: i) auto

lemma fold_update_dom:
  "fst ` set (fold (\<lambda>c m. AList.update (f c) True m) rs m) = fst ` set m \<union> f ` set rs"
  by (induction rs arbitrary: m) (auto simp: dom_update)

lemma distinct_fold_update1:
  "distinct (map fst m) \<Longrightarrow> distinct (map fst (fold (\<lambda>c m. AList.update (f c) True m) rs m))"
  by (induction rs arbitrary: m) (auto intro: distinct_update)

lemma length_name_map:
  "length (fold (\<lambda>c m. AList.update (f c) True m) rs []) = card (f ` set rs)"
proof -
  let ?m = "fold (\<lambda>c m. AList.update (f c) True m) rs []"
  have "length ?m = card (dom (map_of ?m))"
    by (rule length_eq_card_dom) (simp add: distinct_fold_update1)
  then show ?thesis by (simp add: dom_map_of_fst fold_update_dom)
qed

lemma validateSecretNames_None:
  "validateSecretNames r = None \<longleftrightarrow>
     card (SecretName ` set (eCertificateSecretRef (eAzureKV r))) \<le> 1"
  by (auto simp: validateSecretNames_def Let_def length_name_map not_less)

lemma card_image_le_1: "card (f ` set xs) \<le> 1 \<longleftrightarrow> (\<forall>x \<in> set xs. \<forall>y \<in> set xs. f x = f y)"
  by (simp add: card_le_Suc0_iff_eq)

lemma dupErrs_Nil:
  "dupErrs i m rs = [] \<longleftrightarrow>
     distinct (map KVSecretName rs) \<and> fst ` set m \<inter> KVSecretName ` set rs = {}"
proof (induction i m rs rule: dupErrs.induct)
  case (2 i m c rs)
  show ?case
  proof (cases "map_of m (KVSecretName c)")
    case None
    then have "KVSecretName c \<notin> fst ` set m"
      by (simp add: map_of_eq_None_iff)
    then show ?thesis
      by (simp add: None "2.IH"(1) [OF None] dom_update) auto
  next
    case (Some b)
    then have "KVSecretName c \<in> fst ` set m"
      by (metis dom_map_of_fst domI)
    with Some show ?thesis by auto
  qed
qed simp

lemma validateUnique_None:
  "validateUniqueKVSecretNames r = None \<longleftrightarrow>
     distinct (map KVSecretName (eCertificateSecretRef (eAzureKV r)))"
  by (simp add: validateUniqueKVSecretNames_def Let_def dupErrs_Nil)

lemma validateKeys_None:
  "validateCertificateSecretRef r = None \<longleftrightarrow>
     (\<forall>c \<in> set (eCertificateSecretRef (eAzureKV r)). SecretKey c \<in> set allowedKeys)"
  by (simp add: validateCertificateSecretRef_def Let_def badKeyErrs_Nil)

lemmas validate_None = validateKeys_None validateSecretNames_None validateUnique_None

text \<open>The contract of the validating webhook: what an accepted object satisfies.\<close>

definition admitted :: "ExportCertificateSecret \<Rightarrow> bool" where
  "admitted r \<longleftrightarrow>
     (let refs = eCertificateSecretRef (eAzureKV r) in
      (\<forall>c \<in> set refs. SecretKey c \<in> set allowedKeys)
      \<and> (\<forall>c \<in> set refs. \<forall>d \<in> set refs. SecretName c = SecretName d)
      \<and> distinct (map KVSecretName refs))"

lemma admitted_iff_create: "ExportValidateCreate r = None \<longleftrightarrow> admitted r"
proof -
  have "ExportValidateCreate r = None \<longleftrightarrow> validateCertificateSecretRef r = None
      \<and> validateSecretNames r = None \<and> validateUniqueKVSecretNames r = None"
    by (simp add: ExportValidateCreate_def split: option.split)
  also have "\<dots> \<longleftrightarrow> admitted r"
    by (simp only: admitted_def Let_def validate_None card_image_le_1)
  finally show ?thesis .
qed

lemma update_as_create: "ExportValidateUpdate old r = ExportValidateCreate r"
  by (simp add: ExportValidateUpdate_def ExportValidateCreate_def)

section \<open>Properties\<close>

text \<open>
  What the admission does not look at: the type and the templating of the references, although
  the comment on \<open>validateCertificateSecretRef\<close> says it \<open>checks templating values\<close> and that
  \<open>only one of crt or pem is defined\<close>, and \<open>api/v1alpha1/docs\<close> allows \<open>base64encode\<close> only for
  the plain keys and \<open>pemtopfx\<close> only for the bundle.
\<close>

definition retyped :: "(CertificateSecretRef \<Rightarrow> string \<times> string) \<Rightarrow> ExportCertificateSecret \<Rightarrow> ExportCertificateSecret" where
  "retyped f r = r\<lparr>eAzureKV := (eAzureKV r)\<lparr>eCertificateSecretRef :=
     map (\<lambda>c. c\<lparr>RefType := fst (f c), Templating := snd (f c)\<rparr>) (eCertificateSecretRef (eAzureKV r))\<rparr>\<rparr>"

lemma fold_map_refs: "fold (\<lambda>c m. AList.update (SecretName c) True m) (map (\<lambda>c. c\<lparr>RefType := f c, Templating := g c\<rparr>) rs) m
    = fold (\<lambda>c m. AList.update (SecretName c) True m) rs m"
  by (induction rs arbitrary: m) simp_all

lemma retyped_errs:
  "badKeyErrs i (map (\<lambda>c. c\<lparr>RefType := f c, Templating := g c\<rparr>) rs) = badKeyErrs i rs"
  "nameErrs i (map (\<lambda>c. c\<lparr>RefType := f c, Templating := g c\<rparr>) rs) = nameErrs i rs"
  "dupErrs i m (map (\<lambda>c. c\<lparr>RefType := f c, Templating := g c\<rparr>) rs) = dupErrs i m rs"
  by (induction rs arbitrary: i m) (simp_all split: option.split)

lemma retyped_create: "ExportValidateCreate (retyped f r) = ExportValidateCreate r"
  by (simp add: ExportValidateCreate_def validateCertificateSecretRef_def validateSecretNames_def
      validateUniqueKVSecretNames_def retyped_def Let_def fold_map_refs retyped_errs)

text \<open>
  C24. Create and update admit exactly the objects whose references use one of the four
  supported secret keys, name one Kubernetes secret and have pairwise distinct Key Vault
  names; deletion is always admitted. The answer is the same, errors included, whatever the types
  and templatings of the references: neither is validated, though the comment on
  \<open>validateCertificateSecretRef\<close> and the API documentation say they are.
\<close>

theorem export_admission_exact:
  "(ExportValidateCreate r = None \<longleftrightarrow> admitted r) \<and> (ExportValidateUpdate old r = None \<longleftrightarrow> admitted r)
   \<and> ExportValidateDelete r = None
   \<and> ExportValidateCreate (retyped f r) = ExportValidateCreate r \<and> ExportValidateUpdate old (retyped f r) = ExportValidateUpdate old r"
  by (simp add: admitted_iff_create update_as_create ExportValidateDelete_def retyped_create)

text \<open>
  C25. An object that has been defaulted and admitted is complete for the export
  controller: every reference has type crt or pem as its key demands, a non-empty
  templating when it is a bundle, and a Key Vault name made of the characters Key Vault
  allows.
\<close>

theorem defaulted_admitted_complete:
  assumes "ExportValidateCreate (ExportDefault r) = None"
    and "c \<in> set (eCertificateSecretRef (eAzureKV (ExportDefault r)))"
  shows "RefType c = (if SecretKey c = COMBINEDPEM then ''pem'' else ''crt'')
    \<and> (SecretKey c = COMBINEDPEM \<longrightarrow> Templating c \<noteq> [])
    \<and> (\<forall>x \<in> set (KVSecretName c). kv_char x)"
proof -
  from assms(2) obtain d where d: "c = defaultRef d" by auto
  from assms have "SecretKey c \<in> set allowedKeys"
    by (auto simp: admitted_iff_create admitted_def Let_def)
  then have "RefType c = (if SecretKey c = COMBINEDPEM then ''pem'' else ''crt'')"
    by (auto simp: d defaultRef_type allowedKeys_def key_defs)
  moreover have "SecretKey c = COMBINEDPEM \<longrightarrow> Templating c \<noteq> []"
    by (simp add: d defaultRef_templating PEMTOPFX_TEMPLATING_def)
  moreover have "\<forall>x \<in> set (KVSecretName c). kv_char x"
    by (simp add: d defaultRef_kv sanitize_chars)
  ultimately show ?thesis by blast
qed


theorem defaulted_admitted_complete_witness:
  "RefType (defaultRef (caseRef COMBINEDPEM ''Web_Cert'')) = ''pem''
    \<and> Templating (defaultRef (caseRef COMBINEDPEM ''Web_Cert'')) \<noteq> []"
proof -
  let ?c = "caseRef COMBINEDPEM ''Web_Cert''"
  have a: "ExportValidateCreate (ExportDefault (exampleExport [?c])) = None"
    by (simp add: admitted_iff_create admitted_def Let_def allowedKeys_def)
  show ?thesis
    using defaulted_admitted_complete [OF a, of "defaultRef ?c"] by simp
qed

text \<open>
  Defaulting is idempotent, so the webhook does not rename Key Vault objects when it
  runs again on an update: as long as every explicit Key Vault name keeps a character when it
  is sanitized.
\<close>

theorem export_default_idempotent:
  assumes "\<And>c. c \<in> set (eCertificateSecretRef (eAzureKV r)) \<Longrightarrow>
    KVSecretName c = [] \<or> sanitizeSecretNameString (KVSecretName c) \<noteq> []"
  shows "ExportDefault (ExportDefault r) = ExportDefault r"
proof -
  have "map (defaultRef \<circ> defaultRef) (eCertificateSecretRef (eAzureKV r))
      = map defaultRef (eCertificateSecretRef (eAzureKV r))"
    using assms by (auto intro!: defaultRef_idem)
  then show ?thesis by (simp add: ExportDefault_def Let_def)
qed

theorem export_default_idempotent_witness:
  "ExportDefault (ExportDefault (exampleExport [caseRef TLSCRT ''a_b'', caseRef TLSKEY []]))
     = ExportDefault (exampleExport [caseRef TLSCRT ''a_b'', caseRef TLSKEY []])"
  by (rule export_default_idempotent)
    (auto simp: sanitizeSecretNameString_def kv_char_def)

text \<open>
  For a name that sanitizes to nothing defaulting is not idempotent: defaulting it twice
  gives the name derived from the Kubernetes secret, and only the second run does.
\<close>

theorem export_default_renames_blank:
  "KVSecretName (defaultRef (c\<lparr>KVSecretName := ''_''\<rparr>)) = []
   \<and> KVSecretName (defaultRef (defaultRef (c\<lparr>KVSecretName := ''_''\<rparr>))) \<noteq> []"
  using sanitize_derived_nonempty
  by (auto simp: defaultRef_kv) (simp_all add: sanitizeSecretNameString_def kv_char_def)

text \<open>
  After defaulting, deletion always purges: an explicit \<open>onDeletePurge: false\<close> does
  not survive the webhook.
\<close>

theorem export_default_forces_purge:
  "OnDeletePurge (eAzureKV (ExportDefault r)) = True"
  by simp

text \<open>
  C26. The uniqueness check does not look at the names Key Vault sees. For every name that
  lower-casing changes there is an admitted object, unchanged by defaulting, with two references
  whose Key Vault names the client lower-cases to the same name.
\<close>

theorem admission_misses_case_collision:
  assumes "ToLower n \<noteq> n" and "\<And>x. x \<in> set n \<Longrightarrow> kv_char x"
  shows "\<exists>r c d. ExportValidateCreate (ExportDefault r) = None
    \<and> eCertificateSecretRef (eAzureKV (ExportDefault r)) = [c, d]
    \<and> KVSecretName c = n \<and> KVSecretName c \<noteq> KVSecretName d
    \<and> ToLower (KVSecretName c) = ToLower (KVSecretName d)"
proof -
  let ?c = "caseRef TLSCRT n" and ?d = "caseRef TLSKEY (ToLower n)"
  have ne: "n \<noteq> []" and ln: "ToLower n \<noteq> []" using assms(1) by (auto simp: ToLower_def)
  have lc: "kv_char (lower_char x)" if "kv_char x" for x
    using that by (auto simp: lower_char_def kv_char_def Let_def of_char_of take_bit_eq_mod)
  have s: "sanitizeSecretNameString n = n" "sanitizeSecretNameString (ToLower n) = ToLower n"
    using assms(2) lc by (auto intro!: sanitize_id simp: ToLower_def)
  have c: "defaultRef ?c = ?c" "defaultRef ?d = ?d"
    by (rule ref_eqI; simp add: defaultRef_simps ne ln s key_defs)+
  have "ExportValidateCreate (ExportDefault (exampleExport [?c, ?d])) = None"
    using assms(1)
    by (simp add: admitted_iff_create admitted_def Let_def c) (auto simp: allowedKeys_def)
  then show ?thesis
    using assms(1)
    by (intro exI [of _ "exampleExport [?c, ?d]"] exI [of _ ?c] exI [of _ ?d])
      (simp add: c)
qed

theorem admission_misses_case_collision_witness:
  "\<exists>r c d. ExportValidateCreate (ExportDefault r) = None
    \<and> eCertificateSecretRef (eAzureKV (ExportDefault r)) = [c, d]
    \<and> KVSecretName c = ''Cert'' \<and> KVSecretName c \<noteq> KVSecretName d
    \<and> ToLower (KVSecretName c) = ToLower (KVSecretName d)"
proof (rule admission_misses_case_collision)
  show "ToLower ''Cert'' \<noteq> ''Cert''" by code_simp
qed (auto simp: kv_char_def)

end
