(* ===== verification/Import_Webhook.thy ===== *)
theory Import_Webhook
  imports Export_Webhook
begin

text \<open>
  \<open>api/v1alpha1/importcertificatesecret_webhook.go\<close>, and the part of \<open>cmd/main.go\<close> that
  computes the webhook's configuration: the list of namespaces an \<open>ImportCertificateSecret\<close>
  may create secrets in, from the flag \<open>--allowed-import-cross-namespaces\<close>. The package
  variable \<open>allowedNamespaces\<close> is the first argument of the validators.
\<close>

section \<open>The webhook\<close>

definition ImportDefault :: "ImportCertificateSecret \<Rightarrow> ImportCertificateSecret" where
  "ImportDefault r =
     (if ScanInterval (iAzureKV r) = 0
      then r\<lparr>iAzureKV := (iAzureKV r)\<lparr>ScanInterval := 30\<rparr>\<rparr> else r)"

text \<open>The loop of \<open>validateSecretNameSpace\<close>: it returns at the first equal entry.\<close>

fun namespaceListed :: "string list \<Rightarrow> string \<Rightarrow> bool" where
  "namespaceListed [] s = False"
| "namespaceListed (ns # rest) s = (if s = ns then True else namespaceListed rest s)"

definition validateSecretNameSpace ::
  "string list \<Rightarrow> ImportCertificateSecret \<Rightarrow> admission_error option" where
  "validateSecretNameSpace allowedNamespaces r =
     (let s = SecretNamespace (iAzureKV r) in
      if s = [] then None
      else if Join allowedNamespaces '', '' = [] then None
      else if namespaceListed allowedNamespaces s then None
      else Some (NewInvalid ''external-certificate.io'' ''ImportCertificateSecret'' (Name (iMeta r))
        [FieldInvalid [Child ''spec'', Child ''azureKV'', Child ''SecretNamespace''] s
          (''Values for Spec.AzureKV.SecretNamespace allowed: '' @ Join allowedNamespaces '', '')]))"

definition ImportValidateCreate ::
  "string list \<Rightarrow> ImportCertificateSecret \<Rightarrow> admission_error option" where
  "ImportValidateCreate allowedNamespaces r = validateSecretNameSpace allowedNamespaces r"

definition ImportValidateUpdate ::
  "string list \<Rightarrow> ImportCertificateSecret \<Rightarrow> ImportCertificateSecret \<Rightarrow> admission_error option" where
  "ImportValidateUpdate allowedNamespaces old r = validateSecretNameSpace allowedNamespaces r"

definition ImportValidateDelete ::
  "string list \<Rightarrow> ImportCertificateSecret \<Rightarrow> admission_error option" where
  "ImportValidateDelete allowedNamespaces r = None"

section \<open>The flag in main\<close>

definition cleanNamespace :: "string \<Rightarrow> string" where
  "cleanNamespace ns =
     filter (\<lambda>c. c \<noteq> CHR 0x5C) (TrimSpace (trim_where (\<lambda>c. c = CHR 0x22) ns))"

definition cleanNamespaces :: "string list \<Rightarrow> string list" where
  "cleanNamespaces namespaces = map cleanNamespace namespaces"

text \<open>What \<open>setupControllers\<close> passes to \<open>SetAllowedNamespaces\<close>.\<close>

definition allowedNamespacesFromFlag :: "string \<Rightarrow> string list" where
  "allowedNamespacesFromFlag flag =
     (let l = Split1 CHR '','' flag in if 0 < length l then cleanNamespaces l else l)"

section \<open>Lemmas\<close>

lemma namespaceListed_iff: "namespaceListed ns s \<longleftrightarrow> s \<in> set ns"
  by (induction ns) auto

lemma validateSecretNameSpace_None:
  "validateSecretNameSpace ns r = None \<longleftrightarrow>
     SecretNamespace (iAzureKV r) = [] \<or> ns = [] \<or> ns = [[]] \<or> SecretNamespace (iAzureKV r) \<in> set ns"
  by (auto simp: validateSecretNameSpace_def Let_def namespaceListed_iff Join_empty_iff)

text \<open>A name of a namespace: no separator and nothing that the cleaning removes.\<close>

definition plain_name :: "string \<Rightarrow> bool" where
  "plain_name s \<longleftrightarrow>
     s \<noteq> [] \<and> (\<forall>c \<in> set s. c \<noteq> CHR '','' \<and> c \<noteq> CHR 0x22 \<and> c \<noteq> CHR 0x5C \<and> \<not> is_space c)"

lemma dropWhile_none: "\<forall>c \<in> set s. \<not> p c \<Longrightarrow> dropWhile p s = s"
  by (cases s) auto

lemma trim_where_none: "\<forall>c \<in> set s. \<not> p c \<Longrightarrow> trim_where p s = s"
  by (simp add: trim_where_def dropWhile_none)

lemma trim_where_around:
  assumes "\<forall>c \<in> set pre. p c" "\<forall>c \<in> set post. p c" "s \<noteq> []" "\<not> p (hd s)" "\<not> p (last s)"
  shows "trim_where p (pre @ s @ post) = s"
proof -
  have "dropWhile p (pre @ s @ post) = s @ post"
    using assms by (cases s) (auto simp: dropWhile_append)
  moreover have "dropWhile p (rev (s @ post)) = rev s"
    using assms by (cases s rule: rev_cases) (auto simp: dropWhile_append)
  ultimately show ?thesis by (simp add: trim_where_def)
qed

lemma cleanNamespace_plain:
  assumes "plain_name s" and "\<forall>c \<in> set pre. is_space c" and "\<forall>c \<in> set post. is_space c"
  shows "cleanNamespace (pre @ s @ post) = s"
proof -
  have q: "is_space c \<Longrightarrow> c \<noteq> CHR 0x22" for c by (auto simp: is_space_def Let_def)
  have "trim_where (\<lambda>c. c = CHR 0x22) (pre @ s @ post) = pre @ s @ post"
    using assms q by (intro trim_where_none) (auto simp: plain_name_def)
  moreover have "TrimSpace (pre @ s @ post) = s"
    unfolding TrimSpace_def using assms
    by (intro trim_where_around) (auto simp: plain_name_def)
  ultimately show ?thesis
    using assms(1) by (auto simp: cleanNamespace_def filter_id_conv plain_name_def)
qed

lemma cleanNamespace_quoted: "plain_name s \<Longrightarrow> cleanNamespace (CHR 0x22 # s @ [CHR 0x22]) = s"
proof -
  assume s: "plain_name s"
  have "trim_where (\<lambda>c. c = CHR 0x22) ([CHR 0x22] @ s @ [CHR 0x22]) = s"
    using s by (intro trim_where_around) (auto simp: plain_name_def)
  moreover have "TrimSpace s = s"
    unfolding TrimSpace_def using s by (intro trim_where_none) (auto simp: plain_name_def)
  ultimately show ?thesis
    using s by (auto simp: cleanNamespace_def filter_id_conv plain_name_def)
qed

lemma cleanNamespace_space_quoted:
  assumes "plain_name s"
  shows "cleanNamespace (CHR '' '' # CHR 0x22 # s @ [CHR 0x22]) = CHR 0x22 # s"
proof -
  have "trim_where (\<lambda>c. c = CHR 0x22) ([] @ (CHR '' '' # CHR 0x22 # s) @ [CHR 0x22]) = CHR '' '' # CHR 0x22 # s"
    using assms by (intro trim_where_around) (auto simp: plain_name_def)
  moreover have "trim_where is_space ([CHR '' ''] @ (CHR 0x22 # s) @ []) = CHR 0x22 # s"
    using assms by (intro trim_where_around) (auto simp: plain_name_def is_space_def)
  ultimately show ?thesis
    using assms by (auto simp: cleanNamespace_def TrimSpace_def filter_id_conv plain_name_def)
qed

lemma allowedNamespacesFromFlag_eq:
  "allowedNamespacesFromFlag flag = map cleanNamespace (Split1 CHR '','' flag)"
  by (simp add: allowedNamespacesFromFlag_def cleanNamespaces_def Let_def)

lemma allowedNamespaces_join:
  assumes "ns \<noteq> []" and "\<forall>n \<in> set ns. plain_name n"
  shows "allowedNamespacesFromFlag (Join ns '','') = ns"
proof -
  have "Split1 CHR '','' (Join ns '','') = ns"
    using assms by (intro Split1_Join) (auto simp: plain_name_def)
  moreover have "cleanNamespace n = n" if "n \<in> set ns" for n
    using that assms(2) cleanNamespace_plain [of n "[]" "[]"] by simp
  ultimately show ?thesis by (simp add: allowedNamespacesFromFlag_eq map_idI)
qed

section \<open>Properties\<close>

text \<open>
  C27. With a flag that lists namespaces separated by commas, create and update admit
  exactly the objects that name no foreign namespace or one of the listed ones.
\<close>

theorem import_cross_namespace_policy:
  assumes "ns \<noteq> []" and "\<forall>n \<in> set ns. plain_name n"
  shows "(ImportValidateCreate (allowedNamespacesFromFlag (Join ns '','')) r = None \<longleftrightarrow>
      SecretNamespace (iAzureKV r) = [] \<or> SecretNamespace (iAzureKV r) \<in> set ns)
    \<and> ImportValidateUpdate (allowedNamespacesFromFlag (Join ns '','')) old r =
      ImportValidateCreate (allowedNamespacesFromFlag (Join ns '','')) r"
proof -
  have "ns \<noteq> [[]]"
  proof
    assume "ns = [[]]"
    with assms(2) show False by (simp add: plain_name_def)
  qed
  with assms(1) show ?thesis
    by (simp add: ImportValidateCreate_def ImportValidateUpdate_def validateSecretNameSpace_None
        allowedNamespaces_join [OF assms])
qed

theorem import_cross_namespace_policy_witness:
  "ImportValidateCreate (allowedNamespacesFromFlag ''foo,bar'')
     \<lparr>iMeta = emptyMeta, iAzureKV = \<lparr>iVaultUrl = [], iServiceAccountRef = \<lparr>sa_Name = [], Audiences = []\<rparr>,
       iCertificateSecretRef = [], SecretNamespace = ''baz'', ScanInterval = 1\<rparr>,
       iStatus = \<lparr>iConditions = [], iRetryCount = 0\<rparr>\<rparr> \<noteq> None"
proof -
  have p: "\<forall>n \<in> set [''foo'', ''bar'']. plain_name n"
    by (simp add: plain_name_def is_space_def)
  show ?thesis
    using import_cross_namespace_policy [OF _ p] by simp
qed

text \<open>
  Without the flag (its default is the empty string) every namespace is admitted: the
  restriction is opt-in.
\<close>

theorem import_default_flag_admits_all:
  "ImportValidateCreate (allowedNamespacesFromFlag []) r = None"
  by (simp add: ImportValidateCreate_def allowedNamespacesFromFlag_eq validateSecretNameSpace_None
      cleanNamespace_def TrimSpace_def trim_where_def)

text \<open>
  The cleaning copes with quotes around an entry and with spaces around it, but not with
  a quoted entry after a space: then the opening quote stays in the list and the namespace is
  refused, although the flag names it.
\<close>

theorem flag_space_before_quote:
  assumes "plain_name a" and "plain_name b"
  shows "allowedNamespacesFromFlag (CHR 0x22 # a @ CHR 0x22 # CHR '','' # CHR '' '' # CHR 0x22 # b @ [CHR 0x22])
    = [a, CHR 0x22 # b]"
proof -
  have "CHR 0x22 # a @ CHR 0x22 # CHR '','' # CHR '' '' # CHR 0x22 # b @ [CHR 0x22]
      = Join [CHR 0x22 # a @ [CHR 0x22], CHR '' '' # CHR 0x22 # b @ [CHR 0x22]] '',''"
    by simp
  moreover have "Split1 CHR '','' \<dots> = [CHR 0x22 # a @ [CHR 0x22], CHR '' '' # CHR 0x22 # b @ [CHR 0x22]]"
    using assms by (intro Split1_Join) (auto simp: plain_name_def)
  ultimately show ?thesis
    by (simp add: allowedNamespacesFromFlag_eq cleanNamespace_quoted cleanNamespace_space_quoted assms)
qed

theorem flag_space_before_quote_witness:
  "allowedNamespacesFromFlag (CHR 0x22 # ''foo'' @ CHR 0x22 # CHR '','' # CHR '' '' # CHR 0x22 # ''bar'' @ [CHR 0x22])
    = [''foo'', CHR 0x22 # ''bar'']"
  by (rule flag_space_before_quote) (simp_all add: plain_name_def is_space_def)

end
