(* ===== verification/Go_World.thy ===== *)
theory Go_World
  imports Api_Types
begin

text \<open>
  The operator's surroundings. Everything outside the repository that its methods call (the
  Kubernetes API server through controller-runtime's client and client-go's clientset, the
  clock) is a record of functions over an arbitrary type \<open>'w\<close> of worlds: a parameter of the
  model. Each call returns a result and a new world, and is recorded in a trace, so
  properties can speak of which requests were made and in which order. Laws such as
  "an update is read back" are named hypotheses here, never part of the definitions.
\<close>

section \<open>Requests\<close>

type_synonym data_patch = "(string \<times> bytes option) list" \<comment> \<open>\<^const>\<open>None\<close> is a JSON null: remove the key\<close>

datatype (plugins only: code size) effect =
    GetCRD string
  | GetExport NamespacedName
  | GetImport NamespacedName
  | GetServiceAccount NamespacedName
  | GetSecret NamespacedName
  | ListExports string
  | ListImports string
  | UpdateExport ExportCertificateSecret
  | UpdateImport ImportCertificateSecret
  | StatusExport ExportCertificateSecret
  | StatusImport ImportCertificateSecret
  | CreateEvent K8sEvent
  | DeleteK8sSecret K8sSecret
  | RecordEvent NamespacedName string string string
  | ClientsetGetSecret string string
  | ClientsetCreateSecret string K8sSecret
  | ClientsetPatchSecret string string data_patch
  | ClientsetCreateToken string string "string list"
  | GetConfig
  | NewForConfig
  | AcquireToken string string string string
  | KvGetSecret string string
  | KvSetSecret string string bytes "unix_seconds option"
  | KvImportCertificate string string bytes
  | KvDeleteSecret string string
  | KvPurgeSecret string string
  | KvDeleteCertificate string string
  | KvPurgeCertificate string string
  | Now
  | Sleep duration
  | RangeMap "string list"
  | CreateTemp string "string option"
  | WriteFile string bytes
  | SyncFile string
  | CloseFile string
  | RemoveFile string
  | RunCommand "string list"
  | ReadFile string

record 'w st =
  trace :: "effect list"
  world :: "'w"

definition call :: "('a \<Rightarrow> effect) \<Rightarrow> ('w \<Rightarrow> 'a \<times> 'w) \<Rightarrow> (('w, 'z) st_scheme, 'a) go" where
  "call e f s = (case f (world s) of (a, w) \<Rightarrow> (Done a, s\<lparr>trace := trace s @ [e a], world := w\<rparr>))"

lemma run_call [go_run]:
  "call e f s = (Done (fst (f (world s))),
     s\<lparr>trace := trace s @ [e (fst (f (world s)))], world := snd (f (world s))\<rparr>)"
  by (simp add: call_def split: prod.splits)

lemma keeps_call:
  "(\<And>s. I s \<Longrightarrow> I (s\<lparr>trace := trace s @ [e (fst (f (world s)))], world := snd (f (world s))\<rparr>))
   \<Longrightarrow> keeps I (call e f)"
  by (simp add: keeps_def run_call)

section \<open>The Kubernetes API\<close>

record 'w kube =
  get_crd :: "string \<Rightarrow> 'w \<Rightarrow> (go_error + CustomResourceDefinition) \<times> 'w"
  get_export :: "NamespacedName \<Rightarrow> 'w \<Rightarrow> (go_error + ExportCertificateSecret) \<times> 'w"
  get_import :: "NamespacedName \<Rightarrow> 'w \<Rightarrow> (go_error + ImportCertificateSecret) \<times> 'w"
  get_service_account :: "NamespacedName \<Rightarrow> 'w \<Rightarrow> (go_error + ServiceAccount) \<times> 'w"
  get_secret :: "NamespacedName \<Rightarrow> 'w \<Rightarrow> (go_error + K8sSecret) \<times> 'w"
  list_exports :: "string \<Rightarrow> 'w \<Rightarrow> (go_error + ExportCertificateSecret list) \<times> 'w"
    \<comment> \<open>of a namespace, \<open>''''\<close> for all\<close>
  list_imports :: "string \<Rightarrow> 'w \<Rightarrow> (go_error + ImportCertificateSecret list) \<times> 'w"
  update_export :: "ExportCertificateSecret \<Rightarrow> 'w \<Rightarrow> (go_error + ExportCertificateSecret) \<times> 'w"
  update_import :: "ImportCertificateSecret \<Rightarrow> 'w \<Rightarrow> (go_error + ImportCertificateSecret) \<times> 'w"
  status_export :: "ExportCertificateSecret \<Rightarrow> 'w \<Rightarrow> (go_error + ExportCertificateSecret) \<times> 'w"
  status_import :: "ImportCertificateSecret \<Rightarrow> 'w \<Rightarrow> (go_error + ImportCertificateSecret) \<times> 'w"
  create_event :: "K8sEvent \<Rightarrow> 'w \<Rightarrow> go_error option \<times> 'w"
  delete_secret :: "K8sSecret \<Rightarrow> 'w \<Rightarrow> go_error option \<times> 'w"
  record_event :: "NamespacedName \<Rightarrow> string \<Rightarrow> string \<Rightarrow> string \<Rightarrow> 'w \<Rightarrow> unit \<times> 'w"
  cs_get_secret :: "string \<Rightarrow> string \<Rightarrow> 'w \<Rightarrow> (go_error + K8sSecret) \<times> 'w"
  cs_create_secret :: "string \<Rightarrow> K8sSecret \<Rightarrow> 'w \<Rightarrow> go_error option \<times> 'w"
  cs_patch_secret :: "string \<Rightarrow> string \<Rightarrow> data_patch \<Rightarrow> 'w \<Rightarrow> go_error option \<times> 'w"
  cs_create_token :: "string \<Rightarrow> string \<Rightarrow> string list \<Rightarrow> 'w \<Rightarrow> (go_error + string) \<times> 'w"
  get_config :: "'w \<Rightarrow> go_error option \<times> 'w"
  new_for_config :: "'w \<Rightarrow> go_error option \<times> 'w"
  time_now :: "'w \<Rightarrow> timestamp \<times> 'w"
  time_stamp :: "'w \<Rightarrow> string \<times> 'w"
    \<comment> \<open>\<open>time.Now().Format("2006-01-02T15:04:05")\<close>, in the machine's time zone\<close>
  time_sleep :: "duration \<Rightarrow> 'w \<Rightarrow> unit \<times> 'w"
  range_order :: "string list \<Rightarrow> 'w \<Rightarrow> string list \<times> 'w"
    \<comment> \<open>the order in which a \<open>range\<close> loop visits the keys of a map\<close>

text \<open>
  Go leaves the iteration order of a map unspecified but visits every key once.
\<close>

definition range_visits_all :: "'w kube \<Rightarrow> bool" where
  "range_visits_all K \<longleftrightarrow>
     (\<forall>ks w. distinct ks \<longrightarrow> distinct (fst (range_order K ks w)) \<and> set (fst (range_order K ks w)) = set ks)"

section \<open>Secrets behind the API\<close>

text \<open>Reading and ranging over a \<open>nil\<close> map is reading an empty one.\<close>

definition mapData :: "(string \<times> bytes) list option \<Rightarrow> (string \<times> bytes) list" where
  "mapData m = (case m of None \<Rightarrow> [] | Some d \<Rightarrow> d)"

text \<open>What applying such a patch to a map does.\<close>

definition applyDataPatch :: "data_patch \<Rightarrow> (string \<rightharpoonup> bytes) \<Rightarrow> (string \<rightharpoonup> bytes)" where
  "applyDataPatch p d k = (case map_of p k of None \<Rightarrow> d k | Some v \<Rightarrow> v)"

text \<open>
  The documented behaviour of the API server on secrets: \<open>view w\<close> are the stored data; a get
  returns them or reports that they do not exist, a create stores its object's data, a patch
  is applied to them, and a failed request changes nothing. A map has each key once.
\<close>

definition serves_secrets :: "'w kube \<Rightarrow> ('w \<Rightarrow> string \<times> string \<Rightarrow> (string \<rightharpoonup> bytes) option) \<Rightarrow> bool" where
  "serves_secrets K view \<longleftrightarrow>
     (\<forall>ns n w. case cs_get_secret K ns n w of (r, w') \<Rightarrow> view w' = view w \<and>
        (case r of
           Inl e \<Rightarrow> IsNotFound e \<longrightarrow> view w (ns, n) = None
         | Inr x \<Rightarrow> view w (ns, n) = Some (map_of (mapData (Data x))) \<and> distinct (map fst (mapData (Data x)))))
     \<and> (\<forall>ns x w. case cs_create_secret K ns x w of (r, w') \<Rightarrow>
        view w' = (if r = None then (view w)((ns, Name (secMeta x)) \<mapsto> map_of (mapData (Data x))) else view w))
     \<and> (\<forall>ns n p w. case cs_patch_secret K ns n p w of (r, w') \<Rightarrow>
        view w' = (if r = None then (view w)((ns, n) := map_option (applyDataPatch p) (view w (ns, n))) else view w))"

lemma serves_getD:
  assumes "serves_secrets K view" and "cs_get_secret K ns n w = (r, w')"
  shows "view w' = view w"
    and "r = Inl e \<Longrightarrow> IsNotFound e \<Longrightarrow> view w (ns, n) = None"
    and "r = Inr x \<Longrightarrow> view w (ns, n) = Some (map_of (mapData (Data x))) \<and> distinct (map fst (mapData (Data x)))"
proof -
  have "case cs_get_secret K ns n w of (r, w') \<Rightarrow> view w' = view w \<and>
        (case r of
           Inl e \<Rightarrow> IsNotFound e \<longrightarrow> view w (ns, n) = None
         | Inr x \<Rightarrow> view w (ns, n) = Some (map_of (mapData (Data x))) \<and> distinct (map fst (mapData (Data x))))"
    by (rule assms(1) [unfolded serves_secrets_def, THEN conjunct1, THEN spec, THEN spec, THEN spec])
  then show "view w' = view w"
    and "r = Inl e \<Longrightarrow> IsNotFound e \<Longrightarrow> view w (ns, n) = None"
    and "r = Inr x \<Longrightarrow> view w (ns, n) = Some (map_of (mapData (Data x))) \<and> distinct (map fst (mapData (Data x)))"
    using assms(2) by auto
qed

lemma serves_createD:
  assumes "serves_secrets K view" and "cs_create_secret K ns x w = (r, w')"
  shows "view w' = (if r = None then (view w)((ns, Name (secMeta x)) \<mapsto> map_of (mapData (Data x))) else view w)"
proof -
  have "case cs_create_secret K ns x w of (r, w') \<Rightarrow>
      view w' = (if r = None then (view w)((ns, Name (secMeta x)) \<mapsto> map_of (mapData (Data x))) else view w)"
    by (rule assms(1) [unfolded serves_secrets_def, THEN conjunct2, THEN conjunct1, THEN spec, THEN spec, THEN spec])
  then show ?thesis using assms(2) by simp
qed

lemma serves_patchD:
  assumes "serves_secrets K view" and "cs_patch_secret K ns n p w = (r, w')"
  shows "view w' = (if r = None then (view w)((ns, n) := map_option (applyDataPatch p) (view w (ns, n))) else view w)"
proof -
  have "case cs_patch_secret K ns n p w of (r, w') \<Rightarrow>
      view w' = (if r = None then (view w)((ns, n) := map_option (applyDataPatch p) (view w (ns, n))) else view w)"
    by (rule assms(1) [unfolded serves_secrets_def, THEN conjunct2, THEN conjunct2, THEN spec, THEN spec, THEN spec, THEN spec])
  then show ?thesis using assms(2) by simp
qed

text \<open>
  A cluster that cannot be reached: every request fails. Concrete instances of the API are
  updates of this record.
\<close>

definition refused :: go_error where "refused = PlainError ''connection refused''"

definition offlineKube :: "'w kube" where
  "offlineKube =
     \<lparr>get_crd = \<lambda>_ w. (Inl refused, w), get_export = \<lambda>_ w. (Inl refused, w),
      get_import = \<lambda>_ w. (Inl refused, w), get_service_account = \<lambda>_ w. (Inl refused, w),
      get_secret = \<lambda>_ w. (Inl refused, w), list_exports = \<lambda>_ w. (Inl refused, w),
      list_imports = \<lambda>_ w. (Inl refused, w), update_export = \<lambda>_ w. (Inl refused, w),
      update_import = \<lambda>_ w. (Inl refused, w), status_export = \<lambda>_ w. (Inl refused, w),
      status_import = \<lambda>_ w. (Inl refused, w), create_event = \<lambda>_ w. (Some refused, w),
      delete_secret = \<lambda>_ w. (Some refused, w), record_event = \<lambda>_ _ _ _ w. ((), w),
      cs_get_secret = \<lambda>_ _ w. (Inl refused, w), cs_create_secret = \<lambda>_ _ w. (Some refused, w),
      cs_patch_secret = \<lambda>_ _ _ w. (Some refused, w), cs_create_token = \<lambda>_ _ _ w. (Inl refused, w),
      get_config = \<lambda>w. (None, w), new_for_config = \<lambda>w. (None, w),
      time_now = \<lambda>w. (0, w), time_stamp = \<lambda>w. (''1970-01-01T00:00:00'', w),
      time_sleep = \<lambda>_ w. ((), w), range_order = \<lambda>ks w. (ks, w)\<rparr>"

text \<open>An API server that keeps its secrets in memory.\<close>

type_synonym secret_store = "string \<times> string \<Rightarrow> (string \<times> bytes) list option"

fun patchAList :: "data_patch \<Rightarrow> (string \<times> bytes) list \<Rightarrow> (string \<times> bytes) list" where
  "patchAList [] d = d"
| "patchAList ((k, v) # p) d =
     (case v of None \<Rightarrow> AList.delete k (patchAList p d) | Some b \<Rightarrow> AList.update k b (patchAList p d))"

lemma map_of_patchAList: "map_of (patchAList p d) = applyDataPatch p (map_of d)"
  by (induction p d rule: patchAList.induct)
    (auto simp: applyDataPatch_def fun_eq_iff update_conv' delete_conv' split: option.splits)

definition memSecretKube :: "secret_store kube" where
  "memSecretKube = offlineKube
     \<lparr>cs_get_secret := \<lambda>ns n w. (case w (ns, n) of
          None \<Rightarrow> Inl (NotFoundError ''secret not found'')
        | Some d \<Rightarrow> Inr (emptySecret\<lparr>Data := Some (AList.clearjunk d)\<rparr>), w),
      cs_create_secret := \<lambda>ns x w. (None, w((ns, Name (secMeta x)) \<mapsto> mapData (Data x))),
      cs_patch_secret := \<lambda>ns n p w. (None, w((ns, n) := map_option (patchAList p) (w (ns, n))))\<rparr>"

lemma memSecretKube_serves: "serves_secrets memSecretKube (\<lambda>w k. map_option map_of (w k))"
  by (auto simp: serves_secrets_def memSecretKube_def fun_eq_iff mapData_def map_of_clearjunk
      map_of_patchAList option.map_comp o_def distinct_clearjunk split: option.splits)

section \<open>The calls, with their trace\<close>

definition kGetCRD :: "'w kube \<Rightarrow> string \<Rightarrow> (('w, 'z) st_scheme, go_error + CustomResourceDefinition) go" where
  "kGetCRD K n = call (\<lambda>_. GetCRD n) (get_crd K n)"

definition kGetExport :: "'w kube \<Rightarrow> NamespacedName \<Rightarrow> (('w, 'z) st_scheme, go_error + ExportCertificateSecret) go" where
  "kGetExport K key = call (\<lambda>_. GetExport key) (get_export K key)"

definition kGetImport :: "'w kube \<Rightarrow> NamespacedName \<Rightarrow> (('w, 'z) st_scheme, go_error + ImportCertificateSecret) go" where
  "kGetImport K key = call (\<lambda>_. GetImport key) (get_import K key)"

definition kGetServiceAccount :: "'w kube \<Rightarrow> NamespacedName \<Rightarrow> (('w, 'z) st_scheme, go_error + ServiceAccount) go" where
  "kGetServiceAccount K key = call (\<lambda>_. GetServiceAccount key) (get_service_account K key)"

definition kGetSecret :: "'w kube \<Rightarrow> NamespacedName \<Rightarrow> (('w, 'z) st_scheme, go_error + K8sSecret) go" where
  "kGetSecret K key = call (\<lambda>_. GetSecret key) (get_secret K key)"

definition kListExports :: "'w kube \<Rightarrow> string \<Rightarrow> (('w, 'z) st_scheme, go_error + ExportCertificateSecret list) go" where
  "kListExports K ns = call (\<lambda>_. ListExports ns) (list_exports K ns)"

definition kListImports :: "'w kube \<Rightarrow> string \<Rightarrow> (('w, 'z) st_scheme, go_error + ImportCertificateSecret list) go" where
  "kListImports K ns = call (\<lambda>_. ListImports ns) (list_imports K ns)"

definition kUpdateExport :: "'w kube \<Rightarrow> ExportCertificateSecret \<Rightarrow> (('w, 'z) st_scheme, go_error + ExportCertificateSecret) go" where
  "kUpdateExport K x = call (\<lambda>_. UpdateExport x) (update_export K x)"

definition kUpdateImport :: "'w kube \<Rightarrow> ImportCertificateSecret \<Rightarrow> (('w, 'z) st_scheme, go_error + ImportCertificateSecret) go" where
  "kUpdateImport K x = call (\<lambda>_. UpdateImport x) (update_import K x)"

definition kStatusExport :: "'w kube \<Rightarrow> ExportCertificateSecret \<Rightarrow> (('w, 'z) st_scheme, go_error + ExportCertificateSecret) go" where
  "kStatusExport K x = call (\<lambda>_. StatusExport x) (status_export K x)"

definition kStatusImport :: "'w kube \<Rightarrow> ImportCertificateSecret \<Rightarrow> (('w, 'z) st_scheme, go_error + ImportCertificateSecret) go" where
  "kStatusImport K x = call (\<lambda>_. StatusImport x) (status_import K x)"

definition kCreateEvent :: "'w kube \<Rightarrow> K8sEvent \<Rightarrow> (('w, 'z) st_scheme, go_error option) go" where
  "kCreateEvent K ev = call (\<lambda>_. CreateEvent ev) (create_event K ev)"

definition kDeleteSecret :: "'w kube \<Rightarrow> K8sSecret \<Rightarrow> (('w, 'z) st_scheme, go_error option) go" where
  "kDeleteSecret K x = call (\<lambda>_. DeleteK8sSecret x) (delete_secret K x)"

definition kRecordEvent :: "'w kube \<Rightarrow> NamespacedName \<Rightarrow> string \<Rightarrow> string \<Rightarrow> string \<Rightarrow> (('w, 'z) st_scheme, unit) go" where
  "kRecordEvent K key ty rs msg = call (\<lambda>_. RecordEvent key ty rs msg) (record_event K key ty rs msg)"

definition csGetSecret :: "'w kube \<Rightarrow> string \<Rightarrow> string \<Rightarrow> (('w, 'z) st_scheme, go_error + K8sSecret) go" where
  "csGetSecret K ns n = call (\<lambda>_. ClientsetGetSecret ns n) (cs_get_secret K ns n)"

definition csCreateSecret :: "'w kube \<Rightarrow> string \<Rightarrow> K8sSecret \<Rightarrow> (('w, 'z) st_scheme, go_error option) go" where
  "csCreateSecret K ns x = call (\<lambda>_. ClientsetCreateSecret ns x) (cs_create_secret K ns x)"

definition csPatchSecret :: "'w kube \<Rightarrow> string \<Rightarrow> string \<Rightarrow> data_patch \<Rightarrow> (('w, 'z) st_scheme, go_error option) go" where
  "csPatchSecret K ns n p = call (\<lambda>_. ClientsetPatchSecret ns n p) (cs_patch_secret K ns n p)"

definition csCreateToken :: "'w kube \<Rightarrow> string \<Rightarrow> string \<Rightarrow> string list \<Rightarrow> (('w, 'z) st_scheme, go_error + string) go" where
  "csCreateToken K ns n auds = call (\<lambda>_. ClientsetCreateToken ns n auds) (cs_create_token K ns n auds)"

definition timeNow :: "'w kube \<Rightarrow> (('w, 'z) st_scheme, timestamp) go" where
  "timeNow K = call (\<lambda>_. Now) (time_now K)"

definition timeStamp :: "'w kube \<Rightarrow> (('w, 'z) st_scheme, string) go" where
  "timeStamp K = call (\<lambda>_. Now) (time_stamp K)"

definition timeSleep :: "'w kube \<Rightarrow> duration \<Rightarrow> (('w, 'z) st_scheme, unit) go" where
  "timeSleep K d = call (\<lambda>_. Sleep d) (time_sleep K d)"

definition rangeOrder :: "'w kube \<Rightarrow> string list \<Rightarrow> (('w, 'z) st_scheme, string list) go" where
  "rangeOrder K ks = call (\<lambda>_. RangeMap ks) (range_order K ks)"

lemmas call_defs = kGetCRD_def kGetExport_def kGetImport_def kGetServiceAccount_def kGetSecret_def
  kListExports_def kListImports_def kUpdateExport_def kUpdateImport_def kStatusExport_def
  kStatusImport_def kCreateEvent_def kDeleteSecret_def kRecordEvent_def csGetSecret_def
  csCreateSecret_def csPatchSecret_def csCreateToken_def timeNow_def timeStamp_def timeSleep_def
  rangeOrder_def

section \<open>Invariants of the trace\<close>

text \<open>
  \<open>adds P m\<close>: \<open>m\<close> only appends to the trace, and every request it adds satisfies \<open>P\<close>, on
  every path.
\<close>

definition adds :: "(effect \<Rightarrow> bool) \<Rightarrow> (('w, 'z) st_scheme, 'a) go \<Rightarrow> bool" where
  "adds P m \<longleftrightarrow> (\<forall>s. \<exists>es. trace (snd (m s)) = trace s @ es \<and> (\<forall>e \<in> set es. P e))"

named_theorems go_adds \<open>introduction rules for \<open>adds\<close>\<close>

lemma addsI: "(\<And>s r s'. m s = (r, s') \<Longrightarrow> \<exists>es. trace s' = trace s @ es \<and> (\<forall>e \<in> set es. P e)) \<Longrightarrow> adds P m"
  unfolding adds_def by (metis prod.collapse)

lemma addsE:
  assumes "adds P m" and "m s = (r, s')"
  obtains es where "trace s' = trace s @ es" and "\<forall>e \<in> set es. P e"
  using assms unfolding adds_def by (metis snd_conv)

lemma adds_same_trace: "(\<And>s r s'. m s = (r, s') \<Longrightarrow> trace s' = trace s) \<Longrightarrow> adds P m"
  by (rule addsI) auto

lemma adds_ret [go_adds]: "adds P (ret a)"
  by (rule adds_same_trace) (simp add: ret_def)

lemma adds_panic [go_adds]: "adds P (panic p)"
  by (rule adds_same_trace) (simp add: panic_def)

lemma adds_nilDeref [go_adds]: "adds P nilDeref"
  by (simp add: nilDeref_def adds_panic)

lemma adds_deref [go_adds]: "adds P (deref p)"
  by (cases p) (simp_all add: deref_def adds_nilDeref adds_ret)

lemma adds_gets [go_adds]: "adds P (gets f)"
  by (rule adds_same_trace) (simp add: gets_def)

lemma adds_modify [go_adds]: "(\<And>s. trace (f s) = trace s) \<Longrightarrow> adds P (modify f)"
  by (rule adds_same_trace) (auto simp: modify_def)

lemma adds_call [go_adds]: "(\<And>a. P (e a)) \<Longrightarrow> adds P (call e f)"
  by (rule addsI) (auto simp: call_def split: prod.splits)

lemma adds_andThen [go_adds]:
  assumes "adds P m" and "\<And>a. adds P (f a)"
  shows "adds P (andThen m f)"
proof (rule addsI)
  fix s r s'
  assume run: "andThen m f s = (r, s')"
  obtain r1 s1 where m: "m s = (r1, s1)" by fastforce
  from assms(1) m obtain es where es: "trace s1 = trace s @ es" "\<forall>e \<in> set es. P e"
    by (rule addsE)
  show "\<exists>es. trace s' = trace s @ es \<and> (\<forall>e \<in> set es. P e)"
  proof (cases r1)
    case (Done a)
    with run m have "f a s1 = (r, s')" by (simp add: andThen_def)
    with assms(2) obtain fs where "trace s' = trace s1 @ fs" "\<forall>e \<in> set fs. P e"
      by (rule addsE)
    with es show ?thesis by (intro exI [of _ "es @ fs"]) auto
  next
    case (Panicked p)
    with run m es show ?thesis by (auto simp: andThen_def)
  qed
qed

lemma adds_forEach [go_adds]:
  assumes "\<And>x. x \<in> set xs \<Longrightarrow> adds P (body x)"
  shows "adds P (forEach xs body)"
  using assms
  by (induction xs) (auto intro!: adds_andThen adds_ret split: option.splits)

lemma adds_if [go_adds]: "(b \<Longrightarrow> adds P m) \<Longrightarrow> (\<not> b \<Longrightarrow> adds P m') \<Longrightarrow> adds P (if b then m else m')"
  by simp

lemma adds_case_option [go_adds]:
  "(x = None \<Longrightarrow> adds P m) \<Longrightarrow> (\<And>a. x = Some a \<Longrightarrow> adds P (f a)) \<Longrightarrow>
   adds P (case x of None \<Rightarrow> m | Some a \<Rightarrow> f a)"
  by (cases x) simp_all

lemma adds_case_sum [go_adds]:
  "(\<And>e. x = Inl e \<Longrightarrow> adds P (f e)) \<Longrightarrow> (\<And>a. x = Inr a \<Longrightarrow> adds P (g a)) \<Longrightarrow>
   adds P (case x of Inl e \<Rightarrow> f e | Inr a \<Rightarrow> g a)"
  by (cases x) simp_all

lemma adds_case_prod [go_adds]:
  "(\<And>a b. x = (a, b) \<Longrightarrow> adds P (f a b)) \<Longrightarrow> adds P (case x of (a, b) \<Rightarrow> f a b)"
  by (cases x) simp

lemma adds_let [go_adds]: "adds P (f x) \<Longrightarrow> adds P (let y = x in f y)"
  by simp

lemma adds_mono: "adds P m \<Longrightarrow> (\<And>e. P e \<Longrightarrow> Q e) \<Longrightarrow> adds Q m"
  unfolding adds_def by blast

lemma adds_zoom:
  assumes "adds P m" and "\<And>s t. get s = Some t \<Longrightarrow> trace t = trace s" and "\<And>t s. trace (put t s) = trace t"
  shows "adds P (zoom get put m)"
proof (rule addsI)
  fix s r s'
  assume run: "zoom get put m s = (r, s')"
  show "\<exists>es. trace s' = trace s @ es \<and> (\<forall>e \<in> set es. P e)"
  proof (cases "get s")
    case None
    with run show ?thesis by (simp add: zoom_def run_nilDeref)
  next
    case (Some t)
    obtain r1 t1 where m: "m t = (r1, t1)" by fastforce
    with assms(1) obtain es where "trace t1 = trace t @ es" "\<forall>e \<in> set es. P e" by (rule addsE)
    with Some m run assms(2,3) show ?thesis by (auto simp: zoom_def)
  qed
qed

text \<open>Since the trace was \<open>t0\<close> there have been requests in \<open>P\<close> only.\<close>

definition told :: "(effect \<Rightarrow> bool) \<Rightarrow> effect list \<Rightarrow> ('w, 'z) st_scheme \<Rightarrow> bool" where
  "told P t0 s \<longleftrightarrow> (\<exists>es. trace s = t0 @ es \<and> (\<forall>e \<in> set es. P e))"

lemma told_start: "trace s = t0 \<Longrightarrow> told P t0 s"
  by (simp add: told_def)

lemma told_more: "told P t0 s \<Longrightarrow> trace s' = trace s @ es \<Longrightarrow> \<forall>e \<in> set es. P e \<Longrightarrow> told P t0 s'"
  by (auto simp: told_def)

lemma told_cong: "trace s' = trace s \<Longrightarrow> told P t0 s' = told P t0 s"
  by (simp add: told_def)

lemma keeps_told: "adds P m \<Longrightarrow> keeps (told P t0) m"
  by (rule keepsI) (auto elim: addsE intro: told_more)

end
