(* ===== verification/Go_Base64.thy ===== *)
theory Go_Base64
  imports Go_Prelude
begin

text \<open>
  \<open>base64.StdEncoding\<close> of Go's standard library, as the operator uses it:
  \<open>EncodeToString\<close> and \<open>DecodeString\<close>. Decoding skips carriage returns and newlines
  wherever they stand, demands full quanta with \<open>=\<close> padding at the end, and does not check
  the unused bits of the last quantum, so several texts decode to the same bytes and only
  one of them is what the encoder writes.
\<close>

section \<open>The alphabet\<close>

definition sextetChar :: "nat \<Rightarrow> char" where
  "sextetChar n = char_of
     (if n < 26 then 65 + n else if n < 52 then 71 + n else if n < 62 then n - 4
      else if n = 62 then 43 else 47)"

definition charSextet :: "char \<Rightarrow> nat option" where
  "charSextet c = (let n = (of_char c :: nat) in
     if 65 \<le> n \<and> n \<le> 90 then Some (n - 65)
     else if 97 \<le> n \<and> n \<le> 122 then Some (n - 71)
     else if 48 \<le> n \<and> n \<le> 57 then Some (n + 4)
     else if n = 43 then Some 62
     else if n = 47 then Some 63
     else None)"

definition padChar :: char where "padChar = CHR ''=''"

section \<open>Encoding and decoding\<close>

abbreviation byte :: "char \<Rightarrow> nat" where "byte c \<equiv> of_char c"

fun base64Encode :: "bytes \<Rightarrow> string" where
  "base64Encode [] = []"
| "base64Encode [a] =
     [sextetChar (byte a div 4), sextetChar (byte a mod 4 * 16), padChar, padChar]"
| "base64Encode [a, b] =
     [sextetChar (byte a div 4), sextetChar (byte a mod 4 * 16 + byte b div 16),
      sextetChar (byte b mod 16 * 4), padChar]"
| "base64Encode (a # b # c # rest) =
     [sextetChar (byte a div 4), sextetChar (byte a mod 4 * 16 + byte b div 16),
      sextetChar (byte b mod 16 * 4 + byte c div 64), sextetChar (byte c mod 64)] @ base64Encode rest"

definition newline :: "char \<Rightarrow> bool" where
  "newline c = (c = CHR 0x0A \<or> c = CHR 0x0D)"

text \<open>One quantum at a time, over the text without its newlines.\<close>

fun decodeQuanta :: "string \<Rightarrow> bytes option" where
  "decodeQuanta [] = Some []"
| "decodeQuanta (c0 # c1 # c2 # c3 # rest) =
     (case (charSextet c0, charSextet c1) of
        (Some x0, Some x1) \<Rightarrow>
          (case (charSextet c2, charSextet c3) of
             (Some x2, Some x3) \<Rightarrow>
               map_option (\<lambda>bs. char_of (x0 * 4 + x1 div 16) # char_of (x1 mod 16 * 16 + x2 div 4)
                 # char_of (x2 mod 4 * 64 + x3) # bs) (decodeQuanta rest)
           | (Some x2, None) \<Rightarrow>
               if c3 = padChar \<and> rest = []
               then Some [char_of (x0 * 4 + x1 div 16), char_of (x1 mod 16 * 16 + x2 div 4)] else None
           | (None, _) \<Rightarrow>
               if c2 = padChar \<and> c3 = padChar \<and> rest = []
               then Some [char_of (x0 * 4 + x1 div 16)] else None)
      | _ \<Rightarrow> None)"
| "decodeQuanta _ = None"

definition base64Decode :: "string \<Rightarrow> bytes option" where
  "base64Decode s = decodeQuanta (filter (\<lambda>c. \<not> newline c) s)"

section \<open>Round trip\<close>

lemma charSextet_sextetChar: "n < 64 \<Longrightarrow> charSextet (sextetChar n) = Some n"
  by (auto simp: sextetChar_def charSextet_def Let_def)

lemma charSextet_pad [simp]: "charSextet padChar = None"
  by (simp add: charSextet_def padChar_def Let_def)

lemma charSextet_bound: "charSextet c = Some n \<Longrightarrow> n < 64"
  by (auto simp: charSextet_def Let_def split: if_splits)

lemma byte_lt [simp]: "byte c < 256"
  by (metis of_char_mod_256 mod_less_divisor zero_less_numeral)

lemma sextetChar_plain:
  "n < 64 \<Longrightarrow> sextetChar n \<noteq> padChar \<and> \<not> newline (sextetChar n)"
proof -
  assume n: "n < 64"
  then have "charSextet (sextetChar n) \<noteq> None" by (simp add: charSextet_sextetChar)
  moreover have "charSextet (CHR 0x0A) = None" "charSextet (CHR 0x0D) = None"
    by (simp_all add: charSextet_def)
  ultimately show ?thesis by (auto simp: newline_def)
qed

text \<open>The sextets of up to three bytes are in range, and put together again they give the bytes.\<close>

lemma sextet_range:
  fixes a b c :: nat
  assumes "a < 256" "b < 256" "c < 256"
  shows "a div 4 < 64" "a mod 4 * 16 + b div 16 < 64" "b mod 16 * 4 + c div 64 < 64" "c mod 64 < 64"
    and "a mod 4 * 16 < 64" "b mod 16 * 4 < 64"
proof -
  have d: "a div 4 < 64" "b div 16 < 16" "c div 64 < 4"
    using assms by (simp_all add: less_mult_imp_div_less)
  have m: "a mod 4 < 4" "b mod 16 < 16" "c mod 64 < 64" by simp_all
  show "a div 4 < 64" "a mod 4 * 16 + b div 16 < 64" "b mod 16 * 4 + c div 64 < 64" "c mod 64 < 64"
    "a mod 4 * 16 < 64" "b mod 16 * 4 < 64"
    using d m by linarith+
qed

lemma sextet_join:
  fixes a :: nat
  assumes "a < 256"
  shows "a div 16 div 16 = 0" "a div 64 div 4 = 0"
    and "a div 16 mod 16 * 16 + a mod 16 = a" "a div 64 mod 4 * 64 + a mod 64 = a"
proof -
  have d: "a div 16 < 16" "a div 64 < 4"
    using assms by (simp_all add: less_mult_imp_div_less)
  then show "a div 16 div 16 = 0" "a div 64 div 4 = 0" by simp_all
  show "a div 16 mod 16 * 16 + a mod 16 = a" "a div 64 mod 4 * 64 + a mod 64 = a"
    using d by simp_all
qed

lemmas quantum = sextet_range [OF byte_lt byte_lt byte_lt] sextet_join [OF byte_lt]

lemma decodeQuanta_encode: "decodeQuanta (base64Encode bs) = Some bs"
  by (induction bs rule: base64Encode.induct)
    (simp_all add: charSextet_sextetChar quantum)

lemma encode_no_newline: "\<forall>c \<in> set (base64Encode bs). \<not> newline c"
  by (induction bs rule: base64Encode.induct)
    (simp_all add: sextetChar_plain quantum, simp_all add: newline_def padChar_def)

lemma base64_roundtrip: "base64Decode (base64Encode bs) = Some bs"
proof -
  have "filter (\<lambda>c. \<not> newline c) (base64Encode bs) = base64Encode bs"
    using encode_no_newline by (simp add: filter_id_conv)
  then show ?thesis by (simp add: base64Decode_def decodeQuanta_encode)
qed

lemma base64Encode_inj: "base64Encode a = base64Encode b \<longleftrightarrow> a = b"
  by (metis base64_roundtrip option.inject)

section \<open>Lengths and texts outside the alphabet\<close>

lemma length_base64Encode: "length (base64Encode bs) = 4 * ((length bs + 2) div 3)"
proof (induction bs rule: base64Encode.induct)
  case (4 a b c rest)
  have "(length (a # b # c # rest) + 2) div 3 = Suc ((length rest + 2) div 3)"
    by simp
  with 4 show ?case by simp
qed simp_all

lemma base64Encode_longer: "bs \<noteq> [] \<Longrightarrow> length bs < length (base64Encode bs)"
proof -
  assume "bs \<noteq> []"
  then have "0 < length bs" by simp
  then show ?thesis unfolding length_base64Encode by presburger
qed

lemma base64Encode_fixpoint: "base64Encode bs = bs \<longleftrightarrow> bs = []"
  using base64Encode_longer by fastforce

text \<open>Every character of a text that decodes is in the alphabet, padding or a newline.\<close>

lemma decodeQuanta_chars:
  "decodeQuanta s = Some bs \<Longrightarrow> c \<in> set s \<Longrightarrow> charSextet c \<noteq> None \<or> c = padChar"
  by (induction s arbitrary: bs rule: decodeQuanta.induct)
    (auto split: option.splits if_splits prod.splits)

lemma base64Decode_chars:
  assumes "base64Decode s = Some bs" and "c \<in> set s"
  shows "charSextet c \<noteq> None \<or> c = padChar \<or> newline c"
  using assms decodeQuanta_chars by (fastforce simp: base64Decode_def)

text \<open>In particular no PEM text, which starts with dashes, is base64.\<close>

lemma dash_not_base64: "CHR ''-'' \<in> set s \<Longrightarrow> base64Decode s = None"
  using base64Decode_chars [of s _ "CHR ''-''"]
  by (cases "base64Decode s") (auto simp: charSextet_def padChar_def newline_def)

end
