(* ===== verification/Utils.thy ===== *)
theory Utils
  imports Go_World Go_Base64
begin

text \<open>
  \<open>internal/shared/utils/utils.go\<close>: the string, condition and base64 helpers, the removal of
  finalizers, and \<open>CreateOrPatchK8sSecret\<close>, which writes an imported secret; with the part of
  the vendored \<open>strategicpatch\<close> package that computes its patch.
\<close>

section \<open>Slices of strings and conditions\<close>

fun ContainsString :: "string list \<Rightarrow> string \<Rightarrow> bool" where
  "ContainsString [] s = False"
| "ContainsString (item # rest) s = (if item = s then True else ContainsString rest s)"

fun RemoveString :: "string list \<Rightarrow> string \<Rightarrow> string list" where
  "RemoveString [] s = []"
| "RemoveString (item # rest) s =
     (if item = s then RemoveString rest s else item # RemoveString rest s)"

fun ConditionExists :: "Condition list \<Rightarrow> Condition \<Rightarrow> bool" where
  "ConditionExists [] newCondition = False"
| "ConditionExists (c # cs) newCondition =
     (if CondType c = CondType newCondition \<and> CondStatus c = CondStatus newCondition
         \<and> Reason c = Reason newCondition
      then True else ConditionExists cs newCondition)"

text \<open>\<open>FindCondition\<close> returns a pointer into the slice: the index of the element.\<close>

fun FindCondition :: "Condition list \<Rightarrow> string \<Rightarrow> nat option" where
  "FindCondition [] conditionType = None"
| "FindCondition (c # cs) conditionType =
     (if CondType c = conditionType then Some 0 else map_option Suc (FindCondition cs conditionType))"

lemma ContainsString_iff [simp]: "ContainsString xs s \<longleftrightarrow> s \<in> set xs"
  by (induction xs) auto

lemma RemoveString_filter: "RemoveString xs s = filter (\<lambda>x. x \<noteq> s) xs"
  by (induction xs) auto

lemma ConditionExists_iff:
  "ConditionExists cs n \<longleftrightarrow>
     (\<exists>c \<in> set cs. CondType c = CondType n \<and> CondStatus c = CondStatus n \<and> Reason c = Reason n)"
  by (induction cs) auto

lemma FindCondition_Some:
  "FindCondition cs t = Some i \<Longrightarrow> i < length cs \<and> CondType (cs ! i) = t \<and> (\<forall>j < i. CondType (cs ! j) \<noteq> t)"
proof (induction cs arbitrary: i)
  case (Cons c cs)
  then show ?case
    by (auto split: if_splits simp: nth_Cons less_Suc_eq_0_disj split: nat.splits)
qed simp

lemma FindCondition_None: "FindCondition cs t = None \<longleftrightarrow> (\<forall>c \<in> set cs. CondType c \<noteq> t)"
  by (induction cs) auto

section \<open>Base64\<close>

definition IsBase64Encoded :: "bytes \<Rightarrow> bool" where
  "IsBase64Encoded data =
     (case base64Decode data of
        None \<Rightarrow> False
      | Some decoded \<Rightarrow> (let reencoded = base64Encode decoded in data = reencoded))"

text \<open>\<open>ByteCompare\<close> never returns an error; its context argument is unused.\<close>

definition ByteCompare :: "bytes \<Rightarrow> string \<Rightarrow> bool \<times> go_error option" where
  "ByteCompare k8sSecret kvSecret =
     (case base64Decode kvSecret of
        None \<Rightarrow> (kvSecret = k8sSecret, None)
      | Some decodedKVSecret \<Rightarrow> (decodedKVSecret = k8sSecret, None))"

lemma IsBase64Encoded_iff: "IsBase64Encoded data \<longleftrightarrow> (\<exists>b. data = base64Encode b)"
  by (auto simp: IsBase64Encoded_def Let_def base64_roundtrip split: option.splits)

lemma ByteCompare_raw: "base64Decode v = None \<Longrightarrow> fst (ByteCompare v v)"
  by (simp add: ByteCompare_def)

lemma ByteCompare_encoded: "fst (ByteCompare v (base64Encode w)) \<longleftrightarrow> v = w"
  by (auto simp: ByteCompare_def base64_roundtrip)

section \<open>Removing finalizers\<close>

text \<open>The dynamic type of the argument \<open>resourceType interface{}\<close>.\<close>

datatype dyn_type =
    TExportCertificateSecret
  | TExportCertificateSecretList
  | TImportCertificateSecret
  | TImportCertificateSecretList

definition dropFinalizerE :: "ExportCertificateSecret \<Rightarrow> ExportCertificateSecret" where
  "dropFinalizerE item =
     item\<lparr>eMeta := (eMeta item)\<lparr>Finalizers := RemoveString (Finalizers (eMeta item)) FINALIZER\<rparr>\<rparr>"

definition dropFinalizerI :: "ImportCertificateSecret \<Rightarrow> ImportCertificateSecret" where
  "dropFinalizerI item =
     item\<lparr>iMeta := (iMeta item)\<lparr>Finalizers := RemoveString (Finalizers (iMeta item)) FINALIZER\<rparr>\<rparr>"

definition removeItemE :: "'w kube \<Rightarrow> ExportCertificateSecret \<Rightarrow> (('w, 'z) st_scheme, go_error option) go" where
  "removeItemE K item =
     (if ContainsString (Finalizers (eMeta item)) FINALIZER
      then andThen (kUpdateExport K (dropFinalizerE item))
             (\<lambda>r. case r of Inl err \<Rightarrow> ret (Some err) | Inr _ \<Rightarrow> ret None)
      else ret None)"

definition removeItemI :: "'w kube \<Rightarrow> ImportCertificateSecret \<Rightarrow> (('w, 'z) st_scheme, go_error option) go" where
  "removeItemI K item =
     (if ContainsString (Finalizers (iMeta item)) FINALIZER
      then andThen (kUpdateImport K (dropFinalizerI item))
             (\<lambda>r. case r of Inl err \<Rightarrow> ret (Some err) | Inr _ \<Rightarrow> ret None)
      else ret None)"

definition RemoveFinalizers :: "'w kube \<Rightarrow> dyn_type \<Rightarrow> (('w, 'z) st_scheme, go_error option) go" where
  "RemoveFinalizers K resourceType =
     (case resourceType of
        TExportCertificateSecret \<Rightarrow>
          andThen (kListExports K []) (\<lambda>r. case r of
            Inl err \<Rightarrow> ret (Some err)
          | Inr items \<Rightarrow> forEach items (removeItemE K))
      | TImportCertificateSecret \<Rightarrow>
          andThen (kListImports K []) (\<lambda>r. case r of
            Inl err \<Rightarrow> ret (Some err)
          | Inr items \<Rightarrow> forEach items (removeItemI K))
      | _ \<Rightarrow> ret (Some (PlainError ''unsupported resource type'')))"

section \<open>Setting up the clientset\<close>

definition SetKubeClient :: "'w kube \<Rightarrow> (('w, 'z) st_scheme, go_error option) go" where
  "SetKubeClient K =
     andThen (call (\<lambda>_. GetConfig) (get_config K)) (\<lambda>err. case err of
       Some e \<Rightarrow> ret (Some e)
     | None \<Rightarrow> andThen (call (\<lambda>_. NewForConfig) (new_for_config K)) (\<lambda>err. case err of
         Some e \<Rightarrow> ret (Some e)
       | None \<Rightarrow> ret None))"

section \<open>Writing a Kubernetes secret\<close>

text \<open>\<open>equal\<close> of utils.go; a missing key reads as the empty slice.\<close>

definition equalData :: "(string \<times> bytes) list \<Rightarrow> (string \<times> bytes) list \<Rightarrow> bool" where
  "equalData a b =
     (if length a \<noteq> length b then False
      else list_all (\<lambda>(k, v). v = (case map_of b k of None \<Rightarrow> [] | Some w \<Rightarrow> w)) a)"

text \<open>
  \<open>CreateTwoWayMergePatch\<close> on two JSON documents that differ in the map \<open>data\<close> only: an entry for
  every key that was added or changed, a null for every key that is gone.
\<close>

definition CreateTwoWayMergePatch :: "(string \<times> bytes) list \<Rightarrow> (string \<times> bytes) list \<Rightarrow> data_patch" where
  "CreateTwoWayMergePatch original modified =
     map (\<lambda>(k, v). (k, Some v)) (filter (\<lambda>(k, v). map_of original k \<noteq> Some v) modified)
     @ map (\<lambda>(k, v). (k, None)) (filter (\<lambda>(k, v). map_of modified k = None) original)"

definition tlsSecret :: "string \<Rightarrow> string \<Rightarrow> (string \<times> bytes) list \<Rightarrow> K8sSecret" where
  "tlsSecret name namespace data =
     \<lparr>secMeta = emptyMeta\<lparr>Name := name, Namespace := namespace\<rparr>, Data = Some data,
      secType = ''kubernetes.io/tls''\<rparr>"

text \<open>\<open>for key, value := range data { existingSecret.Data[key] = value }\<close>\<close>

definition mergeData :: "(string \<times> bytes) list option \<Rightarrow> (string \<times> bytes) list \<Rightarrow>
    (('w, 'z) st_scheme, (string \<times> bytes) list option) go" where
  "mergeData existing data =
     (if data = [] then ret existing
      else case existing of
          None \<Rightarrow> panic ''assignment to entry in nil map''
        | Some d \<Rightarrow> ret (Some (fold (\<lambda>(k, v) m. AList.update k v m) data d)))"

definition CreateOrPatchK8sSecret ::
  "'w kube \<Rightarrow> string \<Rightarrow> (string \<times> bytes) list \<Rightarrow> string \<Rightarrow> (('w, 'z) st_scheme, go_error option) go" where
  "CreateOrPatchK8sSecret K name data namespace =
     andThen (csGetSecret K namespace name) (\<lambda>r. case r of
       Inl err \<Rightarrow>
         (if IsNotFound err
          then andThen (csCreateSecret K namespace (tlsSecret name namespace data))
                 (\<lambda>err. case err of Some e \<Rightarrow> ret (Some e) | None \<Rightarrow> ret None)
          else ret (Some err))
     | Inr existingSecret \<Rightarrow>
         andThen (mergeData (Data existingSecret) data) (\<lambda>merged.
           if equalData (mapData merged) data then ret None
           else andThen (csPatchSecret K namespace name (CreateTwoWayMergePatch (mapData merged) data))
                  (\<lambda>err. case err of Some e \<Rightarrow> ret (Some e) | None \<Rightarrow> ret None)))"

section \<open>Lemmas on the patch\<close>

abbreviation mergedData :: "(string \<times> bytes) list \<Rightarrow> (string \<times> bytes) list \<Rightarrow> (string \<times> bytes) list" where
  "mergedData d data \<equiv> fold (\<lambda>(k, v) m. AList.update k v m) data d"

lemma map_of_mergedData:
  "distinct (map fst data) \<Longrightarrow> map_of (mergedData d data) = map_of d ++ map_of data"
  by (simp add: map_of_fold_update map_of_rev_distinct)

lemma map_add_subsumed1_dom: "dom m \<subseteq> dom n \<Longrightarrow> m ++ n = n"
  by (auto simp: fun_eq_iff map_add_def dom_def split: option.splits)

lemma restrict_map_all: "dom m \<subseteq> A \<Longrightarrow> m |` A = m"
  by (rule ext) (metis domIff in_mono restrict_in restrict_out)

lemma equal_merged_iff:
  assumes "distinct (map fst d)" and "distinct (map fst data)"
  shows "equalData (mergedData d data) data \<longleftrightarrow> fst ` set d \<subseteq> fst ` set data"
proof -
  let ?m = "mergedData d data"
  have dm: "distinct (map fst ?m)" using assms(1) by (rule distinct_fold_update)
  have mm: "map_of ?m = map_of d ++ map_of data" using assms(2) by (rule map_of_mergedData)
  have len: "length ?m = card (fst ` set d \<union> fst ` set data)"
    using length_eq_card_dom [OF dm] by (simp add: mm dom_map_of_fst Un_commute)
  have len': "length data = card (fst ` set data)"
    using length_eq_card_dom [OF assms(2)] by (simp add: dom_map_of_fst)
  show ?thesis
  proof
    assume "equalData ?m data"
    then have "card (fst ` set d \<union> fst ` set data) = card (fst ` set data)"
      using len len' by (simp add: equalData_def split: if_splits)
    then have "fst ` set data = fst ` set d \<union> fst ` set data"
      by (intro card_subset_eq) auto
    then show "fst ` set d \<subseteq> fst ` set data" by blast
  next
    assume sub: "fst ` set d \<subseteq> fst ` set data"
    then have "dom (map_of d) \<subseteq> dom (map_of data)" by (simp add: dom_map_of_fst)
    then have "map_of ?m = map_of data"
      unfolding mm by (rule map_add_subsumed1_dom)
    moreover have "v = (case map_of ?m k of None \<Rightarrow> [] | Some w \<Rightarrow> w)" if "(k, v) \<in> set ?m" for k v
      using map_of_is_SomeI [OF dm that] by simp
    ultimately show "equalData ?m data"
      using len len' sub by (auto simp: equalData_def list_all_iff Un_absorb1)
  qed
qed

lemma patch_of_merged:
  assumes "distinct (map fst data)"
  shows "CreateTwoWayMergePatch (mergedData d data) data
    = map (\<lambda>(k, v). (k, None)) (filter (\<lambda>(k, v). k \<notin> fst ` set data) (mergedData d data))"
proof -
  have "map_of (mergedData d data) k = Some v" if "(k, v) \<in> set data" for k v
    using map_of_is_SomeI [OF assms that] by (simp add: map_of_mergedData [OF assms])
  then have "filter (\<lambda>(k, v). map_of (mergedData d data) k \<noteq> Some v) data = []"
    by (auto simp: filter_empty_conv)
  moreover have "map_of data k = None \<longleftrightarrow> k \<notin> fst ` set data" for k
    by (rule map_of_eq_None_iff)
  ultimately show ?thesis by (simp add: CreateTwoWayMergePatch_def)
qed

lemma map_of_map_None:
  "map_of (map (\<lambda>(k, v). (k, None)) xs) k = (if k \<in> fst ` set xs then Some None else None)"
  by (induction xs) auto

lemma apply_patch_of_merged:
  assumes "distinct (map fst data)"
  shows "applyDataPatch (CreateTwoWayMergePatch (mergedData d data) data) (map_of d)
    = map_of d |` (fst ` set data)"
proof (rule ext)
  fix k
  have dom: "fst ` set (mergedData d data) = fst ` set d \<union> fst ` set data"
    using map_of_mergedData [OF assms, of d] by (metis dom_map_add dom_map_of_fst sup_commute)
  show "applyDataPatch (CreateTwoWayMergePatch (mergedData d data) data) (map_of d) k
      = (map_of d |` (fst ` set data)) k"
    by (simp add: applyDataPatch_def patch_of_merged [OF assms] map_of_map_None fst_set_filter_keys
        dom restrict_map_def map_of_None_notin del: set_filter)
qed

section \<open>Running the operations\<close>

lemma removeItemE_run:
  "removeItemE K item s =
     (if FINALIZER \<in> set (Finalizers (eMeta item))
      then (Done (case fst (update_export K (dropFinalizerE item) (world s)) of Inl e \<Rightarrow> Some e | Inr _ \<Rightarrow> None),
            s\<lparr>trace := trace s @ [UpdateExport (dropFinalizerE item)],
              world := snd (update_export K (dropFinalizerE item) (world s))\<rparr>)
      else (Done None, s))"
  by (simp add: removeItemE_def call_defs go_run split: sum.splits)

text \<open>A run of the loop that ends without an error has updated every item with the finalizer.\<close>

lemma removeItemsE_trace:
  assumes "forEach items (removeItemE K) s = (Done None, s')"
  shows "trace s' = trace s @ map (\<lambda>x. UpdateExport (dropFinalizerE x))
    (filter (\<lambda>x. FINALIZER \<in> set (Finalizers (eMeta x))) items)"
  using assms
proof (induction items arbitrary: s)
  case Nil
  then show ?case by (simp add: ret_def)
next
  case (Cons x xs)
  from Cons.prems obtain s1 where x: "removeItemE K x s = (Done None, s1)"
    and xs: "forEach xs (removeItemE K) s1 = (Done None, s')"
    by (auto simp: andThen_def ret_def split: prod.splits outcome.splits option.splits)
  from Cons.IH [OF xs] x show ?case
    by (auto simp: removeItemE_run split: if_splits)
qed

lemma dropFinalizerE_finalizers [simp]:
  "FINALIZER \<notin> set (Finalizers (eMeta (dropFinalizerE x)))"
  by (simp add: dropFinalizerE_def RemoveString_filter)

lemma CreateOrPatch_existing:
  assumes get: "cs_get_secret K ns name (world s) = (Inr x, w)"
    and d: "Data x = Some d" "distinct (map fst d)" and data: "distinct (map fst data)"
  shows "CreateOrPatchK8sSecret K name data ns s =
    (let s1 = s\<lparr>trace := trace s @ [ClientsetGetSecret ns name], world := w\<rparr>;
         p = CreateTwoWayMergePatch (mergedData d data) data
     in if fst ` set d \<subseteq> fst ` set data then (Done None, s1)
        else (Done (fst (cs_patch_secret K ns name p w)),
              s1\<lparr>trace := trace s1 @ [ClientsetPatchSecret ns name p], world := snd (cs_patch_secret K ns name p w)\<rparr>))"
proof -
  have m: "mergeData (Data x) data = ret (Some (mergedData d data))"
    by (auto simp: mergeData_def d(1))
  show ?thesis
    using assms(1)
    by (simp add: CreateOrPatchK8sSecret_def call_defs go_run m mapData_def
        equal_merged_iff [OF d(2) data] Let_def ret_def split: option.split)
qed

lemma CreateOrPatch_absent:
  assumes "cs_get_secret K ns name (world s) = (Inl e, w)" and "IsNotFound e"
  shows "CreateOrPatchK8sSecret K name data ns s =
    (Done (fst (cs_create_secret K ns (tlsSecret name ns data) w)),
     s\<lparr>trace := trace s @ [ClientsetGetSecret ns name, ClientsetCreateSecret ns (tlsSecret name ns data)],
       world := snd (cs_create_secret K ns (tlsSecret name ns data) w)\<rparr>)"
  using assms
  by (simp add: CreateOrPatchK8sSecret_def call_defs go_run ret_def split: option.split)

lemma CreateOrPatch_effect:
  assumes server: "serves_secrets K view" and data: "distinct (map fst data)"
    and run: "CreateOrPatchK8sSecret K name data ns s = (Done None, s')"
  shows "view (world s') = (view (world s))((ns, name) \<mapsto>
    (case view (world s) (ns, name) of
       None \<Rightarrow> map_of data
     | Some old \<Rightarrow> old |` (fst ` set data)))"
proof -
  obtain r w where get: "cs_get_secret K ns name (world s) = (r, w)" by fastforce
  with server have view_w: "view w = view (world s)" by (rule serves_getD)
  show ?thesis
  proof (cases r)
    case (Inl e)
    have nf: "IsNotFound e"
      using run get Inl
      by (auto simp: CreateOrPatchK8sSecret_def call_defs go_run split: if_splits)
    with Inl have none: "view (world s) (ns, name) = None"
      using serves_getD(2) [OF server get] by blast
    obtain r2 w2 where cr: "cs_create_secret K ns (tlsSecret name ns data) w = (r2, w2)" by fastforce
    with run get Inl nf have "r2 = None" "world s' = w2"
      by (auto simp: CreateOrPatch_absent)
    moreover have "view w2 = (if r2 = None then (view w)((ns, name) \<mapsto> map_of data) else view w)"
      using serves_createD [OF server cr] by (simp add: tlsSecret_def mapData_def)
    ultimately show ?thesis by (simp add: none view_w)
  next
    case (Inr x)
    let ?d = "mapData (Data x)"
    let ?p = "CreateTwoWayMergePatch (mergedData ?d data) data"
    from serves_getD(3) [OF server get Inr]
    have old: "view (world s) (ns, name) = Some (map_of ?d)" and d: "distinct (map fst ?d)"
      by blast+
    have keep: "map_of ?d |` (fst ` set data) = map_of ?d" if "fst ` set ?d \<subseteq> fst ` set data"
      using that by (simp add: restrict_map_all dom_map_of_fst)
    obtain r2 w2 where pt: "cs_patch_secret K ns name ?p w = (r2, w2)" by fastforce
    have ok: "if fst ` set ?d \<subseteq> fst ` set data then world s' = w else r2 = None \<and> world s' = w2"
    proof (cases "Data x = None \<and> data = []")
      case True
      with run get Inr show ?thesis
        by (auto simp: CreateOrPatchK8sSecret_def call_defs go_run mergeData_def equalData_def mapData_def)
    next
      case False
      with run get Inr obtain d' where "Data x = Some d'"
        by (auto simp: CreateOrPatchK8sSecret_def call_defs go_run mergeData_def split: if_splits option.splits)
      with run get Inr pt d show ?thesis
        by (auto simp: CreateOrPatch_existing [OF _ _ _ data] mapData_def Let_def split: if_splits)
    qed
    from serves_patchD [OF server pt] ok keep old show ?thesis
      by (auto simp: view_w apply_patch_of_merged [OF data] fun_upd_idem split: if_splits)
  qed
qed

section \<open>Properties\<close>

text \<open>
  C28. \<open>IsBase64Encoded\<close> accepts exactly the texts the standard encoder writes, and what it
  accepts decodes to the encoded bytes.
\<close>

theorem IsBase64Encoded_exact:
  "IsBase64Encoded data \<longleftrightarrow> (\<exists>b. base64Encode b = data \<and> base64Decode data = Some b)"
  by (auto simp: IsBase64Encoded_iff base64_roundtrip)

text \<open>
  \<open>RemoveFinalizers\<close> called for the resource type of one object strips the finalizer
  from every object of that type in the cluster: when it succeeds, its requests are one list
  request over all namespaces and one update for each listed object that has the finalizer.
\<close>

theorem RemoveFinalizers_strips_all:
  assumes "RemoveFinalizers K TExportCertificateSecret s = (Done None, s')"
  shows "\<exists>items. fst (list_exports K [] (world s)) = Inr items
    \<and> trace s' = trace s @ ListExports [] # map (\<lambda>x. UpdateExport (dropFinalizerE x))
        (filter (\<lambda>x. FINALIZER \<in> set (Finalizers (eMeta x))) items)"
proof (cases "fst (list_exports K [] (world s))")
  case (Inl e)
  with assms show ?thesis
    by (simp add: RemoveFinalizers_def call_defs go_run)
next
  case (Inr items)
  let ?s1 = "s\<lparr>trace := trace s @ [ListExports []], world := snd (list_exports K [] (world s))\<rparr>"
  from Inr assms have "forEach items (removeItemE K) ?s1 = (Done None, s')"
    by (simp add: RemoveFinalizers_def call_defs go_run)
  from removeItemsE_trace [OF this] Inr show ?thesis by simp
qed

text \<open>
  \<open>CreateOrPatchK8sSecret\<close> creates a missing secret with the given data, but it never
  updates one that exists: when it reports success, the secret holds the values it had
  before, less the keys that are not in the given data. No new value and no new key is
  written.
\<close>

theorem CreateOrPatch_keeps_old_values:
  assumes server: "serves_secrets K view" and data: "distinct (map fst data)"
    and run: "CreateOrPatchK8sSecret K name data ns s = (Done None, s')"
  shows "view (world s') = (view (world s))((ns, name) \<mapsto>
    (case view (world s) (ns, name) of
       None \<Rightarrow> map_of data
     | Some old \<Rightarrow> old |` (fst ` set data)))"
  by (rule CreateOrPatch_effect [OF assms])

theorem CreateOrPatch_keeps_old_values_witness:
  "snd (CreateOrPatchK8sSecret memSecretKube ''tls'' [(''tls.crt'', ''new'')] ''ns''
     \<lparr>trace = [], world = [(''ns'', ''tls'') \<mapsto> [(''tls.crt'', ''old'')]]\<rparr>)
     = \<lparr>trace = [ClientsetGetSecret ''ns'' ''tls''], world = [(''ns'', ''tls'') \<mapsto> [(''tls.crt'', ''old'')]]\<rparr>"
  (is "snd ?run = ?s'")
proof -
  have run: "?run = (Done None, ?s')"
    by (simp add: CreateOrPatch_existing [where d = "[(''tls.crt'', ''old'')]"] memSecretKube_def emptySecret_def Let_def)
  have "distinct (map fst [(''tls.crt'', ''new'')])" by simp
  from CreateOrPatch_keeps_old_values [OF memSecretKube_serves this run] run show ?thesis by simp
qed

theorem RemoveFinalizers_strips_all_witness:
  "trace (snd (RemoveFinalizers
       (offlineKube\<lparr>list_exports := \<lambda>_ w. (Inr [], w)\<rparr>) TExportCertificateSecret \<lparr>trace = [], world = ()\<rparr>))
     = [ListExports []]"
proof -
  have "RemoveFinalizers (offlineKube\<lparr>list_exports := \<lambda>_ w. (Inr [], w)\<rparr>) TExportCertificateSecret \<lparr>trace = [], world = ()\<rparr>
      = (Done None, \<lparr>trace = [ListExports []], world = ()\<rparr>)"
    by (simp add: RemoveFinalizers_def call_defs go_run)
  from RemoveFinalizers_strips_all [OF this] this show ?thesis by simp
qed

end
