(* ===== verification/Event_Handler.thy ===== *)
theory Event_Handler
  imports Utils
begin

text \<open>
  \<open>internal/shared/utils/event_handler.go\<close>: how the export controller reports the outcome of a
  reconciliation (an event, a status condition) and when it asks to be called again. The
  handler is generic in the object (\<open>CertificateObject\<close>), as in the code: \<open>object_ops\<close> holds the
  interface's methods and the client calls at the object's type.
\<close>

section \<open>Types\<close>

text \<open>\<open>ctrl.Result\<close>; the operator only sets \<open>RequeueAfter\<close>.\<close>

record Result =
  RequeueAfter :: duration

definition emptyResult :: Result where "emptyResult = \<lparr>RequeueAfter = 0\<rparr>"

text \<open>What controller-runtime queues again: an error, or a delay.\<close>

definition askedAgain :: "Result \<times> go_error option \<Rightarrow> bool" where
  "askedAgain out \<longleftrightarrow> snd out \<noteq> None \<or> 0 <s RequeueAfter (fst out)"

record Options =
  oMaxDuration :: duration
  oMaxRetries :: go_int
  oBaseDelay :: duration
  oMaxStatusCount :: nat

definition DefaultOptions :: Options where
  "DefaultOptions = \<lparr>oMaxDuration = MaxDuration, oMaxRetries = MaxRetries, oBaseDelay = BaseDelay,
     oMaxStatusCount = MaxStatusCount\<rparr>"

record ('o, 's) object_ops =
  opGetConditions :: "'o \<Rightarrow> Condition list"
  opSetConditions :: "Condition list \<Rightarrow> 'o \<Rightarrow> 'o"
  opKey :: "'o \<Rightarrow> NamespacedName"
  opGet :: "NamespacedName \<Rightarrow> ('s, go_error + 'o) go"
  opStatusUpdate :: "'o \<Rightarrow> ('s, go_error + 'o) go"

definition exportOps :: "'w kube \<Rightarrow> (ExportCertificateSecret, ('w, 'z) st_scheme) object_ops" where
  "exportOps K = \<lparr>opGetConditions = GetConditions, opSetConditions = SetConditions, opKey = exportKey,
     opGet = kGetExport K, opStatusUpdate = kStatusExport K\<rparr>"

section \<open>The handler\<close>

definition calculateBackoff :: "Options \<Rightarrow> go_int \<Rightarrow> duration" where
  "calculateBackoff opts currentRetryCount =
     (let duration = shl1 currentRetryCount * oBaseDelay opts
      in if oMaxDuration opts <s duration then oMaxDuration opts else duration)"

definition pushCondition :: "Options \<Rightarrow> Condition \<Rightarrow> Condition list \<Rightarrow> Condition list" where
  "pushCondition opts condition conditions =
     (let conditions = [condition] @ conditions
      in if oMaxStatusCount opts < length conditions
         then take (oMaxStatusCount opts) conditions else conditions)"

definition updateStatus ::
  "Options \<Rightarrow> ('o, 's) object_ops \<Rightarrow> 'o \<Rightarrow> Condition \<Rightarrow> ('s, go_error option) go" where
  "updateStatus opts ops obj condition =
     andThen (opStatusUpdate ops
         (opSetConditions ops (pushCondition opts condition (opGetConditions ops obj)) obj))
       (\<lambda>r. ret (case r of Inl e \<Rightarrow> Some e | Inr _ \<Rightarrow> None))"

definition readyCondition :: "string \<Rightarrow> string \<Rightarrow> string \<Rightarrow> timestamp \<Rightarrow> Condition" where
  "readyCondition status reason msg now =
     \<lparr>CondType = ''Ready'', CondStatus = status, Reason = reason, Message = msg, LastTransitionTime = now\<rparr>"

text \<open>Errors of the status update are logged and dropped by all three outcomes.\<close>

definition handleSuccess ::
  "('w kube) \<Rightarrow> Options \<Rightarrow> ('o, ('w, 'z) st_scheme) object_ops \<Rightarrow> 'o \<Rightarrow>
   (('w, 'z) st_scheme, Result \<times> go_error option) go" where
  "handleSuccess K opts ops obj =
     (let msg = ''Successfully synced secret(s)'' in
      seq (kRecordEvent K (opKey ops obj) ''Normal'' ''CertificateProcessingSucceeded'' msg)
       (andThen (timeNow K) (\<lambda>now.
          seq (updateStatus opts ops obj
                (readyCondition ConditionTrue ''CertificateProcessingSucceeded'' msg now))
            (ret (emptyResult, None)))))"

definition handleMaxRetriesExceeded ::
  "('w kube) \<Rightarrow> Options \<Rightarrow> ('o, ('w, 'z) st_scheme) object_ops \<Rightarrow> 'o \<Rightarrow> go_error \<Rightarrow>
   (('w, 'z) st_scheme, Result \<times> go_error option) go" where
  "handleMaxRetriesExceeded K opts ops obj err =
     (let msg = ''Maximum retry attempts ('' @ fmt_int (oMaxRetries opts) @ '') reached: '' @ errorText err in
      seq (kRecordEvent K (opKey ops obj) ''Warning'' ''MaxRetriesExceeded'' msg)
       (andThen (timeNow K) (\<lambda>now.
          seq (updateStatus opts ops obj (readyCondition ConditionFalse ''MaxRetriesExceeded'' msg now))
            (ret (emptyResult, Some err)))))"

definition scheduleNextRetry ::
  "('w kube) \<Rightarrow> Options \<Rightarrow> ('o, ('w, 'z) st_scheme) object_ops \<Rightarrow> 'o \<Rightarrow> go_int \<Rightarrow> go_error \<Rightarrow>
   (('w, 'z) st_scheme, Result \<times> go_error option) go" where
  "scheduleNextRetry K opts ops obj currentRetryCount err =
     (let backoff = calculateBackoff opts currentRetryCount;
          msg = ''Retry '' @ fmt_int currentRetryCount @ ''/'' @ fmt_int (oMaxRetries opts)
            @ '' scheduled in '' @ fmt_duration backoff @ '': '' @ errorText err in
      seq (kRecordEvent K (opKey ops obj) ''Normal'' ''CertificateProcessingFailed'' msg)
       (andThen (timeNow K) (\<lambda>now.
          seq (updateStatus opts ops obj (readyCondition ConditionFalse ''CertificateProcessingFailed'' msg now))
            (ret (\<lparr>RequeueAfter = backoff\<rparr>, None)))))"

definition ReturnEvent ::
  "('w kube) \<Rightarrow> Options \<Rightarrow> ('o, ('w, 'z) st_scheme) object_ops \<Rightarrow> 'o \<Rightarrow> go_int \<Rightarrow> go_error option \<Rightarrow> string \<Rightarrow>
   (('w, 'z) st_scheme, Result \<times> go_error option) go" where
  "ReturnEvent K opts ops obj currentRetryCount err msg =
     andThen (opGet ops (opKey ops obj)) (\<lambda>r. case r of
       Inl getErr \<Rightarrow> ret (emptyResult, Some getErr)
     | Inr freshObj \<Rightarrow>
         (case err of
            Some e \<Rightarrow>
              (if oMaxRetries opts \<le>s currentRetryCount
               then handleMaxRetriesExceeded K opts ops freshObj e
               else scheduleNextRetry K opts ops freshObj currentRetryCount e)
          | None \<Rightarrow> handleSuccess K opts ops freshObj))"

section \<open>Lemmas\<close>

lemma pushCondition_take:
  "pushCondition DefaultOptions c cs = take MaxStatusCount (c # cs)"
  by (simp add: pushCondition_def DefaultOptions_def Let_def)

lemma DefaultOptions_simps [simp]:
  "oMaxDuration DefaultOptions = MaxDuration" "oMaxRetries DefaultOptions = MaxRetries"
  "oBaseDelay DefaultOptions = BaseDelay" "oMaxStatusCount DefaultOptions = MaxStatusCount"
  by (simp_all add: DefaultOptions_def)

lemma exportOps_simps [simp]:
  "opGetConditions (exportOps K) = GetConditions" "opSetConditions (exportOps K) = SetConditions"
  "opKey (exportOps K) = exportKey" "opGet (exportOps K) = kGetExport K"
  "opStatusUpdate (exportOps K) = kStatusExport K"
  by (simp_all add: exportOps_def)

text \<open>The delay before the cap, as the 64-bit product leaves it; and where it does not overflow.\<close>

lemma sint_backoff_wraps: "sint (shl1 n * BaseDelay) = signed_take_bit 63 (2 ^ unat n * 120000000000)"
proof -
  have "shl1 n * BaseDelay = word_of_int (2 ^ unat n * 120000000000)"
    by (simp add: shl1_def push_bit_eq_mult duration_defs)
  then show ?thesis by (simp only: sint_sbintrunc') simp
qed

lemma sint_backoff_product:
  assumes "unat n \<le> 26"
  shows "sint (shl1 n * BaseDelay) = 2 ^ unat n * 120000000000"
proof -
  have "(2::int) ^ unat n \<le> 2 ^ 26"
    using assms by (intro power_increasing) auto
  moreover have "(2::int) ^ 26 = 67108864" "(2::int) ^ 63 = 9223372036854775808" by simp_all
  moreover have "(0::int) \<le> 2 ^ unat n" by simp
  ultimately have "- (2 ^ 63) \<le> (2::int) ^ unat n * 120000000000" "(2::int) ^ unat n * 120000000000 < 2 ^ 63"
    by linarith+
  then show ?thesis by (simp only: sint_backoff_wraps signed_take_bit_int_eq_self)
qed

text \<open>The base delay is divisible by \<open>2 ^ 12\<close>: from 52 doublings on, nothing of it is left.\<close>

lemma backoff_vanishes: "52 \<le> unat n \<Longrightarrow> shl1 n * BaseDelay = 0"
proof -
  assume n: "52 \<le> unat n"
  have base: "BaseDelay = push_bit 12 29296875" by (simp add: push_bit_eq_mult duration_defs)
  have "shl1 n * BaseDelay = push_bit (unat n + 12) 29296875"
    by (simp add: shl1_def base push_bit_eq_mult power_add)
  also have "\<dots> = 0" using n by (intro bit_eqI) (auto simp: bit_push_bit_iff)
  finally show ?thesis .
qed

text \<open>The three outcomes share one shape: an event, the time, the status update.\<close>

lemma report_run:
  "seq (kRecordEvent K key ty rs msg) (andThen (timeNow K) (\<lambda>now.
      seq (updateStatus opts (exportOps K) obj (readyCondition st rs msg now)) (ret R))) s
   = (let w1 = snd (record_event K key ty rs msg (world s));
          now = fst (time_now K w1); w2 = snd (time_now K w1);
          x = SetConditions (pushCondition opts (readyCondition st rs msg now) (GetConditions obj)) obj
      in (Done R, s\<lparr>trace := trace s @ [RecordEvent key ty rs msg, Now, StatusExport x],
                    world := snd (status_export K x w2)\<rparr>))"
  by (simp add: call_defs go_run updateStatus_def Let_def)

definition eventOutcome :: "go_int \<Rightarrow> go_error option \<Rightarrow> Result \<times> go_error option" where
  "eventOutcome n err = (case err of
     None \<Rightarrow> (emptyResult, None)
   | Some e \<Rightarrow> if MaxRetries \<le>s n then (emptyResult, Some e)
               else (\<lparr>RequeueAfter = calculateBackoff DefaultOptions n\<rparr>, None))"

definition eventReason :: "go_int \<Rightarrow> go_error option \<Rightarrow> string" where
  "eventReason n err = (case err of
     None \<Rightarrow> ''CertificateProcessingSucceeded''
   | Some e \<Rightarrow> if MaxRetries \<le>s n then ''MaxRetriesExceeded'' else ''CertificateProcessingFailed'')"

definition eventType :: "go_int \<Rightarrow> go_error option \<Rightarrow> string" where
  "eventType n err = (if err \<noteq> None \<and> MaxRetries \<le>s n then ''Warning'' else ''Normal'')"

definition eventMessage :: "go_int \<Rightarrow> go_error option \<Rightarrow> string" where
  "eventMessage n err = (case err of
     None \<Rightarrow> ''Successfully synced secret(s)''
   | Some e \<Rightarrow> if MaxRetries \<le>s n
       then ''Maximum retry attempts ('' @ fmt_int MaxRetries @ '') reached: '' @ errorText e
       else ''Retry '' @ fmt_int n @ ''/'' @ fmt_int MaxRetries @ '' scheduled in ''
         @ fmt_duration (calculateBackoff DefaultOptions n) @ '': '' @ errorText e)"

definition eventCondition :: "go_int \<Rightarrow> go_error option \<Rightarrow> timestamp \<Rightarrow> Condition" where
  "eventCondition n err now =
     readyCondition (if err = None then ConditionTrue else ConditionFalse) (eventReason n err) (eventMessage n err) now"

definition reported :: "ExportCertificateSecret \<Rightarrow> go_int \<Rightarrow> go_error option \<Rightarrow> timestamp \<Rightarrow> ExportCertificateSecret" where
  "reported fresh n err now =
     SetConditions (take MaxStatusCount (eventCondition n err now # GetConditions fresh)) fresh"

lemmas event_defs = eventOutcome_def eventReason_def eventType_def eventMessage_def eventCondition_def

lemma ReturnEvent_run:
  assumes "fst (get_export K (exportKey obj) (world s)) = Inr fresh"
  shows "ReturnEvent K DefaultOptions (exportOps K) obj n err msg s =
    (let w1 = snd (record_event K (exportKey fresh) (eventType n err) (eventReason n err) (eventMessage n err)
                (snd (get_export K (exportKey obj) (world s))));
         x = reported fresh n err (fst (time_now K w1))
     in (Done (eventOutcome n err),
         s\<lparr>trace := trace s @ [GetExport (exportKey obj),
              RecordEvent (exportKey fresh) (eventType n err) (eventReason n err) (eventMessage n err), Now, StatusExport x],
            world := snd (status_export K x (snd (time_now K w1)))\<rparr>))"
proof -
  let ?s1 = "s\<lparr>trace := trace s @ [GetExport (exportKey obj)],
      world := snd (get_export K (exportKey obj) (world s))\<rparr>"
  have first: "ReturnEvent K DefaultOptions (exportOps K) obj n err msg s =
     (case err of Some e \<Rightarrow>
          (if MaxRetries \<le>s n then handleMaxRetriesExceeded K DefaultOptions (exportOps K) fresh e
           else scheduleNextRetry K DefaultOptions (exportOps K) fresh n e)
      | None \<Rightarrow> handleSuccess K DefaultOptions (exportOps K) fresh) ?s1"
    by (simp add: ReturnEvent_def kGetExport_def run_andThen run_call assms split: option.split)
  then show ?thesis
    by (cases err) (simp_all add: handleSuccess_def handleMaxRetriesExceeded_def scheduleNextRetry_def
        report_run pushCondition_take reported_def event_defs Let_def)
qed

section \<open>Properties\<close>

text \<open>
  C29. The delay before a retry is \<open>BaseDelay\<close> shifted by the retry count in 64-bit arithmetic and
  capped at \<open>MaxDuration\<close>. For counts up to 26 the product does not overflow, and the delay is
  \<open>BaseDelay\<close> doubled once per retry, at most \<open>MaxDuration\<close>; at 27 it wraps to a negative delay,
  which is below the cap, and from 52 on (negative counts are read as unsigned and belong here)
  it is zero. The controllers only schedule retries for counts below \<open>MaxRetries\<close>.
\<close>

theorem calculateBackoff_exact:
  "sint (calculateBackoff DefaultOptions n) = min (signed_take_bit 63 (2 ^ unat n * 120000000000)) 1800000000000
     \<and> (unat n \<le> 26 \<longrightarrow> sint (calculateBackoff DefaultOptions n) = min (2 ^ unat n * 120000000000) 1800000000000)
     \<and> (n = 27 \<longrightarrow> calculateBackoff DefaultOptions n <s 0)
     \<and> (52 \<le> unat n \<longrightarrow> calculateBackoff DefaultOptions n = 0)"
proof (intro conjI impI)
  have cap: "sint MaxDuration = 1800000000000" by (simp add: duration_defs)
  then show "sint (calculateBackoff DefaultOptions n) = min (signed_take_bit 63 (2 ^ unat n * 120000000000)) 1800000000000"
    using sint_backoff_wraps [of n] by (simp add: calculateBackoff_def Let_def word_sless_alt)
  show "sint (calculateBackoff DefaultOptions n) = min (2 ^ unat n * 120000000000) 1800000000000" if "unat n \<le> 26"
    using cap sint_backoff_product [OF that] by (simp add: calculateBackoff_def Let_def word_sless_alt)
  show "calculateBackoff DefaultOptions n <s 0" if "n = 27"
    using that by (simp add: calculateBackoff_def Let_def shl1_def push_bit_eq_mult duration_defs word_sless_alt)
  show "calculateBackoff DefaultOptions n = 0" if "52 \<le> unat n"
    using cap backoff_vanishes [OF that] by (simp add: calculateBackoff_def Let_def word_sless_alt)
qed

theorem calculateBackoff_exact_witness:
  "sint (calculateBackoff DefaultOptions 3) = 960000000000 \<and> sint (calculateBackoff DefaultOptions 4) = 1800000000000
     \<and> calculateBackoff DefaultOptions 27 <s 0 \<and> calculateBackoff DefaultOptions (-1) = 0"
proof -
  have "52 \<le> unat (- 1 :: go_int)" by (simp add: unsigned_minus_1_eq_mask mask_eq_exp_minus_1)
  with calculateBackoff_exact [of 3] calculateBackoff_exact [of 4] calculateBackoff_exact [of 27] calculateBackoff_exact [of "- 1"]
  show ?thesis by simp
qed

text \<open>
  \<open>ReturnEvent\<close> uses nothing of the object it is given but its key: status changes
  the caller made in memory, such as a retry count set to zero, are not part of what it
  writes.
\<close>

theorem ReturnEvent_ignores_memory:
  assumes "exportKey obj = exportKey obj'"
  shows "ReturnEvent K opts (exportOps K) obj n err msg = ReturnEvent K opts (exportOps K) obj' n err msg"
  using assms by (simp add: ReturnEvent_def)

theorem ReturnEvent_ignores_memory_witness:
  "ReturnEvent offlineKube DefaultOptions (exportOps offlineKube) (SetRetryCount 0 exampleObject) 0 None []
     \<lparr>trace = [], world = ()\<rparr>
   = ReturnEvent offlineKube DefaultOptions (exportOps offlineKube) exampleObject 0 None [] \<lparr>trace = [], world = ()\<rparr>"
  by (subst ReturnEvent_ignores_memory [OF ecs.key_set_retry]) (rule refl)

text \<open>
  When the object can be read, \<open>ReturnEvent\<close> gives no error and no delay on success, the
  error itself once the retries are used up, and otherwise the backoff delay without an error;
  it writes one status, the stored one with one new Ready condition in front, which holds
  exactly on success, at most \<open>MaxStatusCount\<close> conditions and the stored retry count.
\<close>

theorem ReturnEvent_outcome:
  assumes "fst (get_export K (exportKey obj) (world s)) = Inr fresh"
  shows "\<exists>s' ty m x. ReturnEvent K DefaultOptions (exportOps K) obj n err msg s = (Done (eventOutcome n err), s')
    \<and> trace s' = trace s @ [GetExport (exportKey obj), RecordEvent (exportKey fresh) ty (eventReason n err) m, Now, StatusExport x]
    \<and> GetConditions x \<noteq> [] \<and> CondType (hd (GetConditions x)) = ''Ready''
    \<and> (CondStatus (hd (GetConditions x)) = ConditionTrue \<longleftrightarrow> err = None)
    \<and> length (GetConditions x) \<le> MaxStatusCount
    \<and> GetRetryCount x = GetRetryCount fresh \<and> exportKey x = exportKey fresh"
proof -
  define w1 where "w1 = snd (record_event K (exportKey fresh) (eventType n err) (eventReason n err) (eventMessage n err)
                (snd (get_export K (exportKey obj) (world s))))"
  define now where "now = fst (time_now K w1)"
  have pos: "0 < MaxStatusCount" by (simp add: MaxStatusCount_def)
  have c: "CondType (eventCondition n err now) = ''Ready''"
    "CondStatus (eventCondition n err now) = ConditionTrue \<longleftrightarrow> err = None"
    by (simp_all add: eventCondition_def readyCondition_def ConditionTrue_def ConditionFalse_def)
  from ReturnEvent_run [OF assms, of n err msg] obtain s' where
    "ReturnEvent K DefaultOptions (exportOps K) obj n err msg s = (Done (eventOutcome n err), s')"
    and "trace s' = trace s @ [GetExport (exportKey obj),
        RecordEvent (exportKey fresh) (eventType n err) (eventReason n err) (eventMessage n err), Now,
        StatusExport (reported fresh n err now)]"
    by (simp add: Let_def w1_def now_def)
  then show ?thesis
    using ecs.push_condition [OF pos, of "eventCondition n err now" fresh] c unfolding reported_def by metis
qed

theorem ReturnEvent_outcome_witness:
  "trace (snd (ReturnEvent (offlineKube\<lparr>get_export := \<lambda>_ w. (Inr exampleObject, w)\<rparr>) DefaultOptions
      (exportOps (offlineKube\<lparr>get_export := \<lambda>_ w. (Inr exampleObject, w)\<rparr>)) exampleObject 1 (Some refused) []
      \<lparr>trace = [], world = ()\<rparr>)) \<noteq> []"
proof -
  let ?K = "offlineKube\<lparr>get_export := \<lambda>_ w. (Inr exampleObject, w)\<rparr> :: unit kube"
  let ?s = "\<lparr>trace = [], world = ()\<rparr>"
  have h: "fst (get_export ?K (exportKey exampleObject) (world ?s)) = Inr exampleObject" by simp
  from ReturnEvent_outcome [OF h, of 1 "Some refused" "[]"] show ?thesis by auto
qed

end
