(* ===== verification/Export_Setup.thy ===== *)
theory Export_Setup
  imports Event_Handler
begin

text \<open>
  \<open>internal/controllers/export/setup.go\<close>: which events of the cluster start a reconciliation of
  an export resource. \<open>DeepEqual\<close> on specs and on maps is equality of what they hold; a \<open>nil\<close>
  map differs from an empty one, as in Go, but a \<open>nil\<close> slice of a spec is not told from an empty one:
  an update that only changes one into the other passes the filter of the code and not the one here.
\<close>

section \<open>Events\<close>

text \<open>The dynamic type of an object in an event.\<close>

datatype watched =
    WExport ExportCertificateSecret
  | WImport ImportCertificateSecret
  | WSecret K8sSecret
  | WOther

definition sameMap :: "(string \<times> 'v) list option \<Rightarrow> (string \<times> 'v) list option \<Rightarrow> bool" where
  "sameMap a b = (case (a, b) of
     (None, None) \<Rightarrow> True
   | (Some m, Some n) \<Rightarrow>
       list_all (\<lambda>(k, v). map_of n k = Some v) (AList.clearjunk m)
       \<and> list_all (\<lambda>(k, v). map_of m k = Some v) (AList.clearjunk n)
   | _ \<Rightarrow> False)"

section \<open>The predicate on export resources\<close>

definition exportCreateFunc :: "watched \<Rightarrow> bool" where "exportCreateFunc e = True"
definition exportDeleteFunc :: "watched \<Rightarrow> bool" where "exportDeleteFunc e = False"
definition exportGenericFunc :: "watched \<Rightarrow> bool" where "exportGenericFunc e = False"

definition exportUpdateFunc :: "watched \<Rightarrow> watched \<Rightarrow> bool" where
  "exportUpdateFunc objectOld objectNew =
     (case (objectOld, objectNew) of
        (WExport oldObj, WExport newObj) \<Rightarrow>
          if DeletionTimestamp (eMeta newObj) \<noteq> None then True
          else \<not> (eAzureKV oldObj = eAzureKV newObj)
      | _ \<Rightarrow> False)"

section \<open>Secrets\<close>

fun references :: "CertificateSecretRef list \<Rightarrow> string \<Rightarrow> bool" where
  "references [] name = False"
| "references (certRef # rest) name = (if SecretName certRef = name then True else references rest name)"

fun anyExportReferences :: "ExportCertificateSecret list \<Rightarrow> string \<Rightarrow> bool" where
  "anyExportReferences [] name = False"
| "anyExportReferences (export # rest) name =
     (if references (eCertificateSecretRef (eAzureKV export)) name then True else anyExportReferences rest name)"

definition shouldReconcileSecret :: "'w kube \<Rightarrow> watched \<Rightarrow> (('w, 'z) st_scheme, bool) go" where
  "shouldReconcileSecret K obj =
     (case obj of
        WSecret secret \<Rightarrow>
          andThen (kListExports K (Namespace (secMeta secret))) (\<lambda>r. case r of
            Inl err \<Rightarrow> ret False
          | Inr items \<Rightarrow> ret (anyExportReferences items (Name (secMeta secret))))
      | _ \<Rightarrow> ret False)"

definition secretCreateFunc :: "'w kube \<Rightarrow> watched \<Rightarrow> (('w, 'z) st_scheme, bool) go" where
  "secretCreateFunc K e = (case e of WSecret secret \<Rightarrow> shouldReconcileSecret K (WSecret secret) | _ \<Rightarrow> ret False)"

text \<open>The old object is cast to a secret without a check.\<close>

definition secretUpdateFunc :: "'w kube \<Rightarrow> watched \<Rightarrow> watched \<Rightarrow> (('w, 'z) st_scheme, bool) go" where
  "secretUpdateFunc K objectOld objectNew =
     (case objectNew of
        WSecret secret \<Rightarrow>
          if DeletionTimestamp (secMeta secret) \<noteq> None then ret False
          else (case objectOld of
            WSecret oldSecret \<Rightarrow>
              if \<not> sameMap (Data oldSecret) (Data secret) \<or> \<not> sameMap (Labels (secMeta oldSecret)) (Labels (secMeta secret))
              then shouldReconcileSecret K (WSecret secret)
              else ret False
          | _ \<Rightarrow> panic ''interface conversion: client.Object is not *v1.Secret'')
      | _ \<Rightarrow> ret False)"

definition secretDeleteFunc :: "watched \<Rightarrow> bool" where "secretDeleteFunc e = False"
definition secretGenericFunc :: "watched \<Rightarrow> bool" where "secretGenericFunc e = False"

text \<open>The resources to reconcile when a secret has changed: those of its namespace that reference it.\<close>

fun requestsFor :: "string \<Rightarrow> ExportCertificateSecret list \<Rightarrow> NamespacedName list" where
  "requestsFor name [] = []"
| "requestsFor name (ecs # rest) =
     (if references (eCertificateSecretRef (eAzureKV ecs)) name
      then [\<lparr>nn_Namespace = Namespace (eMeta ecs), nn_Name = Name (eMeta ecs)\<rparr>] else []) @ requestsFor name rest"

definition secretMapFunc :: "'w kube \<Rightarrow> watched \<Rightarrow> (('w, 'z) st_scheme, NamespacedName list) go" where
  "secretMapFunc K obj =
     (case obj of
        WSecret secret \<Rightarrow>
          andThen (kListExports K (Namespace (secMeta secret))) (\<lambda>r. case r of
            Inl err \<Rightarrow> ret []
          | Inr items \<Rightarrow> ret (requestsFor (Name (secMeta secret)) items))
      | _ \<Rightarrow> ret [])"

section \<open>Lemmas\<close>

lemma references_iff: "references refs name \<longleftrightarrow> name \<in> SecretName ` set refs"
  by (induction refs) auto

lemma anyExportReferences_iff:
  "anyExportReferences items name \<longleftrightarrow> (\<exists>x \<in> set items. references (eCertificateSecretRef (eAzureKV x)) name)"
  by (induction items) auto

lemma requestsFor_eq:
  "requestsFor name items = map exportKey (filter (\<lambda>x. references (eCertificateSecretRef (eAzureKV x)) name) items)"
  by (induction items) (auto simp: exportKey_def metaKey_def)

lemma clearjunk_is_SomeI: "(k, v) \<in> set (AList.clearjunk m) \<Longrightarrow> map_of m k = Some v"
  using map_of_is_SomeI [OF distinct_clearjunk, of k v m] by (simp add: map_of_clearjunk)

lemma sameMap_iff:
  "sameMap (Some m) (Some n) \<longleftrightarrow> map_of m = map_of n"
proof
  assume "sameMap (Some m) (Some n)"
  then have mn: "\<And>k v. (k, v) \<in> set (AList.clearjunk m) \<Longrightarrow> map_of n k = Some v"
    and nm: "\<And>k v. (k, v) \<in> set (AList.clearjunk n) \<Longrightarrow> map_of m k = Some v"
    by (auto simp: sameMap_def list_all_iff)
  have a: "map_of m k = Some v \<Longrightarrow> map_of n k = Some v" for k v
    using mn [of k v] map_of_SomeD [of "AList.clearjunk m" k v] by (simp add: map_of_clearjunk)
  have b: "map_of n k = Some v \<Longrightarrow> map_of m k = Some v" for k v
    using nm [of k v] map_of_SomeD [of "AList.clearjunk n" k v] by (simp add: map_of_clearjunk)
  show "map_of m = map_of n"
    by (rule ext) (metis a b not_Some_eq)
next
  assume eq: "map_of m = map_of n"
  then show "sameMap (Some m) (Some n)"
    by (auto simp: sameMap_def list_all_iff dest: clearjunk_is_SomeI)
qed

section \<open>Properties\<close>

text \<open>
  The two filters on secrets agree: the predicate lets a new secret through exactly when
  the mapping, reading the same list, yields a request, and the requests are the keys of the
  listed resources with a reference to the secret's name, in order.
\<close>

theorem secret_event_requests:
  shows "fst (secretMapFunc K (WSecret secret) s) =
      Done (case fst (list_exports K (Namespace (secMeta secret)) (world s)) of
        Inl _ \<Rightarrow> []
      | Inr items \<Rightarrow> map exportKey (filter (\<lambda>x. Name (secMeta secret) \<in> SecretName ` set (eCertificateSecretRef (eAzureKV x))) items))
    \<and> (fst (secretCreateFunc K (WSecret secret) s) = Done True \<longleftrightarrow> fst (secretMapFunc K (WSecret secret) s) \<noteq> Done [])"
  by (auto simp: secretMapFunc_def secretCreateFunc_def shouldReconcileSecret_def kListExports_def go_run
      requestsFor_eq references_iff anyExportReferences_iff filter_empty_conv split: sum.split)

lemma export_update_filter:
  "exportUpdateFunc (WExport old) (WExport new) \<longleftrightarrow>
     DeletionTimestamp (eMeta new) \<noteq> None \<or> eAzureKV old \<noteq> eAzureKV new"
  by (simp add: exportUpdateFunc_def)

text \<open>
  What the controller itself writes to an export resource that is not being deleted (the
  counted retry, the reported status, the finalizer added or removed) does not start another
  reconciliation of it.
\<close>

theorem own_writes_are_filtered:
  assumes "DeletionTimestamp (eMeta x) = None"
    and "y \<in> {SetRetryCount n x, reported x n err now, dropFinalizerE x,
      x\<lparr>eMeta := (eMeta x)\<lparr>Finalizers := Finalizers (eMeta x) @ [FINALIZER]\<rparr>\<rparr>}"
  shows "\<not> exportUpdateFunc (WExport x) (WExport y)"
  using assms
  by (auto simp: export_update_filter SetRetryCount_def reported_def SetConditions_def dropFinalizerE_def)

theorem own_writes_are_filtered_witness:
  "\<not> exportUpdateFunc (WExport exampleObject) (WExport (SetRetryCount 1 exampleObject))"
proof -
  have "DeletionTimestamp (eMeta exampleObject) = None" by (simp add: emptyMeta_def)
  from own_writes_are_filtered [OF this, of "SetRetryCount 1 exampleObject" 1] show ?thesis by simp
qed

end
