(* ===== verification/Operator_Main.thy ===== *)
theory Operator_Main
  imports Import_Webhook Export_Setup
begin

text \<open>
  \<open>cmd/main.go\<close> with the set-up functions it calls (\<open>SetupWithManager\<close> of the two controllers,
  \<open>SetupWebhookWithManager\<close> of the two resources): what is registered with the manager, in
  which order, and when the process exits instead. The manager of controller-runtime is a
  parameter; the functions registered with it are those of the other theories.
\<close>

section \<open>Flags and TLS\<close>

record flags =
  metricsAddr :: string
  enableLeaderElection :: bool
  probeAddr :: string
  secureMetrics :: bool
  enableHTTP2 :: bool
  allowedImportCrossNamespaces :: string

definition defaultFlags :: flags where
  "defaultFlags = \<lparr>metricsAddr = '':8080'', enableLeaderElection = False, probeAddr = '':8081'', secureMetrics = False,
     enableHTTP2 = False, allowedImportCrossNamespaces = []\<rparr>"

text \<open>Of a \<open>tls.Config\<close> only the protocols matter; \<open>[]\<close> lets the server offer HTTP/2.\<close>

record tls_config =
  NextProtos :: "string list"

definition getTLSOptions :: "bool \<Rightarrow> (tls_config \<Rightarrow> tls_config) list" where
  "getTLSOptions http2 = (if \<not> http2 then [\<lambda>c. c\<lparr>NextProtos := [''http/1.1'']\<rparr>] else [])"

text \<open>A server applies its options to a fresh configuration.\<close>

definition serverProtocols :: "(tls_config \<Rightarrow> tls_config) list \<Rightarrow> string list" where
  "serverProtocols opts = NextProtos (fold (\<lambda>f c. f c) opts \<lparr>NextProtos = []\<rparr>)"

record manager_options =
  BindAddress :: string
  SecureServing :: bool
  metricsProtocols :: "string list"
  webhookProtocols :: "string list"
  HealthProbeBindAddress :: string
  LeaderElection :: bool
  LeaderElectionID :: string

section \<open>The manager\<close>

datatype (plugins only: code size) setup_call =
    GetConfigOrDie
  | NewManager manager_options
  | AddToScheme
  | CompleteController string
  | CompleteWebhook string
  | AddCheck string
  | StartManager

record 'w manager =
  answer_call :: "setup_call \<Rightarrow> 'w \<Rightarrow> go_error option \<times> 'w"
  Getenv :: "string \<Rightarrow> 'w \<Rightarrow> string \<times> 'w"

text \<open>
  \<open>calls\<close> records every call with the error it was answered with; \<open>allowedNamespaces\<close> is the
  package variable of \<open>api/v1alpha1\<close> that the webhook reads.
\<close>

record 'w main_state =
  calls :: "(setup_call \<times> go_error option) list"
  mworld :: 'w
  allowedNamespaces :: "string list"

type_synonym ('w, 'a) mainm = "('w main_state, 'a) go"

definition mcall :: "'w manager \<Rightarrow> setup_call \<Rightarrow> ('w, go_error option) mainm" where
  "mcall M c s = (case answer_call M c (mworld s) of (r, w) \<Rightarrow> (Done r, s\<lparr>calls := calls s @ [(c, r)], mworld := w\<rparr>))"

definition getenv :: "'w manager \<Rightarrow> string \<Rightarrow> ('w, string) mainm" where
  "getenv M n s = (case Getenv M n (mworld s) of (v, w) \<Rightarrow> (Done v, s\<lparr>mworld := w\<rparr>))"

text \<open>\<open>if err := m; err != nil { return err }\<close>, and then the rest.\<close>

definition check :: "('s, go_error option) go \<Rightarrow> ('s, go_error option) go \<Rightarrow> ('s, go_error option) go" where
  "check m k = andThen m (\<lambda>err. case err of Some e \<Rightarrow> ret (Some e) | None \<Rightarrow> k)"

section \<open>Setting up\<close>

definition createManager :: "'w manager \<Rightarrow> string \<Rightarrow> bool \<Rightarrow> string \<Rightarrow> bool \<Rightarrow> (tls_config \<Rightarrow> tls_config) list \<Rightarrow>
    (tls_config \<Rightarrow> tls_config) list \<Rightarrow> ('w, go_error option) mainm" where
  "createManager M metrics secure probe leader tlsOpts webhookServer =
     check (mcall M GetConfigOrDie)
       (mcall M (NewManager \<lparr>BindAddress = metrics, SecureServing = secure, metricsProtocols = serverProtocols tlsOpts,
          webhookProtocols = serverProtocols webhookServer, HealthProbeBindAddress = probe, LeaderElection = leader,
          LeaderElectionID = ''140f7039.external-certificate.io''\<rparr>))"

definition ExportSetupWithManager :: "'w manager \<Rightarrow> ('w, go_error option) mainm" where
  "ExportSetupWithManager M = check (mcall M AddToScheme) (mcall M (CompleteController ''ExportCertificateSecret''))"

definition ImportSetupWithManager :: "'w manager \<Rightarrow> ('w, go_error option) mainm" where
  "ImportSetupWithManager M = check (mcall M AddToScheme) (mcall M (CompleteController ''ImportCertificateSecret''))"

definition SetAllowedNamespaces :: "string list \<Rightarrow> ('w, unit) mainm" where
  "SetAllowedNamespaces namespaces = modify (\<lambda>s. s\<lparr>allowedNamespaces := namespaces\<rparr>)"

definition setupControllers :: "'w manager \<Rightarrow> flags \<Rightarrow> ('w, go_error option) mainm" where
  "setupControllers M F =
     check (ExportSetupWithManager M)
       (seq (SetAllowedNamespaces (allowedNamespacesFromFlag (allowedImportCrossNamespaces F)))
         (check (ImportSetupWithManager M) (ret None)))"

definition ExportSetupWebhook :: "'w manager \<Rightarrow> ('w, go_error option) mainm" where
  "ExportSetupWebhook M = mcall M (CompleteWebhook ''ExportCertificateSecret'')"

definition ImportSetupWebhook :: "'w manager \<Rightarrow> ('w, go_error option) mainm" where
  "ImportSetupWebhook M = mcall M (CompleteWebhook ''ImportCertificateSecret'')"

definition setupWebhooks :: "'w manager \<Rightarrow> ('w, go_error option) mainm" where
  "setupWebhooks M =
     andThen (getenv M ''ENABLE_WEBHOOKS'') (\<lambda>v.
       if v \<noteq> ''false'' then check (ExportSetupWebhook M) (check (ImportSetupWebhook M) (ret None))
       else ret None)"

section \<open>main\<close>

text \<open>
  \<open>Some 1\<close> is \<open>os.Exit(1)\<close>: nothing runs after it. The second \<open>ctrl.SetLogger\<close>, which \<open>main\<close> calls
  once the flags are parsed, is \<open>setFlagLogger\<close> in \<open>Program_Init\<close>: it only touches the logger.
\<close>

definition orExit :: "('s, go_error option) go \<Rightarrow> ('s, nat option) go \<Rightarrow> ('s, nat option) go" where
  "orExit m k = andThen m (\<lambda>err. case err of Some e \<Rightarrow> ret (Some 1) | None \<Rightarrow> k)"

definition setupHealthChecks :: "'w manager \<Rightarrow> ('w, nat option) mainm" where
  "setupHealthChecks M = orExit (mcall M (AddCheck ''healthz'')) (orExit (mcall M (AddCheck ''readyz'')) (ret None))"

definition main :: "'w manager \<Rightarrow> flags \<Rightarrow> ('w, nat option) mainm" where
  "main M F =
     (let tlsOpts = getTLSOptions (enableHTTP2 F); webhookServer = tlsOpts in
      orExit (createManager M (metricsAddr F) (secureMetrics F) (probeAddr F) (enableLeaderElection F) tlsOpts webhookServer)
      (orExit (setupControllers M F)
      (orExit (setupWebhooks M)
      (andThen (setupHealthChecks M) (\<lambda>exited. case exited of
         Some code \<Rightarrow> ret (Some code)
       | None \<Rightarrow> orExit (mcall M StartManager) (ret None))))))"

section \<open>The sequence\<close>

text \<open>What is registered, in the order of the code.\<close>

definition managerOptions :: "flags \<Rightarrow> manager_options" where
  "managerOptions F = \<lparr>BindAddress = metricsAddr F, SecureServing = secureMetrics F,
     metricsProtocols = (if enableHTTP2 F then [] else [''http/1.1'']),
     webhookProtocols = (if enableHTTP2 F then [] else [''http/1.1'']),
     HealthProbeBindAddress = probeAddr F, LeaderElection = enableLeaderElection F,
     LeaderElectionID = ''140f7039.external-certificate.io''\<rparr>"

definition beforeWebhooks :: "flags \<Rightarrow> setup_call list" where
  "beforeWebhooks F = [GetConfigOrDie, NewManager (managerOptions F), AddToScheme, CompleteController ''ExportCertificateSecret'',
     AddToScheme, CompleteController ''ImportCertificateSecret'']"

definition webhookCalls :: "bool \<Rightarrow> setup_call list" where
  "webhookCalls enabled = (if enabled then [CompleteWebhook ''ExportCertificateSecret'', CompleteWebhook ''ImportCertificateSecret''] else [])"

definition lastCalls :: "setup_call list" where
  "lastCalls = [AddCheck ''healthz'', AddCheck ''readyz'', StartManager]"

section \<open>Sequences of calls\<close>

text \<open>
  The calls of \<open>cs\<close> with their answers: all of them, each without an error, or those up to the
  first error.
\<close>

definition answeredCalls :: "setup_call list \<Rightarrow> bool \<Rightarrow> (setup_call \<times> go_error option) list \<Rightarrow> bool" where
  "answeredCalls cs success es \<longleftrightarrow>
     (if success then es = map (\<lambda>c. (c, None)) cs
      else \<exists>n e. n < length cs \<and> es = map (\<lambda>c. (c, None)) (take n cs) @ [(cs ! n, Some e)])"

lemma answeredCalls_longer: "answeredCalls cs False es \<Longrightarrow> answeredCalls (cs @ ds) False es"
proof -
  assume "answeredCalls cs False es"
  then obtain n e where n: "n < length cs" "es = map (\<lambda>c. (c, None)) (take n cs) @ [(cs ! n, Some e)]"
    by (auto simp: answeredCalls_def)
  then show ?thesis unfolding answeredCalls_def by (auto simp: nth_append intro!: exI [of _ n])
qed

lemma answeredCalls_append:
  assumes "answeredCalls cs True es" and "answeredCalls ds b fs"
  shows "answeredCalls (cs @ ds) b (es @ fs)"
proof (cases b)
  case True
  with assms show ?thesis by (simp add: answeredCalls_def)
next
  case False
  with assms(2) obtain n e where n: "n < length ds" "fs = map (\<lambda>c. (c, None)) (take n ds) @ [(ds ! n, Some e)]"
    by (auto simp: answeredCalls_def)
  with assms(1) False show ?thesis
    unfolding answeredCalls_def by (auto simp: nth_append intro!: exI [of _ "length cs + n"])
qed

text \<open>
  \<open>runs M P m CS Q\<close>: from a state in \<open>P\<close> the step \<open>m\<close> makes the calls of one of the lists \<open>CS\<close> in
  their order, up to the first that is answered with an error; when it reports success it has
  made all of them without an error, and \<open>Q\<close> holds.
\<close>

definition partlyMade :: "setup_call list set \<Rightarrow> ('w main_state \<Rightarrow> bool) \<Rightarrow> 'w main_state \<Rightarrow> bool \<Rightarrow> 'w main_state \<Rightarrow> bool" where
  "partlyMade CS Q s success s' \<longleftrightarrow>
     (\<exists>cs \<in> CS. \<exists>es. calls s' = calls s @ es \<and> answeredCalls cs success es) \<and> (success \<longrightarrow> Q s')"

definition runs :: "'w manager \<Rightarrow> ('w main_state \<Rightarrow> bool) \<Rightarrow> ('w, 'a option) mainm \<Rightarrow> setup_call list set \<Rightarrow> ('w main_state \<Rightarrow> bool) \<Rightarrow> bool" where
  "runs M P m CS Q \<longleftrightarrow> (\<forall>s. P s \<longrightarrow> (\<exists>r s'. m s = (Done r, s') \<and> partlyMade CS Q s (r = None) s'))"

definition followedBy :: "setup_call list set \<Rightarrow> setup_call list set \<Rightarrow> setup_call list set" where
  "followedBy CS DS = {cs @ ds |cs ds. cs \<in> CS \<and> ds \<in> DS}"

lemma runsD: "runs M P m CS Q \<Longrightarrow> P s \<Longrightarrow> \<exists>r s'. m s = (Done r, s') \<and> partlyMade CS Q s (r = None) s'"
  unfolding runs_def by blast

lemma runs_call: "(\<And>s w tr. P s \<Longrightarrow> P (s\<lparr>calls := tr, mworld := w\<rparr>)) \<Longrightarrow> runs M P (mcall M c) {[c]} P"
  unfolding runs_def partlyMade_def mcall_def answeredCalls_def by (auto split: prod.split)

lemma runs_none: "runs M P (ret None) {[]} P"
  by (simp add: runs_def partlyMade_def answeredCalls_def run_ret)

lemma partlyMade_failed: "partlyMade CS Q s False s' \<Longrightarrow> DS \<noteq> {} \<Longrightarrow> partlyMade (followedBy CS DS) R s False s'"
proof -
  assume "partlyMade CS Q s False s'" and "DS \<noteq> {}"
  then obtain ds cs es where "ds \<in> DS" "cs \<in> CS" and es: "calls s' = calls s @ es" "answeredCalls cs False es"
    by (auto simp: partlyMade_def)
  then have "cs @ ds \<in> followedBy CS DS" by (auto simp: followedBy_def)
  with es answeredCalls_longer show ?thesis unfolding partlyMade_def by blast
qed

lemma partlyMade_trans:
  assumes "partlyMade CS Q s True s1" and "partlyMade DS R s1 b s2"
  shows "partlyMade (followedBy CS DS) R s b s2"
proof -
  from assms(1) obtain cs es where cs: "cs \<in> CS" "calls s1 = calls s @ es" "answeredCalls cs True es"
    by (auto simp: partlyMade_def)
  from assms(2) obtain ds fs where ds: "ds \<in> DS" "calls s2 = calls s1 @ fs" "answeredCalls ds b fs" "b \<longrightarrow> R s2"
    by (auto simp: partlyMade_def)
  have "cs @ ds \<in> followedBy CS DS" using cs ds by (auto simp: followedBy_def)
  moreover have "calls s2 = calls s @ es @ fs" using cs ds by simp
  ultimately show ?thesis
    unfolding partlyMade_def using answeredCalls_append [OF cs(3) ds(3)] ds(4) by blast
qed

lemma runs_then:
  assumes m: "runs M P m CS Q" and k: "runs M Q k DS R" and "DS \<noteq> {}"
    and step: "\<And>s. f s = (case m s of (Done None, s') \<Rightarrow> k s' | (Done (Some e), s') \<Rightarrow> (Done (Some (g e)), s') | (Panicked p, s') \<Rightarrow> (Panicked p, s'))"
  shows "runs M P f (followedBy CS DS) R"
  unfolding runs_def
proof (intro allI impI)
  fix s assume P: "P s"
  from runsD [OF m P] obtain r s1 where one: "m s = (Done r, s1)" "partlyMade CS Q s (r = None) s1" by blast
  show "\<exists>r s'. f s = (Done r, s') \<and> partlyMade (followedBy CS DS) R s (r = None) s'"
  proof (cases r)
    case None
    with one have "Q s1" by (auto simp: partlyMade_def)
    from runsD [OF k this] one None partlyMade_trans show ?thesis by (fastforce simp: step)
  next
    case (Some e)
    with one partlyMade_failed [OF _ assms(3)] show ?thesis by (auto simp: step)
  qed
qed

lemma runs_check: "runs M P m CS Q \<Longrightarrow> runs M Q k DS R \<Longrightarrow> DS \<noteq> {} \<Longrightarrow> runs M P (check m k) (followedBy CS DS) R"
  by (rule runs_then [where g = "\<lambda>e. e"])
    (auto simp: check_def run_andThen run_ret split: prod.split outcome.split option.split)

lemma runs_orExit: "runs M P m CS Q \<Longrightarrow> runs M Q k DS R \<Longrightarrow> DS \<noteq> {} \<Longrightarrow> runs M P (orExit m k) (followedBy CS DS) R"
  by (rule runs_then [where g = "\<lambda>e. 1"])
    (auto simp: orExit_def run_andThen run_ret split: prod.split outcome.split option.split)

lemma followedBy_simps [simp]:
  "followedBy {cs} {ds} = {cs @ ds}" "followedBy CS DS = {} \<longleftrightarrow> CS = {} \<or> DS = {}"
  by (auto simp: followedBy_def)

text \<open>The exit code.\<close>

definition exits :: "('s, nat option) go \<Rightarrow> bool" where
  "exits m \<longleftrightarrow> (\<forall>s code s'. m s = (Done code, s') \<longrightarrow> code = None \<or> code = Some 1)"

lemma exits_orExit: "exits k \<Longrightarrow> exits (orExit m k)"
  unfolding exits_def orExit_def by (auto simp: run_andThen run_ret split: prod.splits outcome.splits option.splits)

lemma exits_none: "exits (ret None)"
  by (simp add: exits_def run_ret)

section \<open>The parts\<close>

definition allows :: "string list \<Rightarrow> 'w main_state \<Rightarrow> bool" where
  "allows ns s \<longleftrightarrow> allowedNamespaces s = ns"

lemma runs_true: "runs M (\<lambda>_. True) (mcall M c) {[c]} (\<lambda>_. True)"
  by (rule runs_call) simp

lemma runs_allows: "runs M (allows ns) (mcall M c) {[c]} (allows ns)"
  by (rule runs_call) (simp add: allows_def)

lemma serverProtocols_eq: "serverProtocols (getTLSOptions h) = (if h then [] else [''http/1.1''])"
  by (simp add: serverProtocols_def getTLSOptions_def)

lemma runs_setupControllers:
  "runs M (\<lambda>_. True) (setupControllers M F)
     {[AddToScheme, CompleteController ''ExportCertificateSecret'', AddToScheme, CompleteController ''ImportCertificateSecret'']}
     (allows (allowedNamespacesFromFlag (allowedImportCrossNamespaces F)))"
proof -
  let ?ns = "allowedNamespacesFromFlag (allowedImportCrossNamespaces F)"
  have exp: "runs M (\<lambda>_. True) (ExportSetupWithManager M) {[AddToScheme, CompleteController ''ExportCertificateSecret'']} (\<lambda>_. True)"
    using runs_check [OF runs_true runs_true] by (simp add: ExportSetupWithManager_def)
  have imp: "runs M (allows ?ns) (check (ImportSetupWithManager M) (ret None))
      {[AddToScheme, CompleteController ''ImportCertificateSecret'']} (allows ?ns)"
    using runs_check [OF runs_check [OF runs_allows runs_allows] runs_none] by (simp add: ImportSetupWithManager_def)
  have "runs M (\<lambda>_. True) (seq (SetAllowedNamespaces ?ns) (check (ImportSetupWithManager M) (ret None)))
      {[AddToScheme, CompleteController ''ImportCertificateSecret'']} (allows ?ns)"
    unfolding runs_def
  proof (intro allI impI)
    fix s :: "'a main_state"
    have "seq (SetAllowedNamespaces ?ns) k s = k (s\<lparr>allowedNamespaces := ?ns\<rparr>)" for k :: "('a, go_error option) mainm"
      by (simp add: SetAllowedNamespaces_def run_andThen run_modify)
    with runsD [OF imp, of "s\<lparr>allowedNamespaces := ?ns\<rparr>"]
    show "\<exists>r s'. seq (SetAllowedNamespaces ?ns) (check (ImportSetupWithManager M) (ret None)) s = (Done r, s')
        \<and> partlyMade {[AddToScheme, CompleteController ''ImportCertificateSecret'']} (allows ?ns) s (r = None) s'"
      by (auto simp: allows_def partlyMade_def)
  qed
  from runs_check [OF exp this] show ?thesis by (simp add: setupControllers_def)
qed

text \<open>The values the environment variable \<open>ENABLE_WEBHOOKS\<close> can have.\<close>

definition webhookLists :: "'w manager \<Rightarrow> setup_call list set" where
  "webhookLists M = {webhookCalls (v \<noteq> ''false'') |v. \<exists>w. v = fst (Getenv M ''ENABLE_WEBHOOKS'' w)}"

lemma runs_setupWebhooks: "runs M (allows ns) (setupWebhooks M) (webhookLists M) (allows ns)"
  unfolding runs_def
proof (intro allI impI)
  fix s :: "'a main_state"
  assume s: "allows ns s"
  let ?v = "fst (Getenv M ''ENABLE_WEBHOOKS'' (mworld s))" and ?s1 = "s\<lparr>mworld := snd (Getenv M ''ENABLE_WEBHOOKS'' (mworld s))\<rparr>"
  let ?k = "if ?v \<noteq> ''false'' then check (ExportSetupWebhook M) (check (ImportSetupWebhook M) (ret None)) else ret None"
  have "runs M (allows ns) ?k {webhookCalls (?v \<noteq> ''false'')} (allows ns)"
    using runs_check [OF runs_allows [of M ns "CompleteWebhook ''ExportCertificateSecret''"]
        runs_check [OF runs_allows [of M ns "CompleteWebhook ''ImportCertificateSecret''"] runs_none]]
    by (simp add: webhookCalls_def ExportSetupWebhook_def ImportSetupWebhook_def runs_none)
  from runsD [OF this, of ?s1] s obtain r s' where "?k ?s1 = (Done r, s')"
    "partlyMade {webhookCalls (?v \<noteq> ''false'')} (allows ns) ?s1 (r = None) s'" by (auto simp: allows_def)
  moreover have "setupWebhooks M s = ?k ?s1"
    by (simp add: setupWebhooks_def getenv_def run_andThen [of "getenv M n" for n] case_prod_beta)
  ultimately show "\<exists>r s'. setupWebhooks M s = (Done r, s') \<and> partlyMade (webhookLists M) (allows ns) s (r = None) s'"
    by (fastforce simp: partlyMade_def webhookLists_def)
qed

lemma orExit_forward: "andThen (orExit a b) (\<lambda>e. case e of Some c \<Rightarrow> ret (Some c) | None \<Rightarrow> k)
  = orExit a (andThen b (\<lambda>e. case e of Some c \<Rightarrow> ret (Some c) | None \<Rightarrow> k))"
  by (auto simp: fun_eq_iff orExit_def run_andThen run_ret split: prod.splits outcome.splits option.splits)

lemma main_eq:
  "main M F =
     orExit (createManager M (metricsAddr F) (secureMetrics F) (probeAddr F) (enableLeaderElection F)
         (getTLSOptions (enableHTTP2 F)) (getTLSOptions (enableHTTP2 F)))
     (orExit (setupControllers M F)
     (orExit (setupWebhooks M)
     (orExit (mcall M (AddCheck ''healthz'')) (orExit (mcall M (AddCheck ''readyz''))
       (orExit (mcall M StartManager) (ret None))))))"
  by (simp add: main_def setupHealthChecks_def orExit_forward Let_def)

definition startSequences :: "'w manager \<Rightarrow> flags \<Rightarrow> setup_call list set" where
  "startSequences M F = {beforeWebhooks F @ webhookCalls (v \<noteq> ''false'') @ lastCalls |v. \<exists>w. v = fst (Getenv M ''ENABLE_WEBHOOKS'' w)}"

lemma runs_main:
  "runs M (\<lambda>_. True) (main M F) (startSequences M F) (allows (allowedNamespacesFromFlag (allowedImportCrossNamespaces F)))"
proof -
  let ?ns = "allowedNamespacesFromFlag (allowedImportCrossNamespaces F)"
  have create: "runs M (\<lambda>_. True) (createManager M (metricsAddr F) (secureMetrics F) (probeAddr F) (enableLeaderElection F)
      (getTLSOptions (enableHTTP2 F)) (getTLSOptions (enableHTTP2 F))) {[GetConfigOrDie, NewManager (managerOptions F)]} (\<lambda>_. True)"
    using runs_check [OF runs_true [of M GetConfigOrDie] runs_true [of M "NewManager (managerOptions F)"]]
    by (simp add: createManager_def managerOptions_def serverProtocols_eq)
  have last: "runs M (allows ?ns) (orExit (mcall M (AddCheck ''healthz'')) (orExit (mcall M (AddCheck ''readyz''))
       (orExit (mcall M StartManager) (ret None)))) {lastCalls} (allows ?ns)"
    using runs_orExit [OF runs_allows [of M ?ns "AddCheck ''healthz''"] runs_orExit [OF runs_allows [of M ?ns "AddCheck ''readyz''"]
        runs_orExit [OF runs_allows [of M ?ns StartManager] runs_none]]]
    by (simp add: lastCalls_def)
  have ne: "webhookLists M \<noteq> {}" by (auto simp: webhookLists_def)
  have "runs M (\<lambda>_. True) (main M F)
      (followedBy {[GetConfigOrDie, NewManager (managerOptions F)]}
        (followedBy {[AddToScheme, CompleteController ''ExportCertificateSecret'', AddToScheme, CompleteController ''ImportCertificateSecret'']}
          (followedBy (webhookLists M) {lastCalls}))) (allows ?ns)"
    unfolding main_eq
    by (rule runs_orExit [OF create runs_orExit [OF runs_setupControllers runs_orExit [OF runs_setupWebhooks last]]]) (simp_all add: ne)
  moreover have "followedBy {[GetConfigOrDie, NewManager (managerOptions F)]}
        (followedBy {[AddToScheme, CompleteController ''ExportCertificateSecret'', AddToScheme, CompleteController ''ImportCertificateSecret'']}
          (followedBy (webhookLists M) {lastCalls})) = startSequences M F"
    by (fastforce simp: followedBy_def webhookLists_def startSequences_def beforeWebhooks_def)
  ultimately show ?thesis by simp
qed

section \<open>Property\<close>

text \<open>
  C39. The start of the operator. \<open>main\<close> makes the calls of one fixed sequence in its order. It
  returns normally only when every one of them was made and answered without an error, and then
  the allowed namespaces are those of the flag; otherwise the process ends with exit code 1, and
  the last call made is the first and only one that was answered with an error. So the manager is
  started only after both controllers, both webhooks (unless \<open>ENABLE_WEBHOOKS\<close> is "false") and
  both health checks have been registered without an error, with HTTP/2 switched off in both
  servers unless the flag asks for it.
\<close>

theorem main_start_sequence:
  "\<exists>code s' cs es. main M F s = (Done code, s') \<and> cs \<in> startSequences M F \<and> calls s' = calls s @ es
     \<and> (if code = None
        then es = map (\<lambda>c. (c, None)) cs \<and> allowedNamespaces s' = allowedNamespacesFromFlag (allowedImportCrossNamespaces F)
        else code = Some 1 \<and> (\<exists>n e. n < length cs \<and> es = map (\<lambda>c. (c, None)) (take n cs) @ [(cs ! n, Some e)]))"
proof -
  let ?ns = "allowedNamespacesFromFlag (allowedImportCrossNamespaces F)"
  obtain code s' where run: "main M F s = (Done code, s')"
    and "partlyMade (startSequences M F) (allows ?ns) s (code = None) s'"
    using runsD [OF runs_main [of M F], of s] by blast
  then obtain cs es where "cs \<in> startSequences M F" and "calls s' = calls s @ es"
    and "answeredCalls cs (code = None) es" and "code = None \<longrightarrow> allowedNamespaces s' = ?ns"
    unfolding partlyMade_def allows_def by blast
  moreover have "code = None \<or> code = Some 1"
  proof -
    have "exits (main M F)" unfolding main_eq by (intro exits_orExit exits_none)
    with run show ?thesis unfolding exits_def by blast
  qed
  ultimately show ?thesis
    using run unfolding answeredCalls_def by (intro exI [of _ code] exI [of _ s'] exI [of _ cs] exI [of _ es]) (auto split: if_splits)
qed

text \<open>
  A manager that refuses the readiness check: the start stops there, and the manager is not started.
\<close>

definition unreadyManager :: "unit manager" where
  "unreadyManager = \<lparr>answer_call = \<lambda>c w. (if c = AddCheck ''readyz'' then Some (PlainError ''not ready'') else None, w),
     Getenv = \<lambda>_ w. (''false'', w)\<rparr>"

lemma unready_start:
  "case main unreadyManager defaultFlags \<lparr>calls = [], mworld = (), allowedNamespaces = []\<rparr> of (code, s') \<Rightarrow>
     code = Done (Some 1) \<and> last (calls s') = (AddCheck ''readyz'', Some (PlainError ''not ready''))
       \<and> StartManager \<notin> fst ` set (calls s')"
  by code_simp

end
