(* ===== verification/Program_Init.thy ===== *)
theory Program_Init
  imports Api_Types
begin

text \<open>
  What happens before \<open>main\<close> runs, and at its beginning: the logger of
  \<open>internal/shared/log/logger.go\<close>, the registration of the API types with the scheme
  (\<open>api/v1alpha1/groupversion_info.go\<close> and the \<open>init\<close> functions), and the second logger that
  \<open>main\<close> sets. The logging libraries are parameters; of controller-runtime's log the switch from
  the promised to the actual logger is modelled.
\<close>

section \<open>Logging\<close>

text \<open>zap's encoders are named.\<close>

record encoder_config =
  TimeKey :: string
  LevelKey :: string
  NameKey :: string
  CallerKey :: string
  MessageKey :: string
  StacktraceKey :: string
  LineEnding :: string
  EncodeLevel :: string
  EncodeTime :: string
  EncodeDuration :: string
  EncodeCaller :: string

record zap_config =
  EncoderConfig :: encoder_config
  Encoding :: string
  OutputPaths :: "string list"
  ErrorOutputPaths :: "string list"

text \<open>
  \<open>'l\<close> are \<open>logr\<close>'s loggers; \<open>zap_New\<close> is what \<open>zap.New(zap.UseFlagOptions(&opts))\<close> gives for the
  flags of the command line.
\<close>

record ('c, 'z, 'l, 'f) log_lib =
  NewProductionConfig :: "'c zap_config_scheme"
  zap_Build :: "'c zap_config_scheme \<Rightarrow> go_error + 'z"
  zapr_NewLogger :: "'z \<Rightarrow> 'l"
  logger_WithName :: "'l \<Rightarrow> string \<Rightarrow> 'l"
  logger_WithValues :: "'l \<Rightarrow> string list \<Rightarrow> 'l"
  zap_New :: "'f \<Rightarrow> 'l"

text \<open>controller-runtime's root logger: a promise until it is fulfilled, and then that logger.\<close>

datatype 'l root_log = Promised | Fulfilled 'l

definition Fulfill :: "'l \<Rightarrow> 'l root_log \<Rightarrow> 'l root_log" where
  "Fulfill l r = (case r of Promised \<Rightarrow> Fulfilled l | Fulfilled k \<Rightarrow> Fulfilled k)"

section \<open>The scheme\<close>

record group_version =
  Group :: string
  Version :: string

definition GroupVersion :: group_version where
  "GroupVersion = \<lparr>Group = ''external-certificate.io'', Version = ''v1alpha1''\<rparr>"

text \<open>A type is a package and a name; the name is the kind.\<close>

type_synonym go_type = "string \<times> string"
type_synonym scheme = "group_version \<times> string \<Rightarrow> go_type option"

text \<open>The functions registered with a builder, each by the objects it adds.\<close>

record scheme_builder =
  builderVersion :: group_version
  registered :: "go_type list list"

definition Register :: "go_type list \<Rightarrow> scheme_builder \<Rightarrow> scheme_builder" where
  "Register objects b = b\<lparr>registered := registered b @ [objects]\<rparr>"

text \<open>The registration of the Kubernetes types and of the meta types of a group.\<close>

record scheme_lib =
  clientgo_AddToScheme :: "scheme \<Rightarrow> go_error option \<times> scheme"
  AddToGroupVersion :: "group_version \<Rightarrow> scheme \<Rightarrow> scheme"

section \<open>The package variables\<close>

record 'l program =
  rootLog :: "'l root_log"
  Logger :: "'l option"
  setupLog :: "'l option"
  SchemeBuilder :: scheme_builder
  mainScheme :: scheme

type_synonym ('l, 'a) initm = "('l program, 'a) go"

definition theLogger :: "('l, 'l) initm" where
  "theLogger = andThen (gets Logger) deref"

definition SetLogger :: "'l \<Rightarrow> ('l, unit) initm" where
  "SetLogger l = modify (\<lambda>s. s\<lparr>rootLog := Fulfill l (rootLog s)\<rparr>)"

definition loggerConfig :: "'c zap_config_scheme \<Rightarrow> 'c zap_config_scheme" where
  "loggerConfig config = config
     \<lparr>EncoderConfig := \<lparr>TimeKey = ''ts'', LevelKey = ''level'', NameKey = ''logger'', CallerKey = ''caller'', MessageKey = ''msg'',
        StacktraceKey = ''stacktrace'', LineEnding = [CHR 0x0A], EncodeLevel = ''CapitalLevelEncoder'',
        EncodeTime = ''ISO8601TimeEncoder'', EncodeDuration = ''StringDurationEncoder'', EncodeCaller = ''ShortCallerEncoder''\<rparr>,
      Encoding := ''json'', OutputPaths := [''stdout''], ErrorOutputPaths := [''stderr'']\<rparr>"

definition newLogger :: "('c, 'z, 'l, 'f) log_lib \<Rightarrow> ('l, 'l) initm" where
  "newLogger L =
     (let config = loggerConfig (NewProductionConfig L) in
      case zap_Build L config of
        Inl err \<Rightarrow> panic (errorText err)
      | Inr zapLogger \<Rightarrow> seq (SetLogger (zapr_NewLogger L zapLogger)) (ret (zapr_NewLogger L zapLogger)))"

text \<open>Of a context the logger it carries.\<close>

record 'l ctx =
  ctxLogger :: "'l option"

definition FromContext :: "'l ctx \<Rightarrow> ('l, 'l) initm" where
  "FromContext c = (case ctxLogger c of Some l \<Rightarrow> ret l | None \<Rightarrow> theLogger)"

definition WithName :: "('c, 'z, 'l, 'f) log_lib \<Rightarrow> string \<Rightarrow> ('l, 'l) initm" where
  "WithName L name = andThen theLogger (\<lambda>l. ret (logger_WithName L l name))"

definition WithContext :: "'l ctx \<Rightarrow> ('l, 'l) initm" where
  "WithContext c = FromContext c"

definition WithValues :: "('c, 'z, 'l, 'f) log_lib \<Rightarrow> string list \<Rightarrow> ('l, 'l) initm" where
  "WithValues L keysAndValues = andThen theLogger (\<lambda>l. ret (logger_WithValues L l keysAndValues))"

definition IntoContext :: "'l ctx \<Rightarrow> 'l \<Rightarrow> 'l ctx" where
  "IntoContext c l = c\<lparr>ctxLogger := Some l\<rparr>"

section \<open>Registration\<close>

definition register :: "go_type list \<Rightarrow> ('l, unit) initm" where
  "register objects = modify (\<lambda>s. s\<lparr>SchemeBuilder := Register objects (SchemeBuilder s)\<rparr>)"

text \<open>The \<open>init\<close> functions of the two files, in the order of their names.\<close>

definition initExportTypes :: "('l, unit) initm" where
  "initExportTypes = register [(''v1alpha1'', ''ExportCertificateSecret''), (''v1alpha1'', ''ExportCertificateSecretList'')]"

definition initImportTypes :: "('l, unit) initm" where
  "initImportTypes = register [(''v1alpha1'', ''ImportCertificateSecret''), (''v1alpha1'', ''ImportCertificateSecretList'')]"

text \<open>Another type under a kind that is taken is a panic.\<close>

definition addKnownType :: "group_version \<Rightarrow> go_type \<Rightarrow> ('l, unit option) initm" where
  "addKnownType gv t = andThen (gets mainScheme) (\<lambda>sch.
     if sch (gv, snd t) \<noteq> None \<and> sch (gv, snd t) \<noteq> Some t then panic ''Double registration of different types''
     else seq (modify (\<lambda>s. s\<lparr>mainScheme := sch((gv, snd t) \<mapsto> t)\<rparr>)) (ret None))"

definition addObjects :: "scheme_lib \<Rightarrow> group_version \<Rightarrow> go_type list \<Rightarrow> ('l, unit option) initm" where
  "addObjects S gv objects = seq (forEach objects (addKnownType gv))
     (seq (modify (\<lambda>s. s\<lparr>mainScheme := AddToGroupVersion S gv (mainScheme s)\<rparr>)) (ret None))"

text \<open>\<open>AddToScheme\<close> is a method value: it holds the pointer, so it sees what was registered later.\<close>

definition AddToScheme :: "scheme_lib \<Rightarrow> ('l, go_error option) initm" where
  "AddToScheme S = andThen (gets SchemeBuilder) (\<lambda>b.
     seq (forEach (registered b) (addObjects S (builderVersion b))) (ret None))"

definition Must :: "go_error option \<Rightarrow> ('l, unit) initm" where
  "Must err = (case err of Some e \<Rightarrow> panic (errorText e) | None \<Rightarrow> ret ())"

definition initMain :: "scheme_lib \<Rightarrow> ('l, unit) initm" where
  "initMain S =
     andThen (gets (\<lambda>s. clientgo_AddToScheme S (mainScheme s))) (\<lambda>(err, sch).
     seq (modify (\<lambda>s. s\<lparr>mainScheme := sch\<rparr>))
     (seq (Must err)
     (andThen (AddToScheme S) Must)))"

section \<open>The start of the program\<close>

definition unstarted :: "'l program" where
  "unstarted = \<lparr>rootLog = Promised, Logger = None, setupLog = None,
     SchemeBuilder = \<lparr>builderVersion = GroupVersion, registered = []\<rparr>, mainScheme = Map.empty\<rparr>"

text \<open>The packages in the order of their imports, the variables of each before its \<open>init\<close>.\<close>

definition initProgram :: "('c, 'z, 'l, 'f) log_lib \<Rightarrow> scheme_lib \<Rightarrow> ('l, unit) initm" where
  "initProgram L S =
     andThen (newLogger L) (\<lambda>l.
     seq (modify (\<lambda>s. s\<lparr>Logger := Some l\<rparr>))
     (seq initExportTypes
     (seq initImportTypes
     (andThen (WithName L ''setup'') (\<lambda>l.
     seq (modify (\<lambda>s. s\<lparr>setupLog := Some l\<rparr>))
     (initMain S))))))"

text \<open>\<open>ctrl.SetLogger(zap.New(zap.UseFlagOptions(&opts)))\<close>, with which \<open>main\<close> begins.\<close>

definition setFlagLogger :: "('c, 'z, 'l, 'f) log_lib \<Rightarrow> 'f \<Rightarrow> ('l, unit) initm" where
  "setFlagLogger L opts = SetLogger (zap_New L opts)"

section \<open>Lemmas\<close>

definition ourKinds :: "string set" where
  "ourKinds = {''ExportCertificateSecret'', ''ExportCertificateSecretList'', ''ImportCertificateSecret'', ''ImportCertificateSecretList''}"

text \<open>Neither the Kubernetes types nor the meta types are of these kinds in this group.\<close>

definition scheme_laws :: "scheme_lib \<Rightarrow> bool" where
  "scheme_laws S \<longleftrightarrow> (\<forall>sch. \<forall>kind \<in> ourKinds. snd (clientgo_AddToScheme S sch) (GroupVersion, kind) = sch (GroupVersion, kind)
     \<and> AddToGroupVersion S GroupVersion sch (GroupVersion, kind) = sch (GroupVersion, kind))"

lemma run_addKnownType:
  "mainScheme s (gv, snd t) \<in> {None, Some t} \<Longrightarrow>
   addKnownType gv t s = (Done None, s\<lparr>mainScheme := (mainScheme s)((gv, snd t) \<mapsto> t)\<rparr>)"
  by (auto simp: addKnownType_def go_run)

lemma FromContext_IntoContext: "FromContext (IntoContext c l) s = (Done l, s)"
  by (simp add: FromContext_def IntoContext_def go_run)

lemma newLogger_run:
  "newLogger L s = (case zap_Build L (loggerConfig (NewProductionConfig L)) of
     Inl e \<Rightarrow> (Panicked (errorText e), s)
   | Inr z \<Rightarrow> (Done (zapr_NewLogger L z), s\<lparr>rootLog := Fulfill (zapr_NewLogger L z) (rootLog s)\<rparr>))"
  by (auto simp: newLogger_def SetLogger_def go_run Let_def split: sum.split)

lemma AddToScheme_run:
  assumes laws: "scheme_laws S" and b: "SchemeBuilder s = \<lparr>builderVersion = GroupVersion, registered =
      [[(''v1alpha1'', ''ExportCertificateSecret''), (''v1alpha1'', ''ExportCertificateSecretList'')],
       [(''v1alpha1'', ''ImportCertificateSecret''), (''v1alpha1'', ''ImportCertificateSecretList'')]]\<rparr>"
    and none: "\<forall>kind \<in> ourKinds. mainScheme s (GroupVersion, kind) = None"
  shows "\<exists>sch. AddToScheme S s = (Done None, s\<lparr>mainScheme := sch\<rparr>)
    \<and> (\<forall>kind \<in> ourKinds. sch (GroupVersion, kind) = Some (''v1alpha1'', kind))"
proof -
  have meta: "AddToGroupVersion S GroupVersion sch (GroupVersion, kind) = sch (GroupVersion, kind)" if "kind \<in> ourKinds" for sch kind
    using laws that by (simp add: scheme_laws_def)
  have kinds: "''ExportCertificateSecret'' \<in> ourKinds" "''ExportCertificateSecretList'' \<in> ourKinds"
    "''ImportCertificateSecret'' \<in> ourKinds" "''ImportCertificateSecretList'' \<in> ourKinds" by (simp_all add: ourKinds_def)
  show ?thesis
    by (auto simp: AddToScheme_def addObjects_def go_run b run_addKnownType none meta kinds)
      (rule exI, rule conjI, rule refl, auto simp: ourKinds_def meta)
qed

section \<open>Property\<close>

text \<open>
  C38. When \<open>main\<close> starts the four types of the API are in its scheme under \<open>external-certificate.io/v1alpha1\<close>,
  and controller-runtime logs through the JSON logger of package
  \<open>log\<close>. The logger that \<open>main\<close> then makes from the flags of the command line is not used: the root
  logger takes the first one it is given. If the JSON logger cannot be built the program panics
  before \<open>main\<close>.
\<close>

theorem program_init:
  assumes "scheme_laws S"
  shows "(\<forall>z sch. zap_Build L (loggerConfig (NewProductionConfig L)) = Inr z \<and> clientgo_AddToScheme S Map.empty = (None, sch) \<longrightarrow>
      (\<exists>s. initProgram L S unstarted = (Done (), s)
         \<and> (\<forall>kind \<in> ourKinds. mainScheme s (GroupVersion, kind) = Some (''v1alpha1'', kind))
         \<and> Logger s = Some (zapr_NewLogger L z) \<and> rootLog s = Fulfilled (zapr_NewLogger L z)
         \<and> (\<forall>opts. setFlagLogger L opts s = (Done (), s))))
    \<and> (\<forall>e. zap_Build L (loggerConfig (NewProductionConfig L)) = Inl e \<longrightarrow> initProgram L S unstarted = (Panicked (errorText e), unstarted))"
proof (intro conjI allI impI)
  fix e assume "zap_Build L (loggerConfig (NewProductionConfig L)) = Inl e"
  then show "initProgram L S unstarted = (Panicked (errorText e), unstarted)"
    by (simp add: initProgram_def newLogger_run run_andThen)
next
  fix z sch
  let ?l = "zapr_NewLogger L z"
  assume ok: "zap_Build L (loggerConfig (NewProductionConfig L)) = Inr z \<and> clientgo_AddToScheme S Map.empty = (None, sch)"
  let ?b = "\<lparr>builderVersion = GroupVersion, registered =
      [[(''v1alpha1'', ''ExportCertificateSecret''), (''v1alpha1'', ''ExportCertificateSecretList'')],
       [(''v1alpha1'', ''ImportCertificateSecret''), (''v1alpha1'', ''ImportCertificateSecretList'')]]\<rparr>"
  let ?s = "\<lparr>rootLog = Fulfilled ?l, Logger = Some ?l, setupLog = Some (logger_WithName L ?l ''setup''), SchemeBuilder = ?b, mainScheme = sch\<rparr>"
  have "\<forall>kind \<in> ourKinds. sch (GroupVersion, kind) = None"
    using assms ok unfolding scheme_laws_def by (metis snd_conv)
  then obtain sch' where add: "AddToScheme S ?s = (Done None, ?s\<lparr>mainScheme := sch'\<rparr>)"
    and kinds: "\<forall>kind \<in> ourKinds. sch' (GroupVersion, kind) = Some (''v1alpha1'', kind)"
    using AddToScheme_run [OF assms, of ?s] by auto
  have "initProgram L S unstarted = (Done (), ?s\<lparr>mainScheme := sch'\<rparr>)"
    using ok add
    by (simp add: initProgram_def newLogger_run unstarted_def initExportTypes_def initImportTypes_def register_def Register_def
        WithName_def theLogger_def initMain_def Must_def Fulfill_def go_run)
  with kinds show "\<exists>s. initProgram L S unstarted = (Done (), s)
         \<and> (\<forall>kind \<in> ourKinds. mainScheme s (GroupVersion, kind) = Some (''v1alpha1'', kind))
         \<and> Logger s = Some ?l \<and> rootLog s = Fulfilled ?l \<and> (\<forall>opts. setFlagLogger L opts s = (Done (), s))"
    by (simp add: setFlagLogger_def SetLogger_def Fulfill_def go_run)
qed

definition exampleLog :: "(unit, string, string, string) log_lib" where
  "exampleLog = \<lparr>NewProductionConfig = \<lparr>EncoderConfig = \<lparr>TimeKey = [], LevelKey = [], NameKey = [], CallerKey = [], MessageKey = [],
       StacktraceKey = [], LineEnding = [], EncodeLevel = [], EncodeTime = [], EncodeDuration = [], EncodeCaller = []\<rparr>,
       Encoding = ''console'', OutputPaths = [], ErrorOutputPaths = []\<rparr>,
     zap_Build = \<lambda>c. Inr (Encoding c), zapr_NewLogger = \<lambda>z. z, logger_WithName = \<lambda>l n. l @ ''/'' @ n,
     logger_WithValues = \<lambda>l vs. l, zap_New = \<lambda>opts. opts\<rparr>"

definition exampleScheme :: scheme_lib where
  "exampleScheme = \<lparr>clientgo_AddToScheme = \<lambda>sch. (None, sch((\<lparr>Group = [], Version = ''v1''\<rparr>, ''Secret'') \<mapsto> (''v1'', ''Secret''))),
     AddToGroupVersion = \<lambda>gv sch. sch((gv, ''WatchEvent'') \<mapsto> (''v1'', ''WatchEvent''))\<rparr>"

theorem program_init_witness:
  "\<exists>s. initProgram exampleLog exampleScheme unstarted = (Done (), s)
     \<and> mainScheme s (GroupVersion, ''ImportCertificateSecret'') = Some (''v1alpha1'', ''ImportCertificateSecret'')
     \<and> rootLog (snd (setFlagLogger exampleLog ''debug'' s)) = Fulfilled ''json''"
proof -
  have "scheme_laws exampleScheme" by (auto simp: scheme_laws_def exampleScheme_def ourKinds_def GroupVersion_def)
  moreover have "zap_Build exampleLog (loggerConfig (NewProductionConfig exampleLog)) = Inr ''json''"
    by (simp add: exampleLog_def loggerConfig_def)
  moreover have "zapr_NewLogger exampleLog ''json'' = ''json''" by (simp add: exampleLog_def)
  moreover have "\<exists>sch. clientgo_AddToScheme exampleScheme Map.empty = (None, sch)" by (simp add: exampleScheme_def)
  moreover have "''ImportCertificateSecret'' \<in> ourKinds" by (simp add: ourKinds_def)
  ultimately show ?thesis using program_init [of exampleScheme exampleLog] by fastforce
qed

end
