(* ===== verification/Azure_Client.thy ===== *)
theory Azure_Client
  imports Go_World
begin

text \<open>
  \<open>internal/shared/providers/azure/akv/model.go\<close>: the interface \<open>KeyVaultClient\<close>, as a record of
  functions with what its callers rely on as a locale; and the client the program uses,
  \<open>AzureKeyVaultClient\<close>, with the seven operations of the vendored Azure SDK it inherits. The
  HTTP exchange itself (preparing, signing, sending with the SDK's retries, reading the body)
  is a parameter.
\<close>

section \<open>The interface KeyVaultClient\<close>

text \<open>\<open>autorest.Response\<close> embeds an \<open>*http.Response\<close>: the status code, or \<^const>\<open>None\<close> for \<open>nil\<close>.\<close>

type_synonym AResponse = "nat option"

record SecretBundle =
  bStatus :: AResponse
  bValue :: "string option"

definition emptyBundle :: SecretBundle where "emptyBundle = \<lparr>bStatus = None, bValue = None\<rparr>"

record 'w KeyVaultClient =
  SetSecret :: "string \<Rightarrow> string \<Rightarrow> bytes \<Rightarrow> unix_seconds option \<Rightarrow> 'w \<Rightarrow> (SecretBundle \<times> go_error option) \<times> 'w"
  ImportCertificate :: "string \<Rightarrow> string \<Rightarrow> bytes \<Rightarrow> 'w \<Rightarrow> (AResponse \<times> go_error option) \<times> 'w"
  DeleteSecret :: "string \<Rightarrow> string \<Rightarrow> 'w \<Rightarrow> (AResponse \<times> go_error option) \<times> 'w"
  PurgeDeletedSecret :: "string \<Rightarrow> string \<Rightarrow> 'w \<Rightarrow> (AResponse \<times> go_error option) \<times> 'w"
  PurgeDeletedCertificate :: "string \<Rightarrow> string \<Rightarrow> 'w \<Rightarrow> (AResponse \<times> go_error option) \<times> 'w"
  DeleteCertificate :: "string \<Rightarrow> string \<Rightarrow> 'w \<Rightarrow> (AResponse \<times> go_error option) \<times> 'w"
  GetSecret :: "string \<Rightarrow> string \<Rightarrow> string \<Rightarrow> 'w \<Rightarrow> (SecretBundle \<times> go_error option) \<times> 'w"

text \<open>
  The contract: a call whose response is not 200 (or, for a purge, 204) comes with an error.
  Callers read \<open>err.Error()\<close> on the strength of it.
\<close>

locale keyvault_client =
  fixes C :: "'w KeyVaultClient"
  assumes set_error: "bStatus (fst (fst (SetSecret C url n v e w))) \<noteq> Some 200 \<Longrightarrow> snd (fst (SetSecret C url n v e w)) \<noteq> None"
    and import_error: "fst (fst (ImportCertificate C url n v w)) \<noteq> Some 200 \<Longrightarrow> snd (fst (ImportCertificate C url n v w)) \<noteq> None"
    and purge_secret_error: "fst (fst (PurgeDeletedSecret C url n w)) \<notin> {Some 200, Some 204} \<Longrightarrow>
      snd (fst (PurgeDeletedSecret C url n w)) \<noteq> None"
    and purge_cert_error: "fst (fst (PurgeDeletedCertificate C url n w)) \<notin> {Some 200, Some 204} \<Longrightarrow>
      snd (fst (PurgeDeletedCertificate C url n w)) \<noteq> None"
    and delete_cert_error: "fst (fst (DeleteCertificate C url n w)) \<noteq> Some 200 \<Longrightarrow> snd (fst (DeleteCertificate C url n w)) \<noteq> None"
    and get_error: "bStatus (fst (fst (GetSecret C url n ver w))) \<noteq> Some 200 \<Longrightarrow> snd (fst (GetSecret C url n ver w)) \<noteq> None"

section \<open>One exchange of the SDK\<close>

datatype http_body = NoBody | SecretBody bytes "unix_seconds option" | CertificateBody bytes

record http_request =
  hMethod :: string
  hBaseUrl :: string
  hPath :: string
  hPathName :: string
  hPathVersion :: string
  hBody :: http_body
  hAuthorization :: string

text \<open>
  A response with the reading of its body: the error \<open>WithErrorUnlessStatusCode\<close> builds from it
  when the status is not expected, and otherwise the \<open>value\<close> field and the error of decoding.
\<close>

record http_response =
  statusCode :: nat
  serviceError :: string
  jsonValue :: "string option"
  jsonError :: "string option"

datatype exchange =
    PrepareFailed go_error
  | SendFailed "nat option" go_error
  | Responded http_response

type_synonym 'w http = "http_request \<Rightarrow> 'w \<Rightarrow> exchange \<times> 'w"

definition NewErrorWithError :: "go_error \<Rightarrow> string \<Rightarrow> nat option \<Rightarrow> string \<Rightarrow> go_error" where
  "NewErrorWithError original method resp message =
     (case original of
        DetailedError c t \<Rightarrow> DetailedError c t
      | _ \<Rightarrow> (let code = (case resp of None \<Rightarrow> 0 | Some c \<Rightarrow> c) in
          DetailedError code (''keyvault.BaseClient#'' @ method @ '': '' @ message @ '': StatusCode=''
            @ fmt_dec (int code) @ '' -- Original Error: '' @ errorText original)))"

text \<open>Preparer, sender and responder of an operation that accepts the status codes \<open>ok\<close>.\<close>

definition sdkCall :: "'w http \<Rightarrow> string \<Rightarrow> nat list \<Rightarrow> http_request \<Rightarrow> 'w \<Rightarrow>
    (AResponse \<times> string option \<times> go_error option) \<times> 'w" where
  "sdkCall http method ok req w =
     (case http req w of (x, w') \<Rightarrow>
        (case x of
           PrepareFailed e \<Rightarrow> (None, None, Some (NewErrorWithError e method None ''Failure preparing request''))
         | SendFailed resp e \<Rightarrow> (resp, None, Some (NewErrorWithError e method resp ''Failure sending request''))
         | Responded r \<Rightarrow>
             (if statusCode r \<in> set ok
              then (Some (statusCode r), jsonValue r,
                    map_option (\<lambda>t. NewErrorWithError (PlainError t) method (Some (statusCode r)) ''Failure responding to request'')
                      (jsonError r))
              else (Some (statusCode r), None,
                    Some (NewErrorWithError (PlainError (serviceError r)) method (Some (statusCode r)) ''Failure responding to request''))),
         w'))"

section \<open>Validation of names\<close>

text \<open>\<open>^[0-9a-zA-Z-]+$\<close>\<close>

definition kv_name_char :: "char \<Rightarrow> bool" where
  "kv_name_char c = (let n = (of_char c :: nat) in
     (48 \<le> n \<and> n \<le> 57) \<or> (97 \<le> n \<and> n \<le> 122) \<or> (65 \<le> n \<and> n \<le> 90) \<or> n = 45)"

definition kv_name :: "string \<Rightarrow> bool" where
  "kv_name s \<longleftrightarrow> s \<noteq> [] \<and> list_all kv_name_char s"

text \<open>The message, for a name that quotes as itself and has no percent sign.\<close>

definition validationError :: "string \<Rightarrow> string \<Rightarrow> string \<Rightarrow> go_error" where
  "validationError method target name = PlainError
     (''keyvault.BaseClient#'' @ method @ '': Invalid input: autorest/validation: validation failed: parameter=''
      @ target @ '' constraint=Pattern value='' @ [CHR 0x22] @ name @ [CHR 0x22]
      @ '' details: value doesn'' @ [CHR 0x27] @ ''t match pattern ^[0-9a-zA-Z-]+$'')"

section \<open>The client of the vendored SDK\<close>

abbreviation request :: "string \<Rightarrow> string \<Rightarrow> string \<Rightarrow> string \<Rightarrow> string \<Rightarrow> http_body \<Rightarrow> string \<Rightarrow> http_request" where
  "request method url path name version body token \<equiv>
     \<lparr>hMethod = method, hBaseUrl = url, hPath = path, hPathName = name, hPathVersion = version,
      hBody = body, hAuthorization = ''Bearer '' @ token\<rparr>"

definition sdkSetSecret :: "'w http \<Rightarrow> string \<Rightarrow> string \<Rightarrow> string \<Rightarrow> bytes \<Rightarrow> unix_seconds option \<Rightarrow> 'w \<Rightarrow>
    (SecretBundle \<times> go_error option) \<times> 'w" where
  "sdkSetSecret http token url name v expires w =
     (if \<not> kv_name name
      then ((emptyBundle, Some (validationError ''SetSecret'' ''secretName'' name)), w)
      else case sdkCall http ''SetSecret'' [200]
             (request ''PUT'' url ''/secrets/{secret-name}'' name [] (SecretBody v expires) token) w of
          ((resp, val, err), w') \<Rightarrow> ((\<lparr>bStatus = resp, bValue = val\<rparr>, err), w'))"

definition sdkImportCertificate :: "'w http \<Rightarrow> string \<Rightarrow> string \<Rightarrow> string \<Rightarrow> bytes \<Rightarrow> 'w \<Rightarrow>
    (AResponse \<times> go_error option) \<times> 'w" where
  "sdkImportCertificate http token url name v w =
     (if \<not> kv_name name
      then ((None, Some (validationError ''ImportCertificate'' ''certificateName'' name)), w)
      else case sdkCall http ''ImportCertificate'' [200]
             (request ''POST'' url ''/certificates/{certificate-name}/import'' name [] (CertificateBody v) token) w of
          ((resp, val, err), w') \<Rightarrow> ((resp, err), w'))"

definition sdkPlain :: "'w http \<Rightarrow> string \<Rightarrow> string \<Rightarrow> nat list \<Rightarrow> string \<Rightarrow> string \<Rightarrow> string \<Rightarrow> 'w \<Rightarrow>
    (AResponse \<times> go_error option) \<times> 'w" where
  "sdkPlain http token method ok path url name w =
     (case sdkCall http method ok (request ''DELETE'' url path name [] NoBody token) w of
        ((resp, val, err), w') \<Rightarrow> ((resp, err), w'))"

definition sdkDeleteSecret where
  "sdkDeleteSecret http token = sdkPlain http token ''DeleteSecret'' [200] ''/secrets/{secret-name}''"
definition sdkDeleteCertificate where
  "sdkDeleteCertificate http token = sdkPlain http token ''DeleteCertificate'' [200] ''/certificates/{certificate-name}''"

text \<open>The responders of the purge operations read no body: no decoding error can come of it.\<close>

definition sdkPurge :: "'w http \<Rightarrow> string \<Rightarrow> string \<Rightarrow> string \<Rightarrow> string \<Rightarrow> string \<Rightarrow> 'w \<Rightarrow>
    (AResponse \<times> go_error option) \<times> 'w" where
  "sdkPurge http token method path url name w =
     (case sdkCall (\<lambda>r w. case http r w of (x, w') \<Rightarrow>
              (case x of Responded p \<Rightarrow> Responded (p\<lparr>jsonError := None\<rparr>) | _ \<Rightarrow> x, w'))
            method [200, 204] (request ''DELETE'' url path name [] NoBody token) w of
        ((resp, val, err), w') \<Rightarrow> ((resp, err), w'))"

definition sdkPurgeDeletedSecret where
  "sdkPurgeDeletedSecret http token = sdkPurge http token ''PurgeDeletedSecret'' ''/deletedsecrets/{secret-name}''"
definition sdkPurgeDeletedCertificate where
  "sdkPurgeDeletedCertificate http token =
     sdkPurge http token ''PurgeDeletedCertificate'' ''/deletedcertificates/{certificate-name}''"

definition sdkGetSecret :: "'w http \<Rightarrow> string \<Rightarrow> string \<Rightarrow> string \<Rightarrow> string \<Rightarrow> 'w \<Rightarrow>
    (SecretBundle \<times> go_error option) \<times> 'w" where
  "sdkGetSecret http token url name version w =
     (case sdkCall http ''GetSecret'' [200]
             (request ''GET'' url ''/secrets/{secret-name}/{secret-version}'' name version NoBody token) w of
        ((resp, val, err), w') \<Rightarrow> ((\<lparr>bStatus = resp, bValue = val\<rparr>, err), w'))"

text \<open>\<open>NewAzureKeyVaultClient\<close>; \<open>AzureKeyVaultClient.SetSecret\<close> passes its arguments on.\<close>

definition NewAzureKeyVaultClient :: "'w http \<Rightarrow> string \<Rightarrow> 'w KeyVaultClient" where
  "NewAzureKeyVaultClient http token =
     \<lparr>SetSecret = sdkSetSecret http token, ImportCertificate = sdkImportCertificate http token,
      DeleteSecret = sdkDeleteSecret http token, PurgeDeletedSecret = sdkPurgeDeletedSecret http token,
      PurgeDeletedCertificate = sdkPurgeDeletedCertificate http token,
      DeleteCertificate = sdkDeleteCertificate http token, GetSecret = sdkGetSecret http token\<rparr>"

lemma NewAzureKeyVaultClient_simps [simp]:
  "SetSecret (NewAzureKeyVaultClient http token) = sdkSetSecret http token"
  "ImportCertificate (NewAzureKeyVaultClient http token) = sdkImportCertificate http token"
  "DeleteSecret (NewAzureKeyVaultClient http token) = sdkDeleteSecret http token"
  "PurgeDeletedSecret (NewAzureKeyVaultClient http token) = sdkPurgeDeletedSecret http token"
  "PurgeDeletedCertificate (NewAzureKeyVaultClient http token) = sdkPurgeDeletedCertificate http token"
  "DeleteCertificate (NewAzureKeyVaultClient http token) = sdkDeleteCertificate http token"
  "GetSecret (NewAzureKeyVaultClient http token) = sdkGetSecret http token"
  by (simp_all add: NewAzureKeyVaultClient_def)

text \<open>An error accompanies every status outside the accepted ones, and every missing response.\<close>

lemma sdkCall_error:
  assumes "sdkCall http method ok req w = ((resp, val, err), w')" and "resp \<notin> Some ` set ok"
  shows "err \<noteq> None"
  using assms by (auto simp: sdkCall_def split: prod.splits exchange.splits if_splits)

interpretation azure: keyvault_client "NewAzureKeyVaultClient http token" for http token
proof unfold_locales
  fix url n v e w
  show "snd (fst (SetSecret (NewAzureKeyVaultClient http token) url n v e w)) \<noteq> None"
    if "bStatus (fst (fst (SetSecret (NewAzureKeyVaultClient http token) url n v e w))) \<noteq> Some 200"
    using that sdkCall_error [of http]
    by (fastforce simp: sdkSetSecret_def split: prod.splits if_splits)
next
  fix url n v w
  show "snd (fst (ImportCertificate (NewAzureKeyVaultClient http token) url n v w)) \<noteq> None"
    if "fst (fst (ImportCertificate (NewAzureKeyVaultClient http token) url n v w)) \<noteq> Some 200"
    using that sdkCall_error [of http]
    by (fastforce simp: sdkImportCertificate_def split: prod.splits if_splits)
next
  fix url n w
  show "snd (fst (PurgeDeletedSecret (NewAzureKeyVaultClient http token) url n w)) \<noteq> None"
    if "fst (fst (PurgeDeletedSecret (NewAzureKeyVaultClient http token) url n w)) \<notin> {Some 200, Some 204}"
    using that by (auto simp: sdkPurgeDeletedSecret_def sdkPurge_def split: prod.splits dest: sdkCall_error)
next
  fix url n w
  show "snd (fst (PurgeDeletedCertificate (NewAzureKeyVaultClient http token) url n w)) \<noteq> None"
    if "fst (fst (PurgeDeletedCertificate (NewAzureKeyVaultClient http token) url n w)) \<notin> {Some 200, Some 204}"
    using that by (auto simp: sdkPurgeDeletedCertificate_def sdkPurge_def split: prod.splits dest: sdkCall_error)
next
  fix url n w
  show "snd (fst (DeleteCertificate (NewAzureKeyVaultClient http token) url n w)) \<noteq> None"
    if "fst (fst (DeleteCertificate (NewAzureKeyVaultClient http token) url n w)) \<noteq> Some 200"
    using that by (auto simp: sdkDeleteCertificate_def sdkPlain_def split: prod.splits dest: sdkCall_error)
next
  fix url n ver w
  show "snd (fst (GetSecret (NewAzureKeyVaultClient http token) url n ver w)) \<noteq> None"
    if "bStatus (fst (fst (GetSecret (NewAzureKeyVaultClient http token) url n ver w))) \<noteq> Some 200"
    using that by (auto simp: sdkGetSecret_def split: prod.splits dest: sdkCall_error)
qed

lemma sdkSetSecret_invalid:
  "\<not> kv_name name \<Longrightarrow> sdkSetSecret http token url name v e w =
     ((emptyBundle, Some (validationError ''SetSecret'' ''secretName'' name)), w)"
  by (simp add: sdkSetSecret_def)

text \<open>A secret the vault does not have: the error is a \<^const>\<open>DetailedError\<close> with status 404.\<close>

lemma sdkGetSecret_404:
  assumes "http (request ''GET'' url ''/secrets/{secret-name}/{secret-version}'' name ver NoBody token) w = (Responded r, w')"
    and "statusCode r = 404"
  shows "\<exists>t. sdkGetSecret http token url name ver w = ((\<lparr>bStatus = Some 404, bValue = None\<rparr>, Some (DetailedError 404 t)), w')"
  using assms by (simp add: sdkGetSecret_def sdkCall_def NewErrorWithError_def)

end
