(* ===== verification/Azure_Kv.thy ===== *)
theory Azure_Kv
  imports Azure_Client
begin

text \<open>
  \<open>internal/shared/providers/azure/akv/akv.go\<close>: the operations of \<open>KeyVault\<close> on secrets and
  certificates. They mutate the receiver, which the controllers keep across reconciliations:
  the state is the receiver beside the trace and the world. A client response without an HTTP
  response is a nil pointer dereference where the code reads its status.
\<close>

section \<open>The receiver\<close>

record Secret =
  sName :: string
  sValue :: bytes
  sExpires :: "unix_seconds option" \<comment> \<open>\<open>Attributes.Expires\<close>, the only attribute the program sets\<close>
  sBundle :: SecretBundle

definition emptyKvSecret :: Secret where
  "emptyKvSecret = \<lparr>sName = [], sValue = [], sExpires = None, sBundle = emptyBundle\<rparr>"

record 'w KeyVault =
  Client :: "'w KeyVaultClient"
  VaultUrl :: string
  kvSecret :: "Secret option"

record 'w kvst = "'w st" +
  kv :: "'w KeyVault"

type_synonym ('w, 'a) akv = "('w kvst, 'a) go"

definition purgeInitialDelayMultiplier :: duration where "purgeInitialDelayMultiplier = 5 * Second"
definition purgeMaxDelay :: duration where "purgeMaxDelay = 30 * Second"
definition kvMaxRetries :: nat where "kvMaxRetries = 3"

text \<open>\<open>time.Duration(math.Min(float64(max), float64(initial) * math.Pow(2, i)))\<close>; the values are
  whole and below $2^{53}$, so the floating point computation is exact.\<close>

definition floatBackoff :: "duration \<Rightarrow> duration \<Rightarrow> nat \<Rightarrow> duration" where
  "floatBackoff maxDelay initialDelay i = word_of_int (min (sint maxDelay) (sint initialDelay * 2 ^ i))"

section \<open>Access to the receiver\<close>

definition theSecret :: "('w, Secret) akv" where
  "theSecret = andThen (gets (\<lambda>s. kvSecret (kv s))) deref"

definition setKvSecret :: "Secret \<Rightarrow> ('w, unit) akv" where
  "setKvSecret sec = modify (\<lambda>s. s\<lparr>kv := (kv s)\<lparr>kvSecret := Some sec\<rparr>\<rparr>)"

text \<open>\<open>akv.Secret.SecretBundle = res\<close> and \<open>akv.Secret.Value = v\<close>\<close>

definition setBundle :: "SecretBundle \<Rightarrow> ('w, unit) akv" where
  "setBundle b = andThen theSecret (\<lambda>sec. setKvSecret (sec\<lparr>sBundle := b\<rparr>))"

definition setValue :: "bytes \<Rightarrow> ('w, unit) akv" where
  "setValue v = andThen theSecret (\<lambda>sec. setKvSecret (sec\<lparr>sValue := v\<rparr>))"

definition setName :: "string \<Rightarrow> ('w, unit) akv" where
  "setName n = andThen theSecret (\<lambda>sec. setKvSecret (sec\<lparr>sName := n\<rparr>))"

text \<open>A call of the client at the receiver's vault.\<close>

definition kvCall :: "(string \<Rightarrow> effect) \<Rightarrow> ('w KeyVaultClient \<Rightarrow> string \<Rightarrow> 'w \<Rightarrow> 'a \<times> 'w) \<Rightarrow> ('w, 'a) akv" where
  "kvCall e f = andThen (gets kv) (\<lambda>k. call (\<lambda>_. e (VaultUrl k)) (f (Client k) (VaultUrl k)))"

section \<open>Operations\<close>

text \<open>\<open>err.Error()\<close> in a log line dereferences the error; then it is returned.\<close>

definition logAndReturn :: "go_error option \<Rightarrow> ('w, go_error option) akv" where
  "logAndReturn err = andThen (deref err) (\<lambda>e. ret (Some e))"

definition PushSecretToKeyVault :: "('w, go_error option) akv" where
  "PushSecretToKeyVault =
     andThen theSecret (\<lambda>sec.
       let secretName = ToLower (sName sec) in
       andThen (kvCall (\<lambda>url. KvSetSecret url secretName (sValue sec) (sExpires sec))
                  (\<lambda>c url. SetSecret c url secretName (sValue sec) (sExpires sec))) (\<lambda>(res, err).
       andThen (deref (bStatus res)) (\<lambda>status.
         if status \<noteq> 200 then logAndReturn err
         else seq (setBundle res) (ret None))))"

definition PushCertificateToKeyVault :: "('w, go_error option) akv" where
  "PushCertificateToKeyVault =
     andThen theSecret (\<lambda>sec.
       let certName = ToLower (sName sec) in
       andThen (kvCall (\<lambda>url. KvImportCertificate url certName (sValue sec))
                  (\<lambda>c url. ImportCertificate c url certName (sValue sec))) (\<lambda>(res, err).
       andThen (deref res) (\<lambda>status.
         if status \<noteq> 200 then logAndReturn err
         else ret None)))"

text \<open>The error of the call is only logged.\<close>

definition DeleteSecretFromKeyVault :: "('w, go_error option) akv" where
  "DeleteSecretFromKeyVault =
     andThen theSecret (\<lambda>sec.
       let secretName = ToLower (sName sec) in
       andThen (kvCall (\<lambda>url. KvDeleteSecret url secretName)
                  (\<lambda>c url. DeleteSecret c url secretName)) (\<lambda>(res, err).
       ret None))"

text \<open>
  The loop of the two purge operations. The \<open>err\<close> assigned in its body is a new variable, so
  the one returned after the loop is still \<open>nil\<close>. The body's result is \<open>Some None\<close> for \<open>return nil\<close>.
\<close>

definition purgeAttempt :: "'w kube \<Rightarrow> (string \<Rightarrow> effect) \<Rightarrow>
    ('w KeyVaultClient \<Rightarrow> string \<Rightarrow> 'w \<Rightarrow> (AResponse \<times> go_error option) \<times> 'w) \<Rightarrow> nat \<Rightarrow> ('w, go_error option option) akv" where
  "purgeAttempt K e f i =
     andThen (kvCall e f) (\<lambda>(res, err).
     andThen (deref res) (\<lambda>status.
     andThen (if status = 403
              then andThen (deref err) (\<lambda>er. ret (Contains (errorText er) ''purge protection is enabled''))
              else ret False) (\<lambda>isProtected.
       if isProtected then ret (Some None)
       else if status = 200 then ret (Some None)
       else seq (timeSleep K (floatBackoff purgeMaxDelay purgeInitialDelayMultiplier i)) (ret None))))"

definition purgeLoop where
  "purgeLoop K e f =
     andThen (forEach [0..<kvMaxRetries] (purgeAttempt K e f))
       (\<lambda>r. case r of Some result \<Rightarrow> ret result | None \<Rightarrow> ret None)"

definition PurgeDeletedSecretFromKeyVault :: "'w kube \<Rightarrow> ('w, go_error option) akv" where
  "PurgeDeletedSecretFromKeyVault K =
     andThen theSecret (\<lambda>sec.
       let secretName = ToLower (sName sec) in
       purgeLoop K (\<lambda>url. KvPurgeSecret url secretName) (\<lambda>c url. PurgeDeletedSecret c url secretName))"

definition PurgeDeletedCertificateFromKeyVault :: "'w kube \<Rightarrow> ('w, go_error option) akv" where
  "PurgeDeletedCertificateFromKeyVault K =
     andThen theSecret (\<lambda>sec.
       let certName = ToLower (sName sec) in
       purgeLoop K (\<lambda>url. KvPurgeCertificate url certName) (\<lambda>c url. PurgeDeletedCertificate c url certName))"

definition DeleteCertificateFromKeyVault :: "('w, go_error option) akv" where
  "DeleteCertificateFromKeyVault =
     andThen theSecret (\<lambda>sec.
       let certName = ToLower (sName sec) in
       andThen (kvCall (\<lambda>url. KvDeleteCertificate url certName)
                  (\<lambda>c url. DeleteCertificate c url certName)) (\<lambda>(res, err).
       andThen (deref res) (\<lambda>status.
         if status \<noteq> 200 then logAndReturn err
         else ret None)))"

definition isDetailed404 :: "go_error option \<Rightarrow> bool" where
  "isDetailed404 err = (case err of Some (DetailedError c t) \<Rightarrow> c = 404 | _ \<Rightarrow> False)"

definition CheckKVSecretExistence :: "('w, go_error option) akv" where
  "CheckKVSecretExistence =
     andThen theSecret (\<lambda>sec.
       let secretName = ToLower (sName sec) in
       seq (setBundle emptyBundle)
       (andThen (kvCall (\<lambda>url. KvGetSecret url secretName)
                  (\<lambda>c url. GetSecret c url secretName [])) (\<lambda>(res, err).
        andThen (deref (bStatus res)) (\<lambda>status.
          if status \<noteq> 200
          then (if isDetailed404 err then ret None else logAndReturn err)
          else seq (setBundle res) (ret None)))))"

section \<open>Running the operations\<close>

lemma run_theSecret [go_run]:
  "theSecret s = (case kvSecret (kv s) of None \<Rightarrow> nilDeref s | Some sec \<Rightarrow> (Done sec, s))"
  by (simp add: theSecret_def go_run split: option.split)

lemma run_setKvSecret [go_run]:
  "setKvSecret sec s = (Done (), s\<lparr>kv := (kv s)\<lparr>kvSecret := Some sec\<rparr>\<rparr>)"
  by (simp add: setKvSecret_def go_run)

lemma run_kvCall [go_run]:
  "kvCall e f s = (Done (fst (f (Client (kv s)) (VaultUrl (kv s)) (world s))),
     s\<lparr>trace := trace s @ [e (VaultUrl (kv s))], world := snd (f (Client (kv s)) (VaultUrl (kv s)) (world s))\<rparr>)"
  by (simp add: kvCall_def go_run)

lemma run_setBundle:
  "kvSecret (kv s) = Some sec \<Longrightarrow> setBundle b s = (Done (), s\<lparr>kv := (kv s)\<lparr>kvSecret := Some (sec\<lparr>sBundle := b\<rparr>)\<rparr>\<rparr>)"
  by (simp add: setBundle_def go_run)

lemma floatBackoff_purge:
  "floatBackoff purgeMaxDelay purgeInitialDelayMultiplier 0 = 5 * Second"
  "floatBackoff purgeMaxDelay purgeInitialDelayMultiplier (Suc 0) = 10 * Second"
  "floatBackoff purgeMaxDelay purgeInitialDelayMultiplier 2 = 20 * Second"
  by (simp_all add: floatBackoff_def purgeMaxDelay_def purgeInitialDelayMultiplier_def Second_def)

lemma PushSecret_run:
  assumes "kvSecret (kv s) = Some sec"
    and "SetSecret (Client (kv s)) (VaultUrl (kv s)) (ToLower (sName sec)) (sValue sec) (sExpires sec) (world s) = ((res, err), w)"
  shows "PushSecretToKeyVault s =
    (let s1 = s\<lparr>trace := trace s @ [KvSetSecret (VaultUrl (kv s)) (ToLower (sName sec)) (sValue sec) (sExpires sec)], world := w\<rparr>
     in case bStatus res of
          None \<Rightarrow> nilDeref s1
        | Some status \<Rightarrow>
            if status = 200 then (Done None, s1\<lparr>kv := (kv s)\<lparr>kvSecret := Some (sec\<lparr>sBundle := res\<rparr>)\<rparr>\<rparr>)
            else (case err of None \<Rightarrow> nilDeref s1 | Some e \<Rightarrow> (Done (Some e), s1)))"
  using assms
  by (simp add: PushSecretToKeyVault_def go_run Let_def logAndReturn_def setBundle_def split: option.split)

lemma PushCertificate_run:
  assumes "kvSecret (kv s) = Some sec"
    and "ImportCertificate (Client (kv s)) (VaultUrl (kv s)) (ToLower (sName sec)) (sValue sec) (world s) = ((res, err), w)"
  shows "PushCertificateToKeyVault s =
    (let s1 = s\<lparr>trace := trace s @ [KvImportCertificate (VaultUrl (kv s)) (ToLower (sName sec)) (sValue sec)], world := w\<rparr>
     in case res of
          None \<Rightarrow> nilDeref s1
        | Some status \<Rightarrow>
            if status = 200 then (Done None, s1)
            else (case err of None \<Rightarrow> nilDeref s1 | Some e \<Rightarrow> (Done (Some e), s1)))"
  using assms
  by (simp add: PushCertificateToKeyVault_def go_run Let_def logAndReturn_def split: option.split)

lemma CheckKV_run:
  assumes "kvSecret (kv s) = Some sec"
    and "GetSecret (Client (kv s)) (VaultUrl (kv s)) (ToLower (sName sec)) [] (world s) = ((res, err), w)"
  shows "CheckKVSecretExistence s =
    (let s1 = s\<lparr>trace := trace s @ [KvGetSecret (VaultUrl (kv s)) (ToLower (sName sec))], world := w,
               kv := (kv s)\<lparr>kvSecret := Some (sec\<lparr>sBundle := emptyBundle\<rparr>)\<rparr>\<rparr>
     in case bStatus res of
          None \<Rightarrow> nilDeref s1
        | Some status \<Rightarrow>
            if status = 200 then (Done None, s1\<lparr>kv := (kv s)\<lparr>kvSecret := Some (sec\<lparr>sBundle := res\<rparr>)\<rparr>\<rparr>)
            else if isDetailed404 err then (Done None, s1)
            else (case err of None \<Rightarrow> nilDeref s1 | Some e \<Rightarrow> (Done (Some e), s1)))"
  using assms
  by (simp add: CheckKVSecretExistence_def go_run Let_def logAndReturn_def setBundle_def split: option.split)

section \<open>The vault behind the client\<close>

text \<open>
  The documented behaviour of a vault as seen through a client: \<open>view w\<close> are the current values
  of its secrets. A read with status 200 returns the value, a \<open>DetailedError\<close> with status 404
  means that there is none, a write with status 200 stores the value.
\<close>

type_synonym vault_view = "string \<times> string \<Rightarrow> string option"

definition serves_vault :: "'w KeyVaultClient \<Rightarrow> ('w \<Rightarrow> vault_view) \<Rightarrow> bool" where
  "serves_vault C view \<longleftrightarrow>
     (\<forall>url n w. case GetSecret C url n [] w of ((res, err), w') \<Rightarrow> view w' = view w \<and>
        (bStatus res = Some 200 \<longrightarrow> bValue res = view w (url, n)) \<and>
        (bStatus res \<noteq> Some 200 \<and> isDetailed404 err \<longrightarrow> view w (url, n) = None))
     \<and> (\<forall>url n v e w. case SetSecret C url n v e w of ((res, err), w') \<Rightarrow>
        bStatus res = Some 200 \<longrightarrow> view w' = (view w)((url, n) \<mapsto> v))"

lemma serves_vault_getD:
  assumes "serves_vault C view" and "GetSecret C url n [] w = ((res, err), w')"
  shows "view w' = view w" and "bStatus res = Some 200 \<Longrightarrow> bValue res = view w (url, n)"
    and "bStatus res \<noteq> Some 200 \<Longrightarrow> isDetailed404 err \<Longrightarrow> view w (url, n) = None"
proof -
  have "case GetSecret C url n [] w of ((res, err), w') \<Rightarrow> view w' = view w \<and>
        (bStatus res = Some 200 \<longrightarrow> bValue res = view w (url, n)) \<and>
        (bStatus res \<noteq> Some 200 \<and> isDetailed404 err \<longrightarrow> view w (url, n) = None)"
    by (rule assms(1) [unfolded serves_vault_def, THEN conjunct1, THEN spec, THEN spec, THEN spec])
  with assms(2) show "view w' = view w" and "bStatus res = Some 200 \<Longrightarrow> bValue res = view w (url, n)"
    and "bStatus res \<noteq> Some 200 \<Longrightarrow> isDetailed404 err \<Longrightarrow> view w (url, n) = None"
    by auto
qed

lemma serves_vault_setD:
  assumes "serves_vault C view" and "SetSecret C url n v e w = ((res, err), w')" and "bStatus res = Some 200"
  shows "view w' = (view w)((url, n) \<mapsto> v)"
proof -
  have "case SetSecret C url n v e w of ((res, err), w') \<Rightarrow>
        bStatus res = Some 200 \<longrightarrow> view w' = (view w)((url, n) \<mapsto> v)"
    by (rule assms(1) [unfolded serves_vault_def, THEN conjunct2, THEN spec, THEN spec, THEN spec, THEN spec, THEN spec])
  with assms(2,3) show ?thesis by simp
qed

text \<open>A vault in memory, behind HTTP; it answers every deletion and purge with 429.\<close>

definition answer :: "nat \<Rightarrow> string option \<Rightarrow> exchange" where
  "answer code v = Responded \<lparr>statusCode = code, serviceError = ''error'', jsonValue = v, jsonError = None\<rparr>"

definition memHttp :: "vault_view http" where
  "memHttp req w =
     (let k = (hBaseUrl req, hPathName req) in
      if hMethod req = ''GET'' then (case w k of None \<Rightarrow> answer 404 None | Some v \<Rightarrow> answer 200 (Some v), w)
      else if hMethod req = ''PUT''
      then (case hBody req of SecretBody v e \<Rightarrow> (answer 200 (Some v), w(k \<mapsto> v)) | _ \<Rightarrow> (answer 400 None, w))
      else if hMethod req = ''POST'' then (answer 200 None, w)
      else (answer 429 None, w))"

lemma sdkCall_answer:
  assumes "http req w = (answer code v, w')"
  shows "sdkCall http method ok req w =
    ((Some code, if code \<in> set ok then v else None,
      if code \<in> set ok then None
      else Some (NewErrorWithError (PlainError ''error'') method (Some code) ''Failure responding to request'')), w')"
  using assms by (simp add: sdkCall_def answer_def)

lemma memHttp_serves: "serves_vault (NewAzureKeyVaultClient memHttp token) (\<lambda>w. w)"
  by (auto simp: serves_vault_def sdkGetSecret_def sdkSetSecret_def memHttp_def sdkCall_def answer_def
      emptyBundle_def split: option.split)

section \<open>Lemmas on the operations\<close>

context keyvault_client
begin

text \<open>With a client that keeps the contract, only a missing response makes a push panic.\<close>

lemma push_secret_outcome:
  assumes "kvSecret (kv s) = Some sec" and "Client (kv s) = C"
    and "SetSecret C (VaultUrl (kv s)) (ToLower (sName sec)) (sValue sec) (sExpires sec) (world s) = ((res, err), w)"
  shows "fst (PushSecretToKeyVault s) =
    (case bStatus res of None \<Rightarrow> fst (nilDeref s :: go_error option outcome \<times> _)
     | Some status \<Rightarrow> Done (if status = 200 then None else err))"
  using PushSecret_run [OF assms(1), of res err w] assms
    set_error [of "VaultUrl (kv s)" "ToLower (sName sec)" "sValue sec" "sExpires sec" "world s"]
  by (auto simp: Let_def run_nilDeref split: option.split)

lemma push_secret_error_iff:
  assumes "kvSecret (kv s) = Some sec" and "Client (kv s) = C"
    and "SetSecret C (VaultUrl (kv s)) (ToLower (sName sec)) (sValue sec) (sExpires sec) (world s) = ((res, err), w)"
    and "fst (PushSecretToKeyVault s) = Done r"
  shows "r = None \<longleftrightarrow> bStatus res = Some 200"
  using push_secret_outcome [OF assms(1-3)] assms(3,4)
    set_error [of "VaultUrl (kv s)" "ToLower (sName sec)" "sValue sec" "sExpires sec" "world s"]
  by (auto simp: run_nilDeref split: option.splits if_splits)

lemma check_secret_outcome:
  assumes "kvSecret (kv s) = Some sec" and "Client (kv s) = C"
    and "GetSecret C (VaultUrl (kv s)) (ToLower (sName sec)) [] (world s) = ((res, err), w)"
  shows "fst (CheckKVSecretExistence s) =
    (case bStatus res of None \<Rightarrow> fst (nilDeref s :: go_error option outcome \<times> _)
     | Some status \<Rightarrow> Done (if status = 200 \<or> isDetailed404 err then None else err))"
  using CheckKV_run [OF assms(1), of res err w] assms
    get_error [of "VaultUrl (kv s)" "ToLower (sName sec)" "[]" "world s"]
  by (auto simp: Let_def run_nilDeref split: option.split)

end

lemma kv_name_ToLower [simp]: "kv_name (ToLower n) = kv_name n"
proof -
  have "kv_name_char (lower_char c) = kv_name_char c" for c
  proof -
    have "of_char (lower_char c) = (let n = (of_char c :: nat) in if 65 \<le> n \<and> n \<le> 90 then n + 32 else n)"
      by (simp add: lower_char_def Let_def)
    then show ?thesis by (auto simp: kv_name_char_def Let_def)
  qed
  then show ?thesis by (auto simp: kv_name_def ToLower_def list_all_iff)
qed

text \<open>A run of the purge loop: every attempt but the last is followed by its delay.\<close>

definition purgeTrace :: "effect \<Rightarrow> nat list \<Rightarrow> effect list" where
  "purgeTrace e is = concat (map (\<lambda>i. [e, Sleep (floatBackoff purgeMaxDelay purgeInitialDelayMultiplier i)]) is)"

lemma purgeAttempt_run:
  assumes "purgeAttempt K e f i s = (Done r, s')"
  shows "kv s' = kv s \<and> (if r = None
      then trace s' = trace s @ [e (VaultUrl (kv s)), Sleep (floatBackoff purgeMaxDelay purgeInitialDelayMultiplier i)]
      else r = Some None \<and> trace s' = trace s @ [e (VaultUrl (kv s))])"
  using assms
  by (auto simp: purgeAttempt_def go_run timeSleep_def deref_def split: prod.splits option.splits outcome.splits if_splits)

lemma purgeLoop_trace:
  assumes "forEach is (purgeAttempt K e f) s = (Done r, s')"
  shows "kv s' = kv s \<and> (if r = None then trace s' = trace s @ purgeTrace (e (VaultUrl (kv s))) is
    else r = Some None \<and> (\<exists>k < length is. trace s' = trace s @ purgeTrace (e (VaultUrl (kv s))) (take k is) @ [e (VaultUrl (kv s))]))"
  using assms
proof (induction "is" arbitrary: s)
  case Nil
  then show ?case by (simp add: ret_def purgeTrace_def)
next
  case (Cons i is')
  from Cons.prems obtain r1 s1 where one: "purgeAttempt K e f i s = (Done r1, s1)"
    by (auto simp: run_andThen split: prod.splits outcome.splits)
  note first = purgeAttempt_run [OF one]
  show ?case
  proof (cases r1)
    case None
    with Cons.prems one have "forEach is' (purgeAttempt K e f) s1 = (Done r, s')"
      by (simp add: run_andThen)
    note rest = Cons.IH [OF this]
    show ?thesis
    proof (cases r)
      case None
      with rest first \<open>r1 = None\<close> show ?thesis by (simp add: purgeTrace_def)
    next
      case (Some x)
      with rest obtain k where "k < length is'"
        and "trace s' = trace s1 @ purgeTrace (e (VaultUrl (kv s1))) (take k is') @ [e (VaultUrl (kv s1))]"
        by auto
      with rest first \<open>r1 = None\<close> Some show ?thesis
        by (auto simp: purgeTrace_def intro!: exI [of _ "Suc k"])
    qed
  next
    case (Some x)
    with Cons.prems one first show ?thesis
      by (auto simp: run_andThen ret_def purgeTrace_def)
  qed
qed

lemma attempts_list: "[0..<kvMaxRetries] = [0, 1, 2]"
  by (simp add: kvMaxRetries_def upt_rec)

lemma purgeLoop_run:
  assumes "purgeLoop K e f s = (Done r, s')"
  shows "r = None \<and> kv s' = kv s
    \<and> (trace s' = trace s @ purgeTrace (e (VaultUrl (kv s))) [0, 1, 2]
       \<or> (\<exists>k < 3. trace s' = trace s @ purgeTrace (e (VaultUrl (kv s))) (take k [0, 1, 2]) @ [e (VaultUrl (kv s))]))"
proof -
  from assms obtain q where run: "forEach [0, 1, 2] (purgeAttempt K e f) s = (Done q, s')"
    and r: "r = (case q of None \<Rightarrow> None | Some x \<Rightarrow> x)"
    by (auto simp: purgeLoop_def run_andThen attempts_list ret_def simp del: forEach.simps
        split: prod.splits outcome.splits option.splits)
  from purgeLoop_trace [OF run] r show ?thesis
    by (cases q) (auto simp: eval_nat_numeral)
qed

text \<open>On every outcome the bundle is all that a check changes.\<close>

lemma CheckKV_any:
  assumes "CheckKVSecretExistence t = (r, t')" and "kvSecret (kv t) = Some x"
  shows "\<exists>b. kv t' = (kv t)\<lparr>kvSecret := Some (x\<lparr>sBundle := b\<rparr>)\<rparr>
    \<and> world t' = snd (GetSecret (Client (kv t)) (VaultUrl (kv t)) (ToLower (sName x)) [] (world t))
    \<and> trace t' = trace t @ [KvGetSecret (VaultUrl (kv t)) (ToLower (sName x))]"
proof -
  obtain res err w where "GetSecret (Client (kv t)) (VaultUrl (kv t)) (ToLower (sName x)) [] (world t) = ((res, err), w)"
    by (metis prod.collapse)
  with assms show ?thesis
    by (auto simp: CheckKV_run Let_def run_nilDeref split: option.splits if_splits)
qed

lemma CheckKV_done:
  assumes "kvSecret (kv s) = Some sec" and "serves_vault (Client (kv s)) view"
    and "CheckKVSecretExistence s = (Done None, s')"
  shows "\<exists>b. kv s' = (kv s)\<lparr>kvSecret := Some (sec\<lparr>sBundle := b\<rparr>)\<rparr>
    \<and> bValue b = view (world s) (VaultUrl (kv s), ToLower (sName sec)) \<and> view (world s') = view (world s)
    \<and> world s' = snd (GetSecret (Client (kv s)) (VaultUrl (kv s)) (ToLower (sName sec)) [] (world s))
    \<and> trace s' = trace s @ [KvGetSecret (VaultUrl (kv s)) (ToLower (sName sec))]"
proof -
  obtain res err w where get: "GetSecret (Client (kv s)) (VaultUrl (kv s)) (ToLower (sName sec)) [] (world s) = ((res, err), w)"
    by (metis prod.collapse)
  note law = serves_vault_getD [OF assms(2) get]
  note run = CheckKV_run [OF assms(1) get]
  show ?thesis
  proof (cases "bStatus res = Some 200")
    case True
    with run assms(3) law show ?thesis by (auto simp: Let_def get intro!: exI [of _ res])
  next
    case False
    with run assms(3) have "isDetailed404 err"
      by (auto simp: Let_def run_nilDeref split: option.splits if_splits)
    with False run assms(3) law show ?thesis
      by (auto simp: Let_def get run_nilDeref emptyBundle_def split: option.splits intro!: exI [of _ emptyBundle])
  qed
qed

section \<open>Properties\<close>

text \<open>
  C30. A push through the Azure client reports success exactly when the vault answered 200,
  whatever name and value it is given; and a name with a character Key Vault does not allow,
  which admission does not exclude, is not reported at all: the client returns no response and
  reading its status panics, before any request is sent.
\<close>

theorem push_success_iff_200:
  assumes "kvSecret (kv s) = Some sec" and "Client (kv s) = NewAzureKeyVaultClient http token"
  shows "(if kv_name (sName sec)
     then \<forall>r s'. PushSecretToKeyVault s = (Done r, s') \<longrightarrow>
        (r = None \<longleftrightarrow> bStatus (fst (fst (sdkSetSecret http token (VaultUrl (kv s)) (ToLower (sName sec)) (sValue sec)
           (sExpires sec) (world s)))) = Some 200)
     else (\<exists>p. fst (PushSecretToKeyVault s) = Panicked p) \<and> world (snd (PushSecretToKeyVault s)) = world s)"
proof (cases "kv_name (sName sec)")
  case True
  obtain res err w where set: "SetSecret (NewAzureKeyVaultClient http token) (VaultUrl (kv s)) (ToLower (sName sec))
      (sValue sec) (sExpires sec) (world s) = ((res, err), w)" by (metis prod.collapse)
  have "r = None \<longleftrightarrow> bStatus res = Some 200" if "PushSecretToKeyVault s = (Done r, s')" for r s'
    by (rule azure.push_secret_error_iff [OF assms set]) (simp add: that)
  with True set show ?thesis by simp
next
  case False
  with assms have set: "SetSecret (Client (kv s)) (VaultUrl (kv s)) (ToLower (sName sec)) (sValue sec) (sExpires sec) (world s)
      = ((emptyBundle, Some (validationError ''SetSecret'' ''secretName'' (ToLower (sName sec)))), world s)"
    by (simp add: sdkSetSecret_invalid)
  from False show ?thesis
    by (simp add: PushSecret_run [OF assms(1) set] emptyBundle_def Let_def run_nilDeref)
qed

definition exampleVault :: "string \<Rightarrow> vault_view kvst" where
  "exampleVault name = \<lparr>trace = [], world = Map.empty,
     kv = \<lparr>Client = NewAzureKeyVaultClient memHttp ''t'', VaultUrl = ''u'',
       kvSecret = Some (emptyKvSecret\<lparr>sName := name, sValue := ''v''\<rparr>)\<rparr>\<rparr>"

theorem push_success_iff_200_witness:
  "\<exists>p. fst (PushSecretToKeyVault (exampleVault ''tls.crt'')) = Panicked p"
proof -
  have sec: "kvSecret (kv (exampleVault ''tls.crt'')) = Some (emptyKvSecret\<lparr>sName := ''tls.crt'', sValue := ''v''\<rparr>)"
    and client: "Client (kv (exampleVault ''tls.crt'')) = NewAzureKeyVaultClient memHttp ''t''"
    by (simp_all add: exampleVault_def)
  have "\<not> kv_name ''tls.crt''" by code_simp
  with push_success_iff_200 [OF sec client] show ?thesis by (simp del: kv_name_ToLower)
qed

text \<open>
  C31. A purge makes at most three requests, each failed one followed by its delay (5, 10, 20
  seconds), and it never reports a failure: it returns \<open>nil\<close> also when all three have failed.
\<close>

theorem purge_never_reports:
  assumes "kvSecret (kv s) = Some sec" and "PurgeDeletedSecretFromKeyVault K s = (Done r, s')"
  shows "r = None \<and> kv s' = kv s
    \<and> (trace s' = trace s @ purgeTrace (KvPurgeSecret (VaultUrl (kv s)) (ToLower (sName sec))) [0, 1, 2]
       \<or> (\<exists>k < 3. trace s' = trace s @ purgeTrace (KvPurgeSecret (VaultUrl (kv s)) (ToLower (sName sec))) (take k [0, 1, 2])
            @ [KvPurgeSecret (VaultUrl (kv s)) (ToLower (sName sec))]))"
proof -
  let ?e = "\<lambda>url. KvPurgeSecret url (ToLower (sName sec))"
  let ?f = "\<lambda>c url. PurgeDeletedSecret c url (ToLower (sName sec))"
  from assms have "purgeLoop K ?e ?f s = (Done r, s')"
    by (simp add: PurgeDeletedSecretFromKeyVault_def go_run Let_def)
  from purgeLoop_run [OF this] show ?thesis .
qed

theorem purge_never_reports_witness:
  "PurgeDeletedSecretFromKeyVault offlineKube (exampleVault ''tls'') =
     (Done None, (exampleVault ''tls'')\<lparr>trace := [KvPurgeSecret ''u'' ''tls'', Sleep (5 * Second),
        KvPurgeSecret ''u'' ''tls'', Sleep (10 * Second), KvPurgeSecret ''u'' ''tls'', Sleep (20 * Second)]\<rparr>)"
  (is "?run = (Done None, ?s')")
proof -
  have sec: "kvSecret (kv (exampleVault ''tls'')) = Some (emptyKvSecret\<lparr>sName := ''tls'', sValue := ''v''\<rparr>)"
    by (simp add: exampleVault_def)
  have run: "?run = (Done None, ?s')"
    by (simp add: PurgeDeletedSecretFromKeyVault_def purgeLoop_def attempts_list purgeAttempt_def go_run exampleVault_def
        emptyKvSecret_def Let_def timeSleep_def offlineKube_def sdkPurgeDeletedSecret_def sdkPurge_def memHttp_def
        sdkCall_def answer_def floatBackoff_purge ToLower_def lower_char_def)
  from purge_never_reports [OF sec run] run show ?thesis by simp
qed

text \<open>
  When \<open>CheckKVSecretExistence\<close> returns without an error, the bundle it leaves is the
  vault's value of this secret now, or empty when the vault has none: never the bundle of an
  earlier call. Name and value of the secret are kept.
\<close>

theorem CheckKV_reads_vault:
  assumes "kvSecret (kv s) = Some sec" and "serves_vault (Client (kv s)) view"
    and "CheckKVSecretExistence s = (Done None, s')"
  shows "\<exists>b. kv s' = (kv s)\<lparr>kvSecret := Some (sec\<lparr>sBundle := b\<rparr>)\<rparr>
    \<and> bValue b = view (world s) (VaultUrl (kv s), ToLower (sName sec)) \<and> view (world s') = view (world s)
    \<and> trace s' = trace s @ [KvGetSecret (VaultUrl (kv s)) (ToLower (sName sec))]"
  using CheckKV_done [OF assms] by blast

text \<open>
  \<open>DeleteSecretFromKeyVault\<close> reports success whatever the vault answers.
\<close>

theorem DeleteSecret_never_fails:
  assumes "kvSecret (kv s) = Some sec"
  shows "DeleteSecretFromKeyVault s = (Done None,
    s\<lparr>trace := trace s @ [KvDeleteSecret (VaultUrl (kv s)) (ToLower (sName sec))],
      world := snd (DeleteSecret (Client (kv s)) (VaultUrl (kv s)) (ToLower (sName sec)) (world s))\<rparr>)"
  using assms by (simp add: DeleteSecretFromKeyVault_def go_run Let_def case_prod_beta)

theorem CheckKV_reads_vault_witness:
  "\<exists>b s'. CheckKVSecretExistence (exampleVault ''tls'') = (Done None, s') \<and> bValue b = None
     \<and> kvSecret (kv s') = Some (emptyKvSecret\<lparr>sName := ''tls'', sValue := ''v'', sBundle := b\<rparr>)"
proof -
  have sec: "kvSecret (kv (exampleVault ''tls'')) = Some (emptyKvSecret\<lparr>sName := ''tls'', sValue := ''v''\<rparr>)"
    and law: "serves_vault (Client (kv (exampleVault ''tls''))) (\<lambda>w. w)"
    by (simp_all add: exampleVault_def memHttp_serves)
  have get: "GetSecret (Client (kv (exampleVault ''tls''))) (VaultUrl (kv (exampleVault ''tls'')))
      (ToLower (sName (emptyKvSecret\<lparr>sName := ''tls'', sValue := ''v''\<rparr>))) [] (world (exampleVault ''tls''))
      = ((\<lparr>bStatus = Some 404, bValue = None\<rparr>, Some (NewErrorWithError (PlainError ''error'') ''GetSecret'' (Some 404)
          ''Failure responding to request'')), Map.empty)"
    by (simp add: exampleVault_def sdkGetSecret_def memHttp_def sdkCall_def answer_def)
  have "fst (CheckKVSecretExistence (exampleVault ''tls'')) = Done None"
    using CheckKV_run [OF sec get] by (simp add: Let_def isDetailed404_def NewErrorWithError_def)
  then obtain s' where run: "CheckKVSecretExistence (exampleVault ''tls'') = (Done None, s')"
    by (metis prod.collapse)
  from CheckKV_reads_vault [OF sec law run] run show ?thesis
    by (auto simp: exampleVault_def)
qed

theorem DeleteSecret_never_fails_witness:
  "fst (DeleteSecretFromKeyVault (exampleVault ''tls'')) = Done None"
proof -
  have "kvSecret (kv (exampleVault ''tls'')) = Some (emptyKvSecret\<lparr>sName := ''tls'', sValue := ''v''\<rparr>)"
    by (simp add: exampleVault_def)
  from DeleteSecret_never_fails [OF this] show ?thesis by simp
qed

end
