(* ===== verification/Workload_Identity.thy ===== *)
theory Workload_Identity
  imports Go_World
begin

text \<open>
  \<open>internal/shared/providers/azure/auth/workloadid.go\<close>: how the operator authenticates with
  Azure. The Kubernetes API issues a token for the service account, which Microsoft's
  authentication library (a parameter: \<open>msal\<close>) exchanges for an access token.
\<close>

section \<open>The receiver\<close>

definition AzureDefaultAudience :: string where
  "AzureDefaultAudience = ''api://AzureADTokenExchange''"

text \<open>\<open>azure.PublicCloud\<close> of the vendored \<open>go-autorest\<close>\<close>

definition ActiveDirectoryEndpoint :: string where
  "ActiveDirectoryEndpoint = ''https://login.microsoftonline.com/''"
definition KeyVaultEndpoint :: string where
  "KeyVaultEndpoint = ''https://vault.azure.net/''"

text \<open>A token provider holds an access token, and gives it out.\<close>

record tokenProvider =
  accessToken :: string

definition OAuthToken :: "tokenProvider \<Rightarrow> string" where
  "OAuthToken t = accessToken t"

text \<open>
  A bearer authorizer (\<open>autorest.NewBearerAuthorizer\<close>) adds to each request the token that its token
  provider gives out, which never changes: it stands for that token.
\<close>

record WorkloadID =
  waServiceAccount :: ServiceAccount
  SaAudiences :: "string list"
  Authorizer :: "string option"

text \<open>
  \<open>confidential.New\<close> (checks the authority, makes no request) and \<open>AcquireTokenByCredential\<close>
  with the authority, the client id, the assertion the callback gives and the scope.
\<close>

record 'w msal =
  confidential_New :: "string \<Rightarrow> string \<Rightarrow> go_error option"
  AcquireTokenByCredential :: "string \<Rightarrow> string \<Rightarrow> string \<Rightarrow> string \<Rightarrow> 'w \<Rightarrow> (go_error + string) \<times> 'w"

section \<open>Operations\<close>

definition scopeFor :: "string \<Rightarrow> string" where
  "scopeFor kvResource =
     (if \<not> Contains kvResource ''.default'' then kvResource @ ''/.default'' else kvResource)"

definition NewTokenProvider :: "'w msal \<Rightarrow> string \<Rightarrow> string \<Rightarrow> string \<Rightarrow> string \<Rightarrow> string \<Rightarrow>
    (('w, 'z) st_scheme, go_error + tokenProvider) go" where
  "NewTokenProvider M token clientID tenantID aadEndpoint kvResource =
     (let authority = aadEndpoint @ tenantID @ ''/oauth2/token'' in
      case confidential_New M authority clientID of
        Some err \<Rightarrow> ret (Inl err)
      | None \<Rightarrow>
          (let scope = scopeFor kvResource in
           andThen (call (\<lambda>_. AcquireToken authority clientID token scope)
                      (AcquireTokenByCredential M authority clientID token scope)) (\<lambda>r. case r of
             Inl err \<Rightarrow> ret (Inl err)
           | Inr access \<Rightarrow> ret (Inr \<lparr>accessToken = access\<rparr>))))"

definition FetchSAToken :: "'w kube \<Rightarrow> string \<Rightarrow> string \<Rightarrow> string list \<Rightarrow> (('w, 'z) st_scheme, go_error + string) go" where
  "FetchSAToken K namespace saName audiences =
     andThen (csCreateToken K namespace saName audiences) (\<lambda>r. case r of
       Inl err \<Rightarrow> ret (Inl err)
     | Inr token \<Rightarrow> ret (Inr token))"

definition annotation :: "ServiceAccount \<Rightarrow> string \<Rightarrow> string option" where
  "annotation sa k = (case Annotations (saMeta sa) of None \<Rightarrow> None | Some m \<Rightarrow> map_of m k)"

definition tokenAudiences :: "string list \<Rightarrow> string list" where
  "tokenAudiences saAudiences =
     (let audiences = [AzureDefaultAudience] in
      if 0 < length saAudiences then audiences @ saAudiences else audiences)"

text \<open>The method returns the receiver it has changed beside its error.\<close>

definition AuthorizerForWorkloadIdentity :: "'w kube \<Rightarrow> 'w msal \<Rightarrow> WorkloadID \<Rightarrow>
    (('w, 'z) st_scheme, WorkloadID \<times> go_error option) go" where
  "AuthorizerForWorkloadIdentity K M aza =
     (let namespace = Namespace (saMeta (waServiceAccount aza));
          saName = Name (saMeta (waServiceAccount aza)) in
      case annotation (waServiceAccount aza) ''azure.workload.identity/client-id'' of
        None \<Rightarrow> ret (aza, Some (PlainError ''client ID annotation not found''))
      | Some clientID \<Rightarrow>
     (case annotation (waServiceAccount aza) ''azure.workload.identity/tenant-id'' of
        None \<Rightarrow> ret (aza, Some (PlainError ''tenant ID annotation not found''))
      | Some tenantID \<Rightarrow>
          andThen (FetchSAToken K namespace saName (tokenAudiences (SaAudiences aza))) (\<lambda>r. case r of
            Inl err \<Rightarrow> ret (aza, Some err)
          | Inr token \<Rightarrow>
              andThen (NewTokenProvider M token clientID tenantID ActiveDirectoryEndpoint KeyVaultEndpoint) (\<lambda>r. case r of
                Inl err \<Rightarrow> ret (aza, Some err)
              | Inr tp \<Rightarrow> ret (aza\<lparr>Authorizer := Some (OAuthToken tp)\<rparr>, None)))))"

section \<open>Lemmas\<close>

lemma tokenAudiences_eq: "tokenAudiences auds = AzureDefaultAudience # auds"
  by (simp add: tokenAudiences_def Let_def)

lemma scopeFor_vault: "scopeFor KeyVaultEndpoint = ''https://vault.azure.net//.default''"
  by code_simp

lemma AuthorizerForWorkloadIdentity_adds [go_adds]:
  assumes "\<And>auds. P (ClientsetCreateToken (Namespace (saMeta (waServiceAccount aza))) (Name (saMeta (waServiceAccount aza))) auds)"
    and "\<And>a c t sc. P (AcquireToken a c t sc)"
  shows "adds P (AuthorizerForWorkloadIdentity K M aza)"
  using assms
  by (auto simp: AuthorizerForWorkloadIdentity_def FetchSAToken_def csCreateToken_def NewTokenProvider_def Let_def
      intro!: go_adds)

section \<open>Properties\<close>

text \<open>
  C32. Authentication succeeds only for a service account with both annotations, and then it
  has made exactly two requests: a service account token for the default audience followed by
  the configured ones, and its exchange under the annotated client and tenant for the scope of
  Key Vault. The authorizer it returns holds the token of that exchange, and is otherwise the value the call was made on.
\<close>

theorem authorizer_requests:
  assumes "AuthorizerForWorkloadIdentity K M aza s = (Done (aza', None), s')"
  shows "\<exists>clientID tenantID token access.
      annotation (waServiceAccount aza) ''azure.workload.identity/client-id'' = Some clientID
    \<and> annotation (waServiceAccount aza) ''azure.workload.identity/tenant-id'' = Some tenantID
    \<and> aza' = aza\<lparr>Authorizer := Some access\<rparr>
    \<and> trace s' = trace s @
        [ClientsetCreateToken (Namespace (saMeta (waServiceAccount aza))) (Name (saMeta (waServiceAccount aza)))
           (AzureDefaultAudience # SaAudiences aza),
         AcquireToken (''https://login.microsoftonline.com/'' @ tenantID @ ''/oauth2/token'') clientID token
           ''https://vault.azure.net//.default'']
    \<and> fst (cs_create_token K (Namespace (saMeta (waServiceAccount aza))) (Name (saMeta (waServiceAccount aza)))
        (AzureDefaultAudience # SaAudiences aza) (world s)) = Inr token
    \<and> fst (AcquireTokenByCredential M (''https://login.microsoftonline.com/'' @ tenantID @ ''/oauth2/token'') clientID token
        ''https://vault.azure.net//.default'' (snd (cs_create_token K (Namespace (saMeta (waServiceAccount aza)))
          (Name (saMeta (waServiceAccount aza))) (AzureDefaultAudience # SaAudiences aza) (world s)))) = Inr access"
  using assms
  by (auto simp: AuthorizerForWorkloadIdentity_def FetchSAToken_def csCreateToken_def NewTokenProvider_def Let_def
      go_run scopeFor_vault tokenAudiences_eq ActiveDirectoryEndpoint_def OAuthToken_def split: option.splits sum.splits)

definition exampleServiceAccount :: ServiceAccount where
  "exampleServiceAccount = \<lparr>saMeta = emptyMeta\<lparr>Name := ''sa'', Namespace := ''prod'',
     Annotations := Some [(''azure.workload.identity/client-id'', ''c''), (''azure.workload.identity/tenant-id'', ''t'')]\<rparr>\<rparr>"

lemma exampleServiceAccount_simps [simp]:
  "annotation exampleServiceAccount ''azure.workload.identity/client-id'' = Some ''c''"
  "annotation exampleServiceAccount ''azure.workload.identity/tenant-id'' = Some ''t''"
  "Name (saMeta exampleServiceAccount) = ''sa''" "Namespace (saMeta exampleServiceAccount) = ''prod''"
  by (simp_all add: annotation_def exampleServiceAccount_def)

definition exampleMsal :: "'w msal" where
  "exampleMsal = \<lparr>confidential_New = \<lambda>_ _. None, AcquireTokenByCredential = \<lambda>_ _ _ _ w. (Inr ''access'', w)\<rparr>"

theorem authorizer_requests_witness:
  "\<exists>token. trace (snd (AuthorizerForWorkloadIdentity (offlineKube\<lparr>cs_create_token := \<lambda>_ _ _ w. (Inr ''jwt'', w)\<rparr>) exampleMsal
      \<lparr>waServiceAccount = exampleServiceAccount, SaAudiences = [''x''], Authorizer = None\<rparr> \<lparr>trace = [], world = ()\<rparr>))
   = [ClientsetCreateToken ''prod'' ''sa'' [AzureDefaultAudience, ''x''],
      AcquireToken ''https://login.microsoftonline.com/t/oauth2/token'' ''c'' token ''https://vault.azure.net//.default'']"
proof -
  let ?K = "offlineKube\<lparr>cs_create_token := \<lambda>_ _ _ w. (Inr ''jwt'', w)\<rparr>"
  let ?aza = "\<lparr>waServiceAccount = exampleServiceAccount, SaAudiences = [''x''], Authorizer = None\<rparr>"
  have "fst (AuthorizerForWorkloadIdentity ?K exampleMsal ?aza \<lparr>trace = [], world = ()\<rparr>)
      = Done (?aza\<lparr>Authorizer := Some ''access''\<rparr>, None)"
    by (simp add: AuthorizerForWorkloadIdentity_def FetchSAToken_def csCreateToken_def NewTokenProvider_def
        go_run exampleMsal_def OAuthToken_def Let_def)
  then obtain s' where run: "AuthorizerForWorkloadIdentity ?K exampleMsal ?aza \<lparr>trace = [], world = ()\<rparr>
      = (Done (?aza\<lparr>Authorizer := Some ''access''\<rparr>, None), s')" by (metis prod.collapse)
  from authorizer_requests [OF run] run show ?thesis by auto
qed

end
