(* ===== verification/Go_Pem.thy ===== *)
theory Go_Pem
  imports Go_Base64
begin

text \<open>
  \<open>encoding/pem\<close> of Go's standard library (Go 1.24), as the openssl component uses it:
  \<open>Decode\<close>, which finds the next block in a text and returns what follows it, and \<open>Encode\<close> for
  a block without headers.
\<close>

section \<open>Bytes\<close>

definition has_suffix :: "string \<Rightarrow> string \<Rightarrow> bool" where
  "has_suffix s suf \<longleftrightarrow> has_prefix (rev s) (rev suf)"

text \<open>\<open>bytes.Cut\<close>: the text before and after the first occurrence of the separator.\<close>

fun bytesCut :: "string \<Rightarrow> string \<Rightarrow> (string \<times> string) option" where
  "bytesCut sep [] = (if sep = [] then Some ([], []) else None)"
| "bytesCut sep (c # s) =
     (if has_prefix (c # s) sep then Some ([], drop (length sep) (c # s))
      else map_option (\<lambda>(before, after). (c # before, after)) (bytesCut sep s))"

definition LF :: char where "LF = CHR 0x0A"
definition CR :: char where "CR = CHR 0x0D"

definition blank :: "char \<Rightarrow> bool" where "blank c \<longleftrightarrow> c = CHR '' '' \<or> c = CHR 0x09"

definition TrimRightBlank :: "string \<Rightarrow> string" where
  "TrimRightBlank s = rev (dropWhile blank (rev s))"

text \<open>The first line, without its end (\<open>\n\<close> or \<open>\r\n\<close>) and trailing blanks, and what follows.\<close>

definition dropCR :: "string \<Rightarrow> string" where
  "dropCR s = (if s \<noteq> [] \<and> last s = CR then butlast s else s)"

definition getLine :: "string \<Rightarrow> string \<times> string" where
  "getLine data =
     (case bytesCut [LF] data of
        None \<Rightarrow> (TrimRightBlank data, [])
      | Some (line, rest) \<Rightarrow> (TrimRightBlank (dropCR line), rest))"

section \<open>Decode\<close>

definition pemStart :: string where "pemStart = LF # ''-----BEGIN ''"
definition pemEnd :: string where "pemEnd = LF # ''-----END ''"
definition pemEndOfLine :: string where "pemEndOfLine = ''-----''"

lemma cut_length: "bytesCut sep s = Some (b, a) \<Longrightarrow> length s = length b + length sep + length a"
proof (induction s arbitrary: b)
  case Nil
  then show ?case by (simp split: if_splits)
next
  case (Cons c s)
  have len: "has_prefix t p \<Longrightarrow> length p \<le> length t" for t p
    by (induction t p rule: has_prefix.induct) auto
  show ?case
  proof (cases "has_prefix (c # s) sep")
    case True
    with Cons.prems len [OF True] show ?thesis by auto
  next
    case False
    with Cons show ?thesis by auto
  qed
qed

lemma getLine_length: "getLine s = (line, r) \<Longrightarrow> length r \<le> length s"
  by (auto simp: getLine_def split: option.splits prod.splits dest: cut_length)

lemma getLine_shorter: "getLine s = (line, r) \<Longrightarrow> s \<noteq> [] \<Longrightarrow> length r < length s"
  by (auto simp: getLine_def split: option.splits prod.splits dest: cut_length)

text \<open>
  The header lines, those with a colon: were there any, and the text after them; \<^const>\<open>None\<close> at
  the end of the input. (The program does not look at the headers.)
\<close>

function skipHeaders :: "bool \<Rightarrow> string \<Rightarrow> (bool \<times> string) option" where
  "skipHeaders seen rest =
     (if rest = [] then None
      else (case getLine rest of (line, next) \<Rightarrow>
        (case bytesCut '':'' line of
           None \<Rightarrow> Some (seen, rest)
         | Some _ \<Rightarrow> skipHeaders True next)))"
  by pat_completeness auto
termination
  by (relation "measure (\<lambda>(_, rest). length rest)") (auto dest: sym [THEN getLine_shorter])

declare skipHeaders.simps [simp del]

lemma skipHeaders_length: "skipHeaders seen rest = Some (h, r) \<Longrightarrow> length r \<le> length rest"
proof (induction seen rest rule: skipHeaders.induct)
  case (1 seen rest)
  obtain line next' where gl: "getLine rest = (line, next')" by fastforce
  show ?case
  proof (cases "rest = [] \<or> bytesCut '':'' line = None")
    case True
    with 1(2) gl show ?thesis by (auto simp: skipHeaders.simps [of seen rest] split: if_splits)
  next
    case False
    then obtain x where "bytesCut '':'' line = Some x" by auto
    with False 1(2) gl have "length r \<le> length next'"
      by (intro 1(1) [OF _ gl [symmetric]]) (auto simp: skipHeaders.simps [of seen rest])
    with getLine_length [OF gl] show ?thesis by simp
  qed
qed

text \<open>The end line of a block of the given type; the text before it and the rest of the input.\<close>

definition pemBody :: "bool \<Rightarrow> string \<Rightarrow> string \<Rightarrow> (string \<times> string) option" where
  "pemBody headers ty rest =
     (case (if \<not> headers \<and> has_prefix rest (tl pemEnd)
            then Some ([], drop (length pemEnd - 1) rest) else bytesCut pemEnd rest) of
        None \<Rightarrow> None
      | Some (body, trailer) \<Rightarrow>
          (let n = length ty + length pemEndOfLine; endTrailer = take n trailer in
           if length trailer < n then None
           else if \<not> has_prefix endTrailer ty \<or> \<not> has_suffix endTrailer pemEndOfLine then None
           else if fst (getLine (drop n trailer)) \<noteq> [] then None
           else Some (body, snd (getLine trailer))))"

text \<open>
  One round of the scan: no start line is left (or the input ends in a block), the search goes
  on in a shorter text, or a block has been read.
\<close>

datatype pem_step = NoBlock | Continue string | Block string bytes string

definition findStart :: "string \<Rightarrow> string option" where
  "findStart rest =
     (if has_prefix rest (tl pemStart) then Some (drop (length pemStart - 1) rest)
      else map_option snd (bytesCut pemStart rest))"

definition readBlock :: "string \<Rightarrow> string \<Rightarrow> pem_step" where
  "readBlock ty afterLine =
     (case skipHeaders False afterLine of
        None \<Rightarrow> NoBlock
      | Some (headers, body) \<Rightarrow>
          (case pemBody headers ty body of
             None \<Rightarrow> Continue body
           | Some (text, rest') \<Rightarrow>
               (case base64Decode (filter (\<lambda>c. \<not> blank c) text) of
                  None \<Rightarrow> Continue body
                | Some bs \<Rightarrow> Block ty bs rest')))"

definition pemStep :: "string \<Rightarrow> pem_step" where
  "pemStep rest =
     (case findStart rest of
        None \<Rightarrow> NoBlock
      | Some afterStart \<Rightarrow>
          (case getLine afterStart of (typeLine, afterLine) \<Rightarrow>
             if \<not> has_suffix typeLine pemEndOfLine then Continue afterLine
             else readBlock (take (length typeLine - length pemEndOfLine) typeLine) afterLine))"

lemma findStart_shorter: "findStart rest = Some r \<Longrightarrow> length r < length rest"
  by (cases rest) (auto simp: findStart_def pemStart_def split: if_splits dest: cut_length)

lemma pemBody_length: "pemBody h t rest = Some (b, r) \<Longrightarrow> length r \<le> length rest"
proof -
  assume *: "pemBody h t rest = Some (b, r)"
  then obtain body trailer where
    c: "(if \<not> h \<and> has_prefix rest (tl pemEnd) then Some ([], drop (length pemEnd - 1) rest) else bytesCut pemEnd rest)
      = Some (body, trailer)" and r: "r = snd (getLine trailer)"
    by (auto simp: pemBody_def Let_def split: option.splits if_splits)
  from c have "length trailer \<le> length rest" by (auto split: if_splits dest: cut_length)
  with r getLine_length [of trailer "fst (getLine trailer)" r] show ?thesis by simp
qed

lemma readBlock_length:
  "readBlock ty s = Continue r \<or> readBlock ty s = Block t bs r \<Longrightarrow> length r \<le> length s"
  by (auto simp: readBlock_def split: option.splits prod.splits dest!: skipHeaders_length pemBody_length)

lemma pemStep_shorter:
  assumes "pemStep rest = Continue r \<or> pemStep rest = Block t bs r"
  shows "length r < length rest"
proof -
  from assms obtain a where a: "findStart rest = Some a" by (auto simp: pemStep_def split: option.splits)
  obtain tl' al where gl: "getLine a = (tl', al)" by fastforce
  from assms a gl have "length r \<le> length al"
    using readBlock_length [of _ al r t bs] by (auto simp: pemStep_def split: if_splits)
  with findStart_shorter [OF a] getLine_length [OF gl] show ?thesis by simp
qed

function pemScan :: "string \<Rightarrow> string \<Rightarrow> (string \<times> bytes) option \<times> string" where
  "pemScan data rest =
     (case pemStep rest of
        NoBlock \<Rightarrow> (None, data)
      | Continue rest' \<Rightarrow> pemScan data rest'
      | Block ty bs rest' \<Rightarrow> (Some (ty, bs), rest'))"
  by pat_completeness auto
termination
  by (relation "measure (\<lambda>(_, rest). length rest)") (auto intro: pemStep_shorter)

declare pemScan.simps [simp del]

definition pemDecode :: "string \<Rightarrow> (string \<times> bytes) option \<times> string" where
  "pemDecode data = pemScan data data"

section \<open>Encode\<close>

text \<open>Lines of 64 characters, each with its newline.\<close>

function breakLines :: "string \<Rightarrow> string" where
  "breakLines s = (if s = [] then [] else take 64 s @ LF # breakLines (drop 64 s))"
  by pat_completeness auto
termination
  by (relation "measure length") auto

declare breakLines.simps [simp del]

definition pemEncode :: "string \<Rightarrow> bytes \<Rightarrow> string" where
  "pemEncode ty bs =
     ''-----BEGIN '' @ ty @ ''-----'' @ [LF] @ breakLines (base64Encode bs)
     @ ''-----END '' @ ty @ ''-----'' @ [LF]"

section \<open>Decoding consumes input\<close>

lemma pemScan_shorter: "pemScan data rest = (Some b, r) \<Longrightarrow> length r < length rest"
proof (induction data rest rule: pemScan.induct)
  case (1 data rest)
  show ?case
  proof (cases "pemStep rest")
    case NoBlock
    with 1(2) show ?thesis by (simp add: pemScan.simps [of data rest])
  next
    case (Continue r')
    with 1 have "length r < length r'" by (simp add: pemScan.simps [of data rest])
    with pemStep_shorter [of rest r'] Continue show ?thesis by simp
  next
    case (Block t bs r')
    with 1(2) pemStep_shorter [of rest r' t bs] show ?thesis by (simp add: pemScan.simps [of data rest])
  qed
qed

lemma pemDecode_shorter: "pemDecode data = (Some b, rest) \<Longrightarrow> length rest < length data"
  unfolding pemDecode_def by (rule pemScan_shorter)

section \<open>Round trip\<close>

lemma bytesCut_absent: "c \<notin> set s \<Longrightarrow> bytesCut [c] s = None"
  by (induction s) auto

lemma bytesCut_char: "c \<notin> set s \<Longrightarrow> bytesCut [c] (s @ c # t) = Some (s, t)"
  by (induction s) auto

lemma getLine_line:
  assumes "LF \<notin> set l"
  shows "getLine (l @ LF # t) = (TrimRightBlank (dropCR l), t)"
  by (simp add: getLine_def bytesCut_char [OF assms])

lemma set_trimmed: "set (TrimRightBlank (dropCR l)) \<subseteq> set l"
  by (auto simp: TrimRightBlank_def dropCR_def dest!: set_dropWhileD in_set_butlastD split: if_splits)

lemma trim_dashes: "TrimRightBlank (dropCR (t @ ''-----'')) = t @ ''-----''"
  by (simp add: TrimRightBlank_def dropCR_def blank_def CR_def)

lemma has_suffix_append: "has_suffix (t @ s) s"
  by (simp add: has_suffix_def has_prefix_append)

lemma has_prefix_self: "has_prefix s s"
  using has_prefix_append [of s "[]"] by simp

lemma bytesCut_pemEnd:
  "CHR ''-'' \<notin> set w \<Longrightarrow> bytesCut pemEnd (w @ pemEnd @ t) = Some (w, t)"
proof (induction w)
  case Nil
  show ?case by (simp add: pemEnd_def has_prefix_append)
next
  case (Cons c w)
  have "\<not> has_prefix ((c # w) @ pemEnd @ t) pemEnd"
  proof (cases w)
    case Nil
    then show ?thesis by (simp add: pemEnd_def LF_def)
  next
    case (Cons d w')
    with Cons.prems show ?thesis by (auto simp: pemEnd_def)
  qed
  with Cons show ?case by simp
qed

lemma encode_chars:
  assumes "c \<in> set (base64Encode bs)"
  shows "c \<noteq> CHR ''-'' \<and> c \<noteq> CHR '':'' \<and> \<not> blank c \<and> \<not> newline c"
proof -
  have "charSextet c \<noteq> None \<or> c = padChar"
    using decodeQuanta_chars [OF decodeQuanta_encode assms] .
  moreover have "charSextet d = None" if "d = CHR ''-'' \<or> d = CHR '':'' \<or> blank d" for d
    using that by (auto simp: charSextet_def blank_def)
  moreover have "padChar \<noteq> CHR ''-''" "padChar \<noteq> CHR '':''" "\<not> blank padChar"
    by (simp_all add: padChar_def blank_def)
  ultimately show ?thesis using encode_no_newline assms by metis
qed

lemma breakLines_shape:
  assumes "s \<noteq> []"
  obtains w where "breakLines s = w @ [LF]" and "w \<noteq> []" and "hd w = hd s"
    and "\<And>c. c \<in> set w \<Longrightarrow> c \<in> set s \<or> c = LF" and "filter (\<lambda>c. c \<noteq> LF) w = filter (\<lambda>c. c \<noteq> LF) s"
  using assms
proof (induction s arbitrary: thesis rule: breakLines.induct)
  case (1 s)
  show ?case
  proof (cases "drop 64 s = []")
    case True
    then have "breakLines s = s @ [LF]"
      using 1(3) by (simp add: breakLines.simps [of s] breakLines.simps [of "[]"])
    with 1(2) [of s] 1(3) show ?thesis by simp
  next
    case False
    from 1(1) [OF 1(3) _ False] obtain w where w: "breakLines (drop 64 s) = w @ [LF]"
      and sub: "\<And>c. c \<in> set w \<Longrightarrow> c \<in> set (drop 64 s) \<or> c = LF"
      and fil: "filter (\<lambda>c. c \<noteq> LF) w = filter (\<lambda>c. c \<noteq> LF) (drop 64 s)"
      by blast
    let ?w = "take 64 s @ LF # w"
    show ?thesis
    proof (rule 1(2) [of ?w])
      show "breakLines s = ?w @ [LF]" using 1(3) w by (simp add: breakLines.simps [of s])
      show "?w \<noteq> []" by simp
      show "hd ?w = hd s" using 1(3) by (cases s) simp_all
      show "c \<in> set s \<or> c = LF" if "c \<in> set ?w" for c
        using that sub by (auto dest: in_set_takeD in_set_dropD)
      show "filter (\<lambda>c. c \<noteq> LF) ?w = filter (\<lambda>c. c \<noteq> LF) s"
        using fil by (metis (mono_tags, lifting) append_take_drop_id filter.simps(2) filter_append)
    qed
  qed
qed

text \<open>The first line of a body has no colon, so the body has no headers.\<close>

lemma no_headers:
  assumes "LF \<notin> set l" and "CHR '':'' \<notin> set l"
  shows "skipHeaders False (l @ LF # t) = Some (False, l @ LF # t)"
proof -
  have "CHR '':'' \<notin> set (TrimRightBlank (dropCR l))" using set_trimmed assms(2) by blast
  then show ?thesis
    by (simp add: skipHeaders.simps [of False "l @ LF # t"] getLine_line [OF assms(1)] bytesCut_absent)
qed

lemma pemBody_trailer:
  assumes "LF \<notin> set ty"
    and "(if has_prefix rest (tl pemEnd) then Some ([], drop (length pemEnd - 1) rest) else bytesCut pemEnd rest)
      = Some (w, ty @ ''-----'' @ LF # t)"
  shows "pemBody False ty rest = Some (w, t)"
proof -
  have eol: "getLine (ty @ ''-----'' @ LF # t) = (ty @ ''-----'', t)"
    using getLine_line [of "ty @ ''-----''" t] assms(1) trim_dashes [of ty] by (simp add: LF_def)
  have "getLine (LF # t) = ([], t)"
    by (simp add: getLine_def TrimRightBlank_def dropCR_def)
  then show ?thesis
    using assms(2) eol
    by (simp add: pemBody_def Let_def pemEndOfLine_def has_prefix_append has_suffix_append)
qed

lemma pemBody_encoded:
  assumes "LF \<notin> set ty"
  shows "\<exists>w. pemBody False ty (breakLines (base64Encode bs) @ ''-----END '' @ ty @ ''-----'' @ LF # t) = Some (w, t)
    \<and> base64Decode (filter (\<lambda>c. \<not> blank c) w) = Some bs"
proof (cases "bs = []")
  case True
  have "pemBody False ty (''-----END '' @ ty @ ''-----'' @ LF # t) = Some ([], t)"
    by (rule pemBody_trailer [OF assms]) (simp add: pemEnd_def has_prefix_append)
  with True show ?thesis by (simp add: breakLines.simps [of "[]"] base64Decode_def)
next
  case False
  then have ne: "base64Encode bs \<noteq> []" by (cases bs rule: base64Encode.cases) simp_all
  obtain w where w: "breakLines (base64Encode bs) = w @ [LF]" "w \<noteq> []" "hd w = hd (base64Encode bs)"
    and sub: "\<And>c. c \<in> set w \<Longrightarrow> c \<in> set (base64Encode bs) \<or> c = LF"
    and fil: "filter (\<lambda>c. c \<noteq> LF) w = filter (\<lambda>c. c \<noteq> LF) (base64Encode bs)"
    using breakLines_shape [OF ne] by blast
  have nodash: "CHR ''-'' \<notin> set w" and noblank: "\<forall>c \<in> set w. \<not> blank c"
    using sub encode_chars [of _ bs] by (auto simp: LF_def blank_def)
  have nonl: "newline c = (c = LF)" if "c \<in> set w" for c
    using sub [OF that] encode_chars [of c bs] by (auto simp: newline_def LF_def)
  from w(2) nodash obtain d w' where dw: "w = d # w'" "d \<noteq> CHR ''-''" by (cases w) auto
  have cutw: "bytesCut pemEnd (w @ pemEnd @ ty @ ''-----'' @ LF # t) = Some (w, ty @ ''-----'' @ LF # t)"
    by (rule bytesCut_pemEnd [OF nodash])
  have "pemBody False ty (w @ pemEnd @ ty @ ''-----'' @ LF # t) = Some (w, t)"
  proof (rule pemBody_trailer [OF assms])
    have "\<not> has_prefix (w @ pemEnd @ ty @ ''-----'' @ LF # t) (tl pemEnd)"
      using dw by (simp add: pemEnd_def)
    then show "(if has_prefix (w @ pemEnd @ ty @ ''-----'' @ LF # t) (tl pemEnd)
        then Some ([], drop (length pemEnd - 1) (w @ pemEnd @ ty @ ''-----'' @ LF # t))
        else bytesCut pemEnd (w @ pemEnd @ ty @ ''-----'' @ LF # t)) = Some (w, ty @ ''-----'' @ LF # t)"
      using cutw by simp
  qed
  moreover have "filter (\<lambda>c. \<not> blank c) w = w" using noblank by (simp add: filter_id_conv)
  moreover have "filter (\<lambda>c. \<not> newline c) w = base64Encode bs"
  proof -
    have "filter (\<lambda>c. \<not> newline c) w = filter (\<lambda>c. c \<noteq> LF) w" using nonl by (intro filter_cong) auto
    also have "\<dots> = base64Encode bs" using fil encode_no_newline [of bs] by (auto simp: filter_id_conv newline_def LF_def)
    finally show ?thesis .
  qed
  ultimately have "base64Decode (filter (\<lambda>c. \<not> blank c) w) = Some bs"
    by (simp only: base64Decode_def decodeQuanta_encode)
  moreover have "breakLines (base64Encode bs) @ ''-----END '' @ ty @ ''-----'' @ LF # t = w @ pemEnd @ ty @ ''-----'' @ LF # t"
    by (simp add: w(1) pemEnd_def)
  ultimately show ?thesis
    using \<open>pemBody False ty (w @ pemEnd @ ty @ ''-----'' @ LF # t) = Some (w, t)\<close> by metis
qed

lemma readBlock_encoded:
  assumes "LF \<notin> set ty" and "CHR '':'' \<notin> set ty"
  shows "readBlock ty (breakLines (base64Encode bs) @ ''-----END '' @ ty @ ''-----'' @ LF # t) = Block ty bs t"
proof -
  let ?body = "breakLines (base64Encode bs) @ ''-----END '' @ ty @ ''-----'' @ LF # t"
  have "\<exists>l u. ?body = l @ LF # u \<and> LF \<notin> set l \<and> CHR '':'' \<notin> set l"
  proof (cases "base64Encode bs = []")
    case True
    with assms show ?thesis
      by (intro exI [of _ "''-----END '' @ ty @ ''-----''"] exI [of _ t]) (simp add: breakLines.simps [of "[]"] LF_def)
  next
    case False
    have "c \<noteq> LF \<and> c \<noteq> CHR '':''" if "c \<in> set (take 64 (base64Encode bs))" for c
      using encode_chars [OF in_set_takeD [OF that]] by (auto simp: newline_def LF_def)
    with False show ?thesis
      by (intro exI [of _ "take 64 (base64Encode bs)"] exI conjI)
        (auto simp: breakLines.simps [of "base64Encode bs"])
  qed
  then have "skipHeaders False ?body = Some (False, ?body)" using no_headers by metis
  with pemBody_encoded [OF assms(1), of bs t] show ?thesis by (auto simp: readBlock_def)
qed

text \<open>A block read back is the block written, and the rest of the input follows it.\<close>

lemma pem_roundtrip:
  assumes "LF \<notin> set ty" and "CHR '':'' \<notin> set ty"
  shows "pemDecode (pemEncode ty bs @ rest) = (Some (ty, bs), rest)"
proof -
  let ?body = "breakLines (base64Encode bs) @ ''-----END '' @ ty @ ''-----'' @ LF # rest"
  have start: "findStart (pemEncode ty bs @ rest) = Some (ty @ ''-----'' @ LF # ?body)"
    by (simp add: findStart_def pemStart_def pemEncode_def has_prefix_append)
  have line: "getLine (ty @ ''-----'' @ LF # ?body) = (ty @ ''-----'', ?body)"
    using getLine_line [of "ty @ ''-----''" ?body] assms(1) trim_dashes [of ty] by (simp add: LF_def)
  have "pemStep (pemEncode ty bs @ rest) = readBlock ty ?body"
    unfolding pemStep_def start option.case line prod.case
    by (simp only: pemEndOfLine_def has_suffix_append not_True_eq_False if_False length_append add_diff_cancel_right'
        take_append diff_self_eq_0 take_all le_refl take_0 append_Nil2 diff_diff_cancel)
  with readBlock_encoded [OF assms] show ?thesis
    by (simp add: pemDecode_def pemScan.simps)
qed

text \<open>A text without a start line holds no block.\<close>

lemma pemDecode_no_dash: "CHR ''-'' \<notin> set s \<Longrightarrow> pemDecode s = (None, s)"
proof -
  assume d: "CHR ''-'' \<notin> set s"
  have "bytesCut pemStart s = None"
    using d
  proof (induction s)
    case (Cons c s)
    have "\<not> has_prefix (c # s) pemStart" using Cons.prems by (cases s) (auto simp: pemStart_def)
    with Cons show ?case by simp
  qed (simp add: pemStart_def)
  moreover have "\<not> has_prefix s (tl pemStart)" using d by (cases s) (auto simp: pemStart_def)
  ultimately show ?thesis by (simp add: pemDecode_def pemScan.simps pemStep_def findStart_def)
qed

end
