(* ===== verification/Openssl.thy ===== *)
theory Openssl
  imports Go_World Go_Pem
begin

text \<open>
  \<open>internal/shared/openssl\<close>: reading the expiration date of a certificate, decoding a PEM
  bundle, and converting it to PKCS#12, the last two steps with the \<open>openssl\<close> program on
  temporary files. The operating system, the parsers of \<open>crypto/x509\<close> and \<open>time.Parse\<close> are
  parameters; deferred calls run on every path, as in Go.
\<close>

section \<open>Surroundings\<close>

record 'w os =
  os_CreateTemp :: "string \<Rightarrow> 'w \<Rightarrow> (go_error + string) \<times> 'w"
  os_Write :: "string \<Rightarrow> bytes \<Rightarrow> 'w \<Rightarrow> go_error option \<times> 'w"
  os_Sync :: "string \<Rightarrow> 'w \<Rightarrow> go_error option \<times> 'w"
  os_Close :: "string \<Rightarrow> 'w \<Rightarrow> go_error option \<times> 'w"
  os_Remove :: "string \<Rightarrow> 'w \<Rightarrow> go_error option \<times> 'w"
  os_Run :: "string list \<Rightarrow> 'w \<Rightarrow> (bytes \<times> go_error option) \<times> 'w"
  os_ReadFile :: "string \<Rightarrow> 'w \<Rightarrow> (go_error + bytes) \<times> 'w"

record x509_certificate =
  Raw :: bytes
  NotBefore :: timestamp
  NotAfter :: timestamp

text \<open>A private key: RSA, with its PKCS#1 encoding, or of another type.\<close>

datatype private_key = RsaPrivateKey bytes | OtherPrivateKey bytes

record x509_lib =
  ParseCertificate :: "bytes \<Rightarrow> go_error + x509_certificate"
  ParsePKCS1PrivateKey :: "bytes \<Rightarrow> go_error + bytes"
  ParsePKCS8PrivateKey :: "bytes \<Rightarrow> go_error + private_key"
  time_Parse :: "string \<Rightarrow> go_error + timestamp"
    \<comment> \<open>with the layout \<open>"Jan 2 15:04:05 2006 MST"\<close>\<close>

section \<open>The receiver\<close>

record Certificates =
  TLSCrt :: bytes
  TLSKey :: bytes
  CACrt :: bytes
  PemBundle :: bytes
  ExpirationTime :: unix_seconds
  PFXCertificate :: bytes
  X509Certificates :: "x509_certificate list"
  PrivateKey :: "private_key option"

definition NewOpenSSLRunners :: Certificates where
  "NewOpenSSLRunners = \<lparr>TLSCrt = [], TLSKey = [], CACrt = [], PemBundle = [], ExpirationTime = 0,
     PFXCertificate = [], X509Certificates = [], PrivateKey = None\<rparr>"

record 'w osst = "'w st" +
  osr :: Certificates

type_synonym ('w, 'a) osm = "('w osst, 'a) go"

definition setCerts :: "(Certificates \<Rightarrow> Certificates) \<Rightarrow> ('w, unit) osm" where
  "setCerts f = modify (\<lambda>s. s\<lparr>osr := f (osr s)\<rparr>)"

section \<open>Deferred calls and file operations\<close>

text \<open>\<open>defer cleanup()\<close> followed by the rest of the function.\<close>

definition deferred :: "('s, unit) go \<Rightarrow> ('s, 'a) go \<Rightarrow> ('s, 'a) go" where
  "deferred cleanup m s =
     (case m s of (r, s') \<Rightarrow>
        (case cleanup s' of (Done _, s'') \<Rightarrow> (r, s'') | (Panicked p, s'') \<Rightarrow> (Panicked p, s'')))"

definition createTemp :: "'w os \<Rightarrow> string \<Rightarrow> ('w, go_error + string) osm" where
  "createTemp OS pat = call (\<lambda>r. CreateTemp pat (case r of Inl _ \<Rightarrow> None | Inr f \<Rightarrow> Some f)) (os_CreateTemp OS pat)"

definition writeFile :: "'w os \<Rightarrow> string \<Rightarrow> bytes \<Rightarrow> ('w, go_error option) osm" where
  "writeFile OS f bs = call (\<lambda>_. WriteFile f bs) (os_Write OS f bs)"

definition syncFile :: "'w os \<Rightarrow> string \<Rightarrow> ('w, go_error option) osm" where
  "syncFile OS f = call (\<lambda>_. SyncFile f) (os_Sync OS f)"

definition closeFile :: "'w os \<Rightarrow> string \<Rightarrow> ('w, go_error option) osm" where
  "closeFile OS f = call (\<lambda>_. CloseFile f) (os_Close OS f)"

definition removeFile :: "'w os \<Rightarrow> string \<Rightarrow> ('w, go_error option) osm" where
  "removeFile OS f = call (\<lambda>_. RemoveFile f) (os_Remove OS f)"

definition runCommand :: "'w os \<Rightarrow> string list \<Rightarrow> ('w, bytes \<times> go_error option) osm" where
  "runCommand OS args = call (\<lambda>_. RunCommand args) (os_Run OS args)"

definition readFile :: "'w os \<Rightarrow> string \<Rightarrow> ('w, go_error + bytes) osm" where
  "readFile OS f = call (\<lambda>_. ReadFile f) (os_ReadFile OS f)"

lemmas file_defs = createTemp_def writeFile_def syncFile_def closeFile_def removeFile_def runCommand_def readFile_def

text \<open>The deferred closures; their errors are logged only.\<close>

definition closeAndRemove :: "'w os \<Rightarrow> string \<Rightarrow> ('w, unit) osm" where
  "closeAndRemove OS f = seq (closeFile OS f) (seq (removeFile OS f) (ret ()))"

definition justRemove :: "'w os \<Rightarrow> string \<Rightarrow> ('w, unit) osm" where
  "justRemove OS f = seq (removeFile OS f) (ret ())"

section \<open>GetCertificateExpiration\<close>

definition unixSeconds :: "timestamp \<Rightarrow> unix_seconds" where
  "unixSeconds t = t div 1000000000"

definition parseEnddate :: "x509_lib \<Rightarrow> string \<Rightarrow> go_error + timestamp" where
  "parseEnddate X out =
     (let parts = Split1 CHR ''='' out in
      if length parts \<noteq> 2 then Inl (PlainError (''unexpected output: '' @ out))
      else (let dateStr = TrimSpace (parts ! 1) in time_Parse X dateStr))"

definition GetCertificateExpiration :: "'w os \<Rightarrow> x509_lib \<Rightarrow> bytes \<Rightarrow> ('w, go_error option) osm" where
  "GetCertificateExpiration OS X certByte =
     andThen (createTemp OS ''cert-*.crt'') (\<lambda>r. case r of
       Inl err \<Rightarrow> ret (Some err)
     | Inr tmpfile \<Rightarrow> deferred (justRemove OS tmpfile)
         (andThen (writeFile OS tmpfile certByte) (\<lambda>err. case err of
            Some e \<Rightarrow> ret (Some e)
          | None \<Rightarrow> andThen (closeFile OS tmpfile) (\<lambda>err. case err of
              Some e \<Rightarrow> ret (Some e)
            | None \<Rightarrow>
                andThen (runCommand OS [''openssl'', ''x509'', ''-enddate'', ''-noout'', ''-in'', tmpfile]) (\<lambda>(out, err).
                case err of
                  Some e \<Rightarrow> ret (Some e)
                | None \<Rightarrow> (case parseEnddate X out of
                    Inl e \<Rightarrow> ret (Some e)
                  | Inr expirationDate \<Rightarrow>
                      seq (setCerts (\<lambda>c. c\<lparr>ExpirationTime := unixSeconds expirationDate\<rparr>)) (ret None)))))))"

section \<open>DecodePEM\<close>

definition handleBlock :: "x509_lib \<Rightarrow> string \<Rightarrow> bytes \<Rightarrow> x509_certificate list \<times> private_key option \<Rightarrow>
    go_error + x509_certificate list \<times> private_key option" where
  "handleBlock X ty bs acc =
     (case acc of (certs, key) \<Rightarrow>
        if ty = ''CERTIFICATE''
        then (case ParseCertificate X bs of
                Inl err \<Rightarrow> Inl (PlainError (''failed to parse certificate: '' @ errorText err))
              | Inr cert \<Rightarrow> Inr (certs @ [cert], key))
        else if ty = ''RSA PRIVATE KEY'' \<or> ty = ''PRIVATE KEY''
        then (case ParsePKCS1PrivateKey X bs of
                Inr der \<Rightarrow> Inr (certs, Some (RsaPrivateKey der))
              | Inl _ \<Rightarrow> (case ParsePKCS8PrivateKey X bs of
                    Inl err \<Rightarrow> Inl (PlainError (''failed to parse private key: '' @ errorText err))
                  | Inr k \<Rightarrow> Inr (certs, Some k)))
        else Inr (certs, key))"

function decodeBlocks :: "x509_lib \<Rightarrow> string \<Rightarrow> x509_certificate list \<times> private_key option \<Rightarrow>
    go_error + x509_certificate list \<times> private_key option" where
  "decodeBlocks X combinedPEM acc =
     (case pemDecode combinedPEM of
        (None, rest) \<Rightarrow> Inl (PlainError ''failed to parse PEM block'')
      | (Some (ty, bs), rest) \<Rightarrow>
          (case handleBlock X ty bs acc of
             Inl err \<Rightarrow> Inl err
           | Inr acc' \<Rightarrow> if rest = [] then Inr acc' else decodeBlocks X rest acc'))"
  by pat_completeness auto
termination
  by (relation "measure (\<lambda>(_, data, _). length data)") (auto intro: pemDecode_shorter dest: sym)

declare decodeBlocks.simps [simp del]

definition DecodePEM :: "x509_lib \<Rightarrow> ('w, go_error option) osm" where
  "DecodePEM X =
     andThen (gets (\<lambda>s. PemBundle (osr s))) (\<lambda>combinedPEM.
       case decodeBlocks X combinedPEM ([], None) of
         Inl err \<Rightarrow> ret (Some err)
       | Inr (certs, key) \<Rightarrow>
           if certs = [] \<or> key = None then ret (Some (PlainError ''certificate or key missing in PEM''))
           else seq (setCerts (\<lambda>c. c\<lparr>X509Certificates := certs, PrivateKey := key\<rparr>)) (ret None))"

section \<open>CreatePKCS12\<close>

definition checkValidity :: "'w kube \<Rightarrow> x509_certificate \<Rightarrow> ('w, go_error option) osm" where
  "checkValidity K cert =
     (let invalid = ret (Some (PlainError ''certificate is either not yet valid or has expired'')) in
      andThen (timeNow K) (\<lambda>now.
        if now < NotBefore cert then invalid
        else andThen (timeNow K) (\<lambda>now.
          if NotAfter cert < now then invalid else ret None)))"

text \<open>\<open>fmt.Errorf("what: %w", err)\<close> on failure, else go on.\<close>

definition orWrap :: "string \<Rightarrow> ('w, go_error option) osm \<Rightarrow> ('w, go_error option) osm \<Rightarrow> ('w, go_error option) osm" where
  "orWrap what m k = andThen m (\<lambda>err. case err of Some e \<Rightarrow> ret (Some (WrappedError what e)) | None \<Rightarrow> k)"

definition convertWithOpenssl :: "'w os \<Rightarrow> string \<Rightarrow> string \<Rightarrow> ('w, go_error option) osm" where
  "convertWithOpenssl OS keyFile certFile =
     (let outputFileName = certFile @ ''.pfx'' in
      andThen (runCommand OS [''openssl'', ''pkcs12'', ''-export'', ''-out'', outputFileName, ''-inkey'', keyFile,
                 ''-in'', certFile, ''-passout'', ''pass:'']) (\<lambda>(_, err).
      case err of
        Some e \<Rightarrow> ret (Some (WrappedError ''OpenSSL command failed: '' e))
      | None \<Rightarrow> andThen (readFile OS outputFileName) (\<lambda>r. case r of
          Inl e \<Rightarrow> ret (Some (PlainError (''failed to read PFX file: '' @ errorText e)))
        | Inr pfxData \<Rightarrow> deferred (justRemove OS outputFileName)
            (seq (setCerts (\<lambda>c. c\<lparr>PFXCertificate := pfxData\<rparr>)) (ret None)))))"

text \<open>\<open>pem.Encode\<close> makes several writes to the file; they are one write of the whole text here.\<close>

definition writePemFiles :: "'w os \<Rightarrow> x509_certificate list \<Rightarrow> bytes \<Rightarrow> string \<Rightarrow> string \<Rightarrow> ('w, go_error option) osm" where
  "writePemFiles OS certs der keyFile certFile =
     orWrap ''failed to write key to PEM: '' (writeFile OS keyFile (pemEncode ''RSA PRIVATE KEY'' der))
     (andThen (forEach certs (\<lambda>cert.
         andThen (writeFile OS certFile (pemEncode ''CERTIFICATE'' (Raw cert))) (\<lambda>err. ret (case err of
           Some e \<Rightarrow> Some (WrappedError ''failed to write cert to PEM: '' e) | None \<Rightarrow> None)))) (\<lambda>r. case r of
       Some e \<Rightarrow> ret (Some e)
     | None \<Rightarrow>
         orWrap ''failed to sync key file: '' (syncFile OS keyFile)
         (orWrap ''failed to sync cert file: '' (syncFile OS certFile)
           (convertWithOpenssl OS keyFile certFile))))"

definition CreatePKCS12 :: "'w kube \<Rightarrow> 'w os \<Rightarrow> ('w, go_error option) osm" where
  "CreatePKCS12 K OS =
     andThen (gets osr) (\<lambda>c.
     andThen (forEach (X509Certificates c) (checkValidity K)) (\<lambda>r. case r of
       Some e \<Rightarrow> ret (Some e)
     | None \<Rightarrow>
         andThen (createTemp OS ''key-*.pem'') (\<lambda>r. case r of
           Inl e \<Rightarrow> ret (Some (WrappedError ''failed to create temp file for key: '' e))
         | Inr keyFile \<Rightarrow> deferred (closeAndRemove OS keyFile)
         (andThen (createTemp OS ''cert-*.pem'') (\<lambda>r. case r of
           Inl e \<Rightarrow> ret (Some (WrappedError ''failed to create temp file for cert: '' e))
         | Inr certFile \<Rightarrow> deferred (closeAndRemove OS certFile)
         (case PrivateKey c of
            Some (RsaPrivateKey der) \<Rightarrow> writePemFiles OS (X509Certificates c) der keyFile certFile
          | _ \<Rightarrow> ret (Some (PlainError ''key is not of type *rsa.PrivateKey''))))))))"

section \<open>ProcessCertificates\<close>

text \<open>\<open>if err := m; err != nil { return err }\<close>, then the rest.\<close>

definition orReturn :: "('w, go_error option) osm \<Rightarrow> ('w, go_error option) osm \<Rightarrow> ('w, go_error option) osm" where
  "orReturn m k = andThen m (\<lambda>err. case err of Some e \<Rightarrow> ret (Some e) | None \<Rightarrow> k)"

definition processPfx :: "'w os \<Rightarrow> x509_lib \<Rightarrow> ('w, go_error option) osm" where
  "processPfx OS X =
     andThen (gets osr) (\<lambda>c.
       if 0 < length (PFXCertificate c) \<and> ExpirationTime c = 0
       then GetCertificateExpiration OS X (PFXCertificate c) else ret None)"

definition ProcessCertificates :: "'w kube \<Rightarrow> 'w os \<Rightarrow> x509_lib \<Rightarrow> ('w, go_error option) osm" where
  "ProcessCertificates K OS X =
     andThen (gets osr) (\<lambda>c.
       orReturn (if 0 < length (TLSCrt c) then GetCertificateExpiration OS X (TLSCrt c) else ret None)
       (orReturn (if 0 < length (CACrt c) then GetCertificateExpiration OS X (CACrt c) else ret None)
       (if 0 < length (PemBundle c)
        then orReturn (DecodePEM X) (orReturn (CreatePKCS12 K OS) (processPfx OS X))
        else ret None)))"

section \<open>Rules\<close>

lemma run_deferred [go_run]:
  "deferred cleanup m s = (case m s of (r, s') \<Rightarrow> (case cleanup s' of (r', s'') \<Rightarrow>
     ((case r' of Done _ \<Rightarrow> r | Panicked p \<Rightarrow> Panicked p), s'')))"
  by (simp add: deferred_def split: prod.splits outcome.splits)

lemma run_setCerts [go_run]: "setCerts f s = (Done (), s\<lparr>osr := f (osr s)\<rparr>)"
  by (simp add: setCerts_def go_run)

lemma run_justRemove [go_run]:
  "justRemove OS f s = (Done (), s\<lparr>trace := trace s @ [RemoveFile f], world := snd (os_Remove OS f (world s))\<rparr>)"
  by (simp add: justRemove_def removeFile_def go_run)

lemma run_closeAndRemove [go_run]:
  "closeAndRemove OS f s = (Done (), s\<lparr>trace := trace s @ [CloseFile f, RemoveFile f],
     world := snd (os_Remove OS f (snd (os_Close OS f (world s))))\<rparr>)"
  by (simp add: closeAndRemove_def removeFile_def closeFile_def go_run)

lemma adds_deferred: "adds P c \<Longrightarrow> adds P m \<Longrightarrow> adds P (deferred c m)"
  by (rule addsI) (fastforce simp: deferred_def split: prod.splits outcome.splits elim: addsE)

text \<open>Processing certificates uses files, processes and the clock.\<close>

lemma adds_process:
  assumes "P Now" and "\<And>p f. P (CreateTemp p f)" and "\<And>f b. P (WriteFile f b)" and "\<And>f. P (SyncFile f)"
    and "\<And>f. P (CloseFile f)" and "\<And>f. P (RemoveFile f)" and "\<And>a. P (RunCommand a)" and "\<And>f. P (ReadFile f)"
  shows "adds P (ProcessCertificates K OS X)"
  unfolding ProcessCertificates_def orReturn_def GetCertificateExpiration_def DecodePEM_def CreatePKCS12_def
    processPfx_def writePemFiles_def orWrap_def convertWithOpenssl_def checkValidity_def justRemove_def
    closeAndRemove_def file_defs timeNow_def setCerts_def Let_def
  by (auto intro!: go_adds adds_deferred assms split: option.split sum.split private_key.split)

section \<open>Temporary files\<close>

definition removed :: "effect list \<Rightarrow> string set" where
  "removed es = {f. RemoveFile f \<in> set es}"

definition created :: "effect list \<Rightarrow> string set" where
  "created es = {f. \<exists>p. CreateTemp p (Some f) \<in> set es}"

definition no_temp :: "effect \<Rightarrow> bool" where
  "no_temp e \<longleftrightarrow> (\<forall>p f. e \<noteq> CreateTemp p (Some f) \<and> e \<noteq> RemoveFile f)"

lemma removed_append [simp]: "removed (es @ fs) = removed es \<union> removed fs"
  by (auto simp: removed_def)

lemma created_append [simp]: "created (es @ fs) = created es \<union> created fs"
  by (auto simp: created_def)

lemma no_temp_lists: "\<forall>e \<in> set es. no_temp e \<Longrightarrow> removed es = {} \<and> created es = {}"
  by (auto simp: removed_def created_def no_temp_def)

text \<open>
  \<open>cleans Q m\<close>: on every path, what \<open>m\<close> removes is what it creates as temporary files, and a
  set \<open>X\<close> beside, of which \<open>Q\<close> holds.
\<close>

definition cleans :: "('a outcome \<Rightarrow> string set \<Rightarrow> bool) \<Rightarrow> ('w, 'a) osm \<Rightarrow> bool" where
  "cleans Q m \<longleftrightarrow> (\<forall>s. \<exists>es X. trace (snd (m s)) = trace s @ es \<and> removed es = created es \<union> X \<and> Q (fst (m s)) X)"

named_theorems go_cleans \<open>introduction rules for \<open>cleans\<close>\<close>

lemma cleans_ret [go_cleans]: "Q (Done a) {} \<Longrightarrow> cleans Q (ret a)"
  by (auto simp: cleans_def ret_def removed_def created_def intro!: exI [of _ "[]"])

lemma cleans_andThen [go_cleans]:
  assumes "adds no_temp m" and "\<And>a. cleans Q (f a)" and "\<And>p. Q (Panicked p) {}"
  shows "cleans Q (andThen m f)"
  unfolding cleans_def
proof
  fix s
  obtain r s1 where m: "m s = (r, s1)" by fastforce
  with assms(1) obtain es where es: "trace s1 = trace s @ es" "\<forall>e \<in> set es. no_temp e"
    by (rule addsE)
  note quiet = no_temp_lists [OF es(2)]
  show "\<exists>es X. trace (snd (andThen m f s)) = trace s @ es \<and> removed es = created es \<union> X \<and> Q (fst (andThen m f s)) X"
  proof (cases r)
    case (Done a)
    from assms(2) obtain fs X where "trace (snd (f a s1)) = trace s1 @ fs" "removed fs = created fs \<union> X" "Q (fst (f a s1)) X"
      unfolding cleans_def by metis
    with Done m es quiet show ?thesis
      by (intro exI [of _ "es @ fs"] exI [of _ X]) (simp add: andThen_Done)
  next
    case (Panicked p)
    with m es quiet assms(3) show ?thesis
      by (intro exI [of _ es] exI [of _ "{}"]) (simp add: andThen_Panicked)
  qed
qed

lemma cleans_deferred:
  assumes "\<And>s. \<exists>s'. cleanup s = (Done (), s') \<and> (\<exists>es. trace s' = trace s @ es \<and> removed es = {f} \<and> created es = {})"
    and "cleans Q m"
  obtains es X where "trace (snd (deferred cleanup m s)) = trace s @ es" "removed es = created es \<union> {f} \<union> X"
    "Q (fst (deferred cleanup m s)) X"
proof -
  obtain r s1 where m: "m s = (r, s1)" by fastforce
  with assms(2) obtain es X where es: "trace s1 = trace s @ es" "removed es = created es \<union> X" "Q r X"
    unfolding cleans_def by (metis fst_conv snd_conv)
  from assms(1) [of s1] obtain s2 fs where c: "cleanup s1 = (Done (), s2)" "trace s2 = trace s1 @ fs" "removed fs = {f}"
    "created fs = {}" by blast
  show thesis
    by (rule that [of "es @ fs" X]) (use m es c in \<open>auto simp: run_deferred\<close>)
qed

lemma cleanup_remove:
  "\<exists>s'. justRemove OS f s = (Done (), s') \<and> (\<exists>es. trace s' = trace s @ es \<and> removed es = {f} \<and> created es = {})"
  "\<exists>s'. closeAndRemove OS f s = (Done (), s') \<and> (\<exists>es. trace s' = trace s @ es \<and> removed es = {f} \<and> created es = {})"
  by (auto simp: run_justRemove run_closeAndRemove removed_def created_def)

text \<open>A temporary file with its deferred removal.\<close>

lemma cleans_temp:
  fixes cleanup :: "string \<Rightarrow> ('w, unit) osm"
  assumes "\<And>f s. \<exists>s'. cleanup f s = (Done (), s') \<and> (\<exists>es. trace s' = trace s @ es \<and> removed es = {f} \<and> created es = {})"
    and "\<And>f. cleans Q (body f)" and "\<And>e. cleans Q (failed e)"
  shows "cleans Q (andThen (createTemp OS pat) (\<lambda>r. case r of Inl e \<Rightarrow> failed e | Inr f \<Rightarrow> deferred (cleanup f) (body f)))"
    (is "cleans Q ?m")
  unfolding cleans_def
proof
  fix s :: "'w osst"
  let ?r = "fst (os_CreateTemp OS pat (world s))"
  let ?t = "CreateTemp pat (case ?r of Inl _ \<Rightarrow> None | Inr f \<Rightarrow> Some f)"
  let ?s1 = "s\<lparr>trace := trace s @ [?t], world := snd (os_CreateTemp OS pat (world s))\<rparr>"
  show "\<exists>es X. trace (snd (?m s)) = trace s @ es \<and> removed es = created es \<union> X \<and> Q (fst (?m s)) X"
  proof (cases ?r)
    case (Inl e)
    then have run: "?m s = failed e ?s1" by (simp add: createTemp_def go_run)
    from assms(3) [of e] obtain es X where "trace (snd (failed e ?s1)) = trace ?s1 @ es" "removed es = created es \<union> X"
      "Q (fst (failed e ?s1)) X" unfolding cleans_def by metis
    with run Inl show ?thesis
      by (intro exI [of _ "?t # es"] exI [of _ X]) (simp add: removed_def created_def)
  next
    case (Inr f)
    then have run: "?m s = deferred (cleanup f) (body f) ?s1" by (simp add: createTemp_def go_run)
    obtain es X where "trace (snd (deferred (cleanup f) (body f) ?s1)) = trace ?s1 @ es"
      "removed es = created es \<union> {f} \<union> X" "Q (fst (deferred (cleanup f) (body f) ?s1)) X"
      by (rule cleans_deferred [OF assms(1,2)])
    moreover have "created (?t # es) = insert f (created es)" "removed (?t # es) = removed es"
      using Inr by (auto simp: created_def removed_def)
    ultimately show ?thesis
      using run by (intro exI [of _ "?t # es"] exI [of _ X]) simp
  qed
qed

lemma no_temp_calls [go_adds]:
  "adds no_temp (writeFile OS f bs)" "adds no_temp (syncFile OS f)" "adds no_temp (closeFile OS f)"
  "adds no_temp (runCommand OS args)" "adds no_temp (readFile OS f)" "adds no_temp (timeNow K)"
  "adds no_temp (setCerts g)"
  by (auto simp: file_defs timeNow_def setCerts_def no_temp_def intro!: go_adds)

lemma GetCertificateExpiration_cleans: "cleans (\<lambda>_ X. X = {}) (GetCertificateExpiration OS X cert)"
  unfolding GetCertificateExpiration_def
  by (rule cleans_temp) (auto simp: cleanup_remove intro!: go_cleans go_adds split: option.split sum.split)

definition pfxRemoved :: "go_error option outcome \<Rightarrow> string set \<Rightarrow> bool" where
  "pfxRemoved r X = (if r = Done None then \<exists>certFile. X = {certFile @ ''.pfx''} else X = {})"

lemma pfxRemoved_error [simp]: "pfxRemoved (Done (Some e)) {}" "pfxRemoved (Panicked p) {}"
  by (simp_all add: pfxRemoved_def)

lemma convertWithOpenssl_cleans: "cleans pfxRemoved (convertWithOpenssl OS keyFile certFile)"
proof -
  have fin: "cleans pfxRemoved (deferred (justRemove OS (certFile @ ''.pfx''))
      (seq (setCerts (\<lambda>c. c\<lparr>PFXCertificate := d\<rparr>)) (ret None)))" for d
    by (auto simp: cleans_def go_run removed_def created_def pfxRemoved_def)
  show ?thesis
    unfolding convertWithOpenssl_def Let_def
    by (auto intro!: go_cleans go_adds fin split: option.split sum.split)
qed

lemma writePemFiles_cleans: "cleans pfxRemoved (writePemFiles OS certs der keyFile certFile)"
  unfolding writePemFiles_def orWrap_def
  by (auto intro!: go_cleans go_adds convertWithOpenssl_cleans split: option.split)

lemma CreatePKCS12_cleans: "cleans pfxRemoved (CreatePKCS12 K OS)"
  unfolding CreatePKCS12_def checkValidity_def Let_def
  by (auto intro!: go_cleans go_adds cleans_temp cleanup_remove writePemFiles_cleans
      split: option.split private_key.split)

section \<open>The blocks of a bundle\<close>

fun handleAll :: "x509_lib \<Rightarrow> (string \<times> bytes) list \<Rightarrow> x509_certificate list \<times> private_key option \<Rightarrow>
    go_error + x509_certificate list \<times> private_key option" where
  "handleAll X [] acc = Inr acc"
| "handleAll X ((ty, bs) # blocks) acc =
     (case handleBlock X ty bs acc of Inl e \<Rightarrow> Inl e | Inr acc' \<Rightarrow> handleAll X blocks acc')"

definition bundleOf :: "(string \<times> bytes) list \<Rightarrow> string" where
  "bundleOf blocks = concat (map (\<lambda>(ty, bs). pemEncode ty bs) blocks)"

definition plainType :: "string \<Rightarrow> bool" where
  "plainType ty \<longleftrightarrow> LF \<notin> set ty \<and> CHR '':'' \<notin> set ty"

lemma decodeBlocks_step:
  assumes "plainType ty"
  shows "decodeBlocks X (pemEncode ty bs @ rest) acc = (case handleBlock X ty bs acc of
     Inl e \<Rightarrow> Inl e | Inr acc' \<Rightarrow> if rest = [] then Inr acc' else decodeBlocks X rest acc')"
  using assms pem_roundtrip [of ty bs rest]
  by (subst decodeBlocks.simps) (simp add: plainType_def)

lemma pemEncode_not_Nil: "pemEncode ty bs \<noteq> []"
  by (simp add: pemEncode_def)

section \<open>Properties\<close>

text \<open>
  C33. A bundle that is the encodings of blocks one after another is read block by block, in
  order, to its end; but whatever follows the last block, be it an empty line, makes the whole
  bundle an error, also when every block was fine.
\<close>

theorem decodeBlocks_bundle:
  assumes "blocks \<noteq> []" and "\<forall>(ty, bs) \<in> set blocks. plainType ty" and "CHR ''-'' \<notin> set tail"
  shows "decodeBlocks X (bundleOf blocks @ tail) acc = (case handleAll X blocks acc of
     Inl e \<Rightarrow> Inl e
   | Inr result \<Rightarrow> if tail = [] then Inr result else Inl (PlainError ''failed to parse PEM block''))"
  using assms(1,2)
proof (induction blocks arbitrary: acc)
  case (Cons b blocks)
  obtain ty bs where b: "b = (ty, bs)" by fastforce
  with Cons.prems have ty: "plainType ty" by simp
  note step = decodeBlocks_step [OF ty, of X bs "bundleOf blocks @ tail" acc]
  show ?case
  proof (cases "blocks = []")
    case True
    have "decodeBlocks X tail acc' = Inl (PlainError ''failed to parse PEM block'')" for acc'
      by (subst decodeBlocks.simps) (simp add: pemDecode_no_dash [OF assms(3)])
    with step True b show ?thesis by (auto simp: bundleOf_def split: sum.split)
  next
    case False
    then have "bundleOf blocks @ tail \<noteq> []" by (cases blocks) (auto simp: bundleOf_def pemEncode_not_Nil)
    moreover have "bundleOf (b # blocks) @ tail = pemEncode ty bs @ bundleOf blocks @ tail"
      by (simp add: bundleOf_def b)
    moreover have "\<forall>(ty, bs) \<in> set blocks. plainType ty" using Cons.prems(2) by simp
    note ih = Cons.IH [OF False this]
    ultimately show ?thesis
      using step by (cases "tail = []"; cases "handleBlock X ty bs acc") (simp_all add: b ih ih [simplified])
  qed
qed simp

definition exampleX509 :: x509_lib where
  "exampleX509 = \<lparr>ParseCertificate = \<lambda>b. Inr \<lparr>Raw = b, NotBefore = 0, NotAfter = 1\<rparr>,
     ParsePKCS1PrivateKey = \<lambda>b. Inr b, ParsePKCS8PrivateKey = \<lambda>b. Inr (OtherPrivateKey b),
     time_Parse = \<lambda>t. if t = [] then Inl refused else Inr 5000000000\<rparr>"

theorem decodeBlocks_bundle_witness:
  "decodeBlocks exampleX509 (pemEncode ''CERTIFICATE'' ''c'' @ pemEncode ''RSA PRIVATE KEY'' ''k'' @ [LF]) ([], None)
   = Inl (PlainError ''failed to parse PEM block'')"
proof -
  let ?b = "[(''CERTIFICATE'', ''c''), (''RSA PRIVATE KEY'', ''k'')]"
  have "\<forall>(ty, bs) \<in> set ?b. plainType ty" and "CHR ''-'' \<notin> set [LF]"
    by (simp_all add: plainType_def LF_def)
  from decodeBlocks_bundle [OF _ this, of exampleX509 "([], None)"]
  show ?thesis by (simp add: bundleOf_def handleBlock_def exampleX509_def)
qed

text \<open>
  C34. On every path of \<open>CreatePKCS12\<close> the temporary files with the private key and the
  certificates are removed, and nothing else is, but for the converted file on success: when
  openssl has written it and it cannot be read, or openssl fails after writing, it stays.
\<close>

theorem CreatePKCS12_removes_temp_files:
  "\<exists>es. trace (snd (CreatePKCS12 K OS s)) = trace s @ es
     \<and> (if fst (CreatePKCS12 K OS s) = Done None
        then \<exists>certFile. removed es = created es \<union> {certFile @ ''.pfx''}
        else removed es = created es)"
  using CreatePKCS12_cleans [of K OS] unfolding cleans_def pfxRemoved_def
  by (metis sup_bot_right)

text \<open>
  \<open>GetCertificateExpiration\<close> succeeds only after writing the certificate to a temporary
  file, running \<open>openssl x509 -enddate\<close> on it and parsing what follows the one equals sign of
  its output; it sets the expiration time to that date, changes nothing else, and removes the
  file.
\<close>

theorem GetCertificateExpiration_sets:
  assumes "GetCertificateExpiration OS X cert s = (Done None, s')"
  shows "\<exists>f out t.
      trace s' = trace s @ [CreateTemp ''cert-*.crt'' (Some f), WriteFile f cert, CloseFile f,
        RunCommand [''openssl'', ''x509'', ''-enddate'', ''-noout'', ''-in'', f], RemoveFile f]
    \<and> length (Split1 CHR ''='' out) = 2 \<and> time_Parse X (TrimSpace (Split1 CHR ''='' out ! 1)) = Inr t
    \<and> osr s' = (osr s)\<lparr>ExpirationTime := t div 1000000000\<rparr>"
  using assms
  by (auto simp: GetCertificateExpiration_def file_defs go_run parseEnddate_def unixSeconds_def Let_def
      split: sum.splits option.splits prod.splits if_splits outcome.splits)

definition exampleOs :: "'w os" where
  "exampleOs = \<lparr>os_CreateTemp = \<lambda>p w. (Inr p, w), os_Write = \<lambda>_ _ w. (None, w), os_Sync = \<lambda>_ w. (None, w),
     os_Close = \<lambda>_ w. (None, w), os_Remove = \<lambda>_ w. (None, w), os_Run = \<lambda>_ w. ((''notAfter=x'', None), w),
     os_ReadFile = \<lambda>_ w. (Inr ''pfx'', w)\<rparr>"

lemma GetCertificateExpiration_example:
  "GetCertificateExpiration exampleOs exampleX509 cert s = (Done None,
     s\<lparr>trace := trace s @ [CreateTemp ''cert-*.crt'' (Some ''cert-*.crt''), WriteFile ''cert-*.crt'' cert,
         CloseFile ''cert-*.crt'', RunCommand [''openssl'', ''x509'', ''-enddate'', ''-noout'', ''-in'', ''cert-*.crt''],
         RemoveFile ''cert-*.crt''],
       osr := (osr s)\<lparr>ExpirationTime := 5\<rparr>\<rparr>)"
  by (simp add: GetCertificateExpiration_def file_defs go_run exampleOs_def exampleX509_def parseEnddate_def
      unixSeconds_def TrimSpace_def trim_where_def is_space_def Let_def)

theorem GetCertificateExpiration_sets_witness:
  "ExpirationTime (osr (snd (GetCertificateExpiration exampleOs exampleX509 ''c'' \<lparr>trace = [], world = (), osr = NewOpenSSLRunners\<rparr>))) = 5"
proof -
  let ?s = "\<lparr>trace = [], world = (), osr = NewOpenSSLRunners\<rparr>"
  obtain s' where run: "GetCertificateExpiration exampleOs exampleX509 ''c'' ?s = (Done None, s')"
    and e: "ExpirationTime (osr s') = 5"
    by (simp add: GetCertificateExpiration_example)
  from GetCertificateExpiration_sets [OF run] run e show ?thesis by auto
qed

text \<open>
  With both a certificate and a CA certificate, the expiration time left by
  \<open>ProcessCertificates\<close> is the CA's: that of the certificate is read first and overwritten, so
  what is pushed to the vault expires with the CA. (A bundle does not change this either.)
\<close>

theorem expiration_is_the_cas:
  assumes "ProcessCertificates K OS X s = (Done None, s')"
    and "TLSCrt (osr s) \<noteq> []" and "CACrt (osr s) \<noteq> []" and "PemBundle (osr s) = []"
  shows "\<exists>s1. fst (GetCertificateExpiration OS X (TLSCrt (osr s)) s) = Done None
    \<and> s1 = snd (GetCertificateExpiration OS X (TLSCrt (osr s)) s)
    \<and> GetCertificateExpiration OS X (CACrt (osr s)) s1 = (Done None, s')
    \<and> osr s' = (osr s)\<lparr>ExpirationTime := ExpirationTime (osr s')\<rparr>"
proof -
  obtain r1 s1 where one: "GetCertificateExpiration OS X (TLSCrt (osr s)) s = (r1, s1)" by fastforce
  obtain r2 s2 where two: "GetCertificateExpiration OS X (CACrt (osr s)) s1 = (r2, s2)" by fastforce
  from assms one two have ok: "r1 = Done None" "r2 = Done None" "s2 = s'"
    by (auto simp: ProcessCertificates_def orReturn_def run_gets run_andThen run_ret split: outcome.splits option.splits)
  have keep: "osr u' = (osr u)\<lparr>ExpirationTime := ExpirationTime (osr u')\<rparr>"
    if "GetCertificateExpiration OS X c u = (Done None, u')" for c u u'
    using that
    by (auto simp: GetCertificateExpiration_def file_defs go_run Let_def
        split: sum.splits option.splits prod.splits if_splits outcome.splits)
  from keep [of _ s s1] keep [of _ s1 s'] one two ok
  have "osr s' = (osr s)\<lparr>ExpirationTime := ExpirationTime (osr s')\<rparr>" by (metis Certificates.update_convs(5) Certificates.surjective)
  with one two ok show ?thesis by simp
qed

theorem expiration_is_the_cas_witness:
  "\<forall>K :: unit kube. ExpirationTime (osr (snd (ProcessCertificates K exampleOs exampleX509
     \<lparr>trace = [], world = (), osr = NewOpenSSLRunners\<lparr>TLSCrt := ''c'', CACrt := ''ca''\<rparr>\<rparr>))) = 5"
proof
  fix K :: "unit kube"
  let ?s = "\<lparr>trace = [], world = (), osr = NewOpenSSLRunners\<lparr>TLSCrt := ''c'', CACrt := ''ca''\<rparr>\<rparr>"
  obtain s' where run: "ProcessCertificates K exampleOs exampleX509 ?s = (Done None, s')"
    by (simp add: ProcessCertificates_def orReturn_def go_run GetCertificateExpiration_example NewOpenSSLRunners_def)
  from expiration_is_the_cas [OF run] have "ExpirationTime (osr s') = 5"
    by (auto simp: NewOpenSSLRunners_def GetCertificateExpiration_example)
  then show "ExpirationTime (osr (snd (ProcessCertificates K exampleOs exampleX509 ?s))) = 5"
    unfolding run snd_conv .
qed

end
