(* ===== verification/Controller_State.thy ===== *)
theory Controller_State
  imports Utils Azure_Kv Workload_Identity Openssl
begin

text \<open>
  What the two controllers share: the surroundings of the program as one parameter, the fields
  of a reconciler that outlive a reconciliation, and calls of methods on the Key Vault object
  it holds behind a pointer.
\<close>

section \<open>Surroundings\<close>

record 'w env =
  env_kube :: "'w kube"
  env_msal :: "'w msal"
  env_http :: "'w http"
  env_os :: "'w os"
  env_x509 :: x509_lib

section \<open>Reconcilers\<close>

text \<open>\<open>KubeClient\<close> says whether the clientset has been set; its calls go to \<open>env_kube\<close>.\<close>

record 'w cst = "'w st" +
  AkvClient :: "'w KeyVault option"
  KubeClient :: bool

definition onAkv :: "('w, 'a) akv \<Rightarrow> (('w, 'z) cst_scheme, 'a) go" where
  "onAkv = zoom (\<lambda>s. map_option (\<lambda>k. \<lparr>trace = trace s, world = world s, kv = k\<rparr>) (AkvClient s))
     (\<lambda>t s. s\<lparr>trace := trace t, world := world t, AkvClient := Some (kv t)\<rparr>)"

definition setAkvClient :: "'w env \<Rightarrow> string option \<Rightarrow> string \<Rightarrow> (('w, 'z) cst_scheme, unit) go" where
  "setAkvClient E authorizer url = andThen (deref authorizer) (\<lambda>token.
     modify (\<lambda>s. s\<lparr>AkvClient := Some \<lparr>Client = NewAzureKeyVaultClient (env_http E) token, VaultUrl = url,
       kvSecret = None\<rparr>\<rparr>))"

text \<open>\<open>r.KubeClient, err = utils.SetKubeClient()\<close>\<close>

definition setKubeClient :: "'w env \<Rightarrow> (('w, 'z) cst_scheme, go_error option) go" where
  "setKubeClient E = andThen (SetKubeClient (env_kube E)) (\<lambda>err.
     seq (modify (\<lambda>s. s\<lparr>KubeClient := (err = None)\<rparr>)) (ret err))"

section \<open>Rules\<close>

lemma run_onAkv [go_run]:
  "onAkv m s = (case AkvClient s of
     None \<Rightarrow> nilDeref s
   | Some k \<Rightarrow> (case m \<lparr>trace = trace s, world = world s, kv = k\<rparr> of
       (r, t) \<Rightarrow> (r, s\<lparr>trace := trace t, world := world t, AkvClient := Some (kv t)\<rparr>)))"
  by (simp add: onAkv_def zoom_def split: option.split)

lemma onAkv_nil: "AkvClient s = None \<Longrightarrow> onAkv m s = nilDeref s"
  by (simp add: run_onAkv)

lemma adds_onAkv [go_adds]: "adds P m \<Longrightarrow> adds P (onAkv m)"
  unfolding onAkv_def by (rule adds_zoom) auto

subsection \<open>Invariants of the world\<close>

text \<open>
  \<open>stable_env E V\<close>: the quantity \<open>V\<close> of the world is changed by no request but the writes to the
  export resources. It is the hypothesis under which such a quantity can be followed through
  a reconciliation.
\<close>

definition stable_kube :: "'w kube \<Rightarrow> ('w \<Rightarrow> 'v) \<Rightarrow> bool" where
  "stable_kube K V \<longleftrightarrow>
     (\<forall>n w. V (snd (get_crd K n w)) = V w) \<and> (\<forall>k w. V (snd (get_export K k w)) = V w)
   \<and> (\<forall>k w. V (snd (get_service_account K k w)) = V w) \<and> (\<forall>k w. V (snd (get_secret K k w)) = V w)
   \<and> (\<forall>k t r m w. V (snd (record_event K k t r m w)) = V w)
   \<and> (\<forall>ns n a w. V (snd (cs_create_token K ns n a w)) = V w)
   \<and> (\<forall>w. V (snd (get_config K w)) = V w) \<and> (\<forall>w. V (snd (new_for_config K w)) = V w)
   \<and> (\<forall>w. V (snd (time_now K w)) = V w) \<and> (\<forall>d w. V (snd (time_sleep K d w)) = V w)"

definition stable_os :: "'w os \<Rightarrow> ('w \<Rightarrow> 'v) \<Rightarrow> bool" where
  "stable_os OS V \<longleftrightarrow>
     (\<forall>p w. V (snd (os_CreateTemp OS p w)) = V w) \<and> (\<forall>f b w. V (snd (os_Write OS f b w)) = V w)
   \<and> (\<forall>f w. V (snd (os_Sync OS f w)) = V w) \<and> (\<forall>f w. V (snd (os_Close OS f w)) = V w)
   \<and> (\<forall>f w. V (snd (os_Remove OS f w)) = V w) \<and> (\<forall>a w. V (snd (os_Run OS a w)) = V w)
   \<and> (\<forall>f w. V (snd (os_ReadFile OS f w)) = V w)"

definition stable_env :: "'w env \<Rightarrow> ('w \<Rightarrow> 'v) \<Rightarrow> bool" where
  "stable_env E V \<longleftrightarrow> stable_kube (env_kube E) V \<and> stable_os (env_os E) V
   \<and> (\<forall>r w. V (snd (env_http E r w)) = V w)
   \<and> (\<forall>a c t sc w. V (snd (AcquireTokenByCredential (env_msal E) a c t sc w)) = V w)"

lemma stableD:
  assumes "stable_env E V"
  shows "stable_kube (env_kube E) V" "stable_os (env_os E) V" "V (snd (env_http E r w)) = V w"
    "V (snd (AcquireTokenByCredential (env_msal E) a c t sc w)) = V w"
  using assms by (auto simp: stable_env_def)

text \<open>
  An invariant that depends on the world only through \<open>V\<close>, and not on the trace: the requests
  that leave \<open>V\<close> alone keep it.
\<close>

locale framed_invariant =
  fixes V :: "'w \<Rightarrow> 'v" and I :: "('w, 'z) st_scheme \<Rightarrow> bool"
  assumes frame: "I s \<Longrightarrow> V w = V (world s) \<Longrightarrow> I (s\<lparr>trace := tr, world := w\<rparr>)"
begin

lemma keeps_request: "(\<And>w. V (snd (f w)) = V w) \<Longrightarrow> keeps I (call e f)"
  by (rule keeps_call) (simp add: frame)

lemma keeps_kube:
  assumes "stable_kube K V"
  shows "keeps I (kGetCRD K n)" "keeps I (kGetExport K k)"
    "keeps I (kGetServiceAccount K k)" "keeps I (kGetSecret K k)"
    "keeps I (kRecordEvent K k ty rs msg)" "keeps I (csCreateToken K ns nm auds)"
    "keeps I (timeNow K)" "keeps I (timeSleep K d)" "keeps I (SetKubeClient K)"
  using assms
  by (auto simp: call_defs SetKubeClient_def stable_kube_def intro!: go_keeps keeps_request)

lemma keeps_auth_requests:
  assumes "stable_kube K V" and "\<And>a c t sc w. V (snd (AcquireTokenByCredential M a c t sc w)) = V w"
  shows "keeps I (AuthorizerForWorkloadIdentity K M aza)"
  unfolding AuthorizerForWorkloadIdentity_def FetchSAToken_def NewTokenProvider_def Let_def
  by (intro go_keeps keeps_request keeps_kube assms)

lemma keeps_auth: "stable_env E V \<Longrightarrow> keeps I (AuthorizerForWorkloadIdentity (env_kube E) (env_msal E) aza)"
  by (intro keeps_auth_requests stableD)

end

text \<open>The quantity itself.\<close>

interpretation vf: framed_invariant V "\<lambda>s. V (world s) = v" for V v
  by unfold_locales simp

subsection \<open>Key Vault operations\<close>

text \<open>The clients the controllers make send their requests through \<open>env_http\<close>.\<close>

definition kvgood :: "'w env \<Rightarrow> ('w \<Rightarrow> 'v) \<Rightarrow> 'v \<Rightarrow> 'w kvst \<Rightarrow> bool" where
  "kvgood E V v t \<longleftrightarrow> V (world t) = v \<and> (\<exists>token. Client (kv t) = NewAzureKeyVaultClient (env_http E) token)"

interpretation kvf: framed_invariant V "kvgood E V v" for E V v
  by unfold_locales (simp add: kvgood_def)

lemma sdk_worldly:
  assumes "\<And>r w. V (snd (http r w)) = V w"
  shows "V (snd (sdkCall http m ok req w)) = V w"
  using assms [of req w] by (auto simp: sdkCall_def split: prod.splits)

lemma client_worldly:
  assumes "\<And>r w. V (snd (http r w)) = V w"
  shows "V (snd (SetSecret (NewAzureKeyVaultClient http t) u n x e w)) = V w"
    "V (snd (ImportCertificate (NewAzureKeyVaultClient http t) u n x w)) = V w"
    "V (snd (DeleteSecret (NewAzureKeyVaultClient http t) u n w)) = V w"
    "V (snd (PurgeDeletedSecret (NewAzureKeyVaultClient http t) u n w)) = V w"
    "V (snd (PurgeDeletedCertificate (NewAzureKeyVaultClient http t) u n w)) = V w"
    "V (snd (DeleteCertificate (NewAzureKeyVaultClient http t) u n w)) = V w"
    "V (snd (GetSecret (NewAzureKeyVaultClient http t) u n ver w)) = V w"
proof -
  note call = sdk_worldly [of V http, OF assms]
  have w: "V (snd (case http r w of (x, w') \<Rightarrow>
      (case x of Responded p \<Rightarrow> Responded (p\<lparr>jsonError := None\<rparr>) | _ \<Rightarrow> x, w'))) = V w" for r w
    using assms [of r w] by (cases "http r w") simp
  note wrapped = sdk_worldly [of V "\<lambda>r w. case http r w of (x, w') \<Rightarrow>
      (case x of Responded p \<Rightarrow> Responded (p\<lparr>jsonError := None\<rparr>) | _ \<Rightarrow> x, w')", OF w]
  note simps = sdkSetSecret_def sdkImportCertificate_def sdkDeleteSecret_def sdkDeleteCertificate_def sdkPlain_def
    sdkPurgeDeletedSecret_def sdkPurgeDeletedCertificate_def sdkPurge_def sdkGetSecret_def
  show "V (snd (SetSecret (NewAzureKeyVaultClient http t) u n x e w)) = V w"
    "V (snd (ImportCertificate (NewAzureKeyVaultClient http t) u n x w)) = V w"
    "V (snd (DeleteSecret (NewAzureKeyVaultClient http t) u n w)) = V w"
    "V (snd (DeleteCertificate (NewAzureKeyVaultClient http t) u n w)) = V w"
    "V (snd (GetSecret (NewAzureKeyVaultClient http t) u n ver w)) = V w"
    by (simp_all add: simps case_prod_beta call)
  show "V (snd (PurgeDeletedSecret (NewAzureKeyVaultClient http t) u n w)) = V w"
    "V (snd (PurgeDeletedCertificate (NewAzureKeyVaultClient http t) u n w)) = V w"
    using wrapped by (simp_all add: simps case_prod_beta)
qed

lemma keeps_kvgood_call:
  assumes "\<And>token u w. V (snd (f (NewAzureKeyVaultClient (env_http E) token) u w)) = V w"
  shows "keeps (kvgood E V v) (kvCall e f)"
  by (rule keepsI) (auto simp: run_kvCall kvgood_def assms)

lemma keeps_kvgood_secret:
  "keeps (kvgood E V v) theSecret" "keeps (kvgood E V v) (setKvSecret sec)" "keeps (kvgood E V v) (setBundle b)"
  "keeps (kvgood E V v) (setValue x)" "keeps (kvgood E V v) (setName n)" "keeps (kvgood E V v) (logAndReturn err)"
  by (auto simp: theSecret_def setKvSecret_def setBundle_def setValue_def setName_def logAndReturn_def kvgood_def
      intro!: go_keeps)

lemma keeps_kvgood_ops:
  assumes "stable_env E V"
  shows "keeps (kvgood E V v) PushSecretToKeyVault" "keeps (kvgood E V v) PushCertificateToKeyVault"
    "keeps (kvgood E V v) CheckKVSecretExistence"
  unfolding PushSecretToKeyVault_def PushCertificateToKeyVault_def CheckKVSecretExistence_def Let_def
  by (intro go_keeps keeps_kvgood_secret keeps_kvgood_call client_worldly stableD [OF assms])+

lemma keeps_kvgood_purge:
  assumes "stable_env E V"
    and "\<And>token u w. V (snd (f (NewAzureKeyVaultClient (env_http E) token) u w)) = V w"
  shows "keeps (kvgood E V v) (purgeLoop (env_kube E) e f)"
  unfolding purgeLoop_def purgeAttempt_def
  by (intro go_keeps keeps_kvgood_call kvf.keeps_kube stableD [OF assms(1)] assms(2))

lemma keeps_kvgood_deletions:
  assumes "stable_env E V"
  shows "keeps (kvgood E V v) DeleteSecretFromKeyVault" "keeps (kvgood E V v) DeleteCertificateFromKeyVault"
    "keeps (kvgood E V v) (PurgeDeletedSecretFromKeyVault (env_kube E))"
    "keeps (kvgood E V v) (PurgeDeletedCertificateFromKeyVault (env_kube E))"
  unfolding DeleteSecretFromKeyVault_def DeleteCertificateFromKeyVault_def PurgeDeletedSecretFromKeyVault_def
    PurgeDeletedCertificateFromKeyVault_def Let_def
  by (intro go_keeps keeps_kvgood_secret keeps_kvgood_call keeps_kvgood_purge client_worldly stableD [OF assms] assms)+

subsection \<open>The reconcilers\<close>

definition cgood :: "'w env \<Rightarrow> ('w \<Rightarrow> 'v) \<Rightarrow> 'v \<Rightarrow> ('w, 'z) cst_scheme \<Rightarrow> bool" where
  "cgood E V v s \<longleftrightarrow> V (world s) = v
     \<and> (\<forall>k. AkvClient s = Some k \<longrightarrow> (\<exists>token. Client k = NewAzureKeyVaultClient (env_http E) token))"

interpretation cgf: framed_invariant V "cgood E V v" for E V v
  by unfold_locales (simp add: cgood_def)

lemma keeps_cgood_onAkv: "keeps (kvgood E V v) m \<Longrightarrow> keeps (cgood E V v) (onAkv m)"
  unfolding onAkv_def
proof (rule keeps_zoom)
  fix s :: "('a, 'd) cst_scheme" and t r t'
  assume m: "keeps (kvgood E V v) m" and s: "cgood E V v s"
    and t: "map_option (\<lambda>k. \<lparr>trace = trace s, world = world s, kv = k\<rparr>) (AkvClient s) = Some t" and run: "m t = (r, t')"
  from s t have "kvgood E V v t" by (auto simp: cgood_def kvgood_def)
  from keepsD [OF m this run] show "cgood E V v (s\<lparr>trace := trace t', world := world t', AkvClient := Some (kv t')\<rparr>)"
    by (simp add: cgood_def kvgood_def)
qed

lemma keeps_cgood_set:
  "keeps (cgood E V v) (setAkvClient E auth url)"
  "stable_env E V \<Longrightarrow> keeps (cgood E V v) (setKubeClient E)"
  by (auto simp: setAkvClient_def setKubeClient_def cgood_def intro!: go_keeps cgf.keeps_kube stableD)

subsection \<open>The openssl component\<close>

text \<open>An invariant of the world beside one of the fields of the runner.\<close>

definition osgood :: "('w \<Rightarrow> 'v) \<Rightarrow> 'v \<Rightarrow> (Certificates \<Rightarrow> bool) \<Rightarrow> 'w osst \<Rightarrow> bool" where
  "osgood V v P t \<longleftrightarrow> V (world t) = v \<and> P (osr t)"

interpretation osf: framed_invariant V "osgood V v P" for V v P
  by unfold_locales (simp add: osgood_def)

lemma keeps_os:
  assumes "stable_os OS V"
  shows "keeps (osgood V v P) (createTemp OS p)" "keeps (osgood V v P) (writeFile OS f b)"
    "keeps (osgood V v P) (syncFile OS f)" "keeps (osgood V v P) (closeFile OS f)"
    "keeps (osgood V v P) (removeFile OS f)" "keeps (osgood V v P) (runCommand OS args)"
    "keeps (osgood V v P) (readFile OS f)"
  using assms by (auto simp: file_defs stable_os_def intro!: go_keeps osf.keeps_request)

lemma keeps_deferred: "keeps I c \<Longrightarrow> keeps I m \<Longrightarrow> keeps I (deferred c m)"
  by (rule keepsI) (auto simp: deferred_def dest: keepsD split: prod.splits outcome.splits)

lemma keeps_setCerts: "(\<And>c. P c \<Longrightarrow> P (f c)) \<Longrightarrow> keeps (osgood V v P) (setCerts f)"
  by (auto simp: setCerts_def osgood_def intro!: go_keeps)

lemma keeps_expiration:
  assumes "stable_os OS V" and "\<And>c e. P c \<Longrightarrow> P (c\<lparr>ExpirationTime := e\<rparr>)"
  shows "keeps (osgood V v P) (GetCertificateExpiration OS X cert)"
  unfolding GetCertificateExpiration_def justRemove_def
  by (intro go_keeps keeps_os [OF assms(1)] keeps_deferred keeps_setCerts assms(2))

text \<open>The fields that processing sets.\<close>

definition unprocessed :: "(Certificates \<Rightarrow> bool) \<Rightarrow> bool" where
  "unprocessed P \<longleftrightarrow> (\<forall>c e. P c \<longrightarrow> P (c\<lparr>ExpirationTime := e\<rparr>)) \<and> (\<forall>c f. P c \<longrightarrow> P (c\<lparr>PFXCertificate := f\<rparr>))
     \<and> (\<forall>c xs k. P c \<longrightarrow> P (c\<lparr>X509Certificates := xs, PrivateKey := k\<rparr>))"

lemma unprocessedD:
  assumes "unprocessed P" and "P c"
  shows "P (c\<lparr>ExpirationTime := e\<rparr>)" "P (c\<lparr>PFXCertificate := f\<rparr>)" "P (c\<lparr>X509Certificates := xs, PrivateKey := k\<rparr>)"
  using assms by (auto simp: unprocessed_def)

lemma keeps_pkcs12:
  assumes os: "stable_os OS V" and kube: "stable_kube K V" and P: "unprocessed P"
  shows "keeps (osgood V v P) (CreatePKCS12 K OS)"
proof -
  note files = keeps_os [OF os] osf.keeps_kube [OF kube]
  have conv: "keeps (osgood V v P) (convertWithOpenssl OS f g)" for f g
    unfolding convertWithOpenssl_def justRemove_def Let_def
    by (intro go_keeps files keeps_deferred keeps_setCerts unprocessedD(2) [OF P])
  have pem: "keeps (osgood V v P) (writePemFiles OS cs der f g)" for cs der f g
    unfolding writePemFiles_def orWrap_def
    by (intro go_keeps files conv)
  show ?thesis
    unfolding CreatePKCS12_def checkValidity_def closeAndRemove_def Let_def
    by (auto intro!: go_keeps files keeps_deferred pem split: option.split private_key.split)
qed

lemma keeps_ProcessCertificates:
  assumes os: "stable_os OS V" and kube: "stable_kube K V" and P: "unprocessed P"
  shows "keeps (osgood V v P) (ProcessCertificates K OS X)"
  unfolding ProcessCertificates_def orReturn_def processPfx_def DecodePEM_def
  by (intro go_keeps keeps_expiration [OF os] keeps_pkcs12 [OF os kube P] keeps_setCerts unprocessedD [OF P])

end
