(* ===== verification/Export_Controller.thy ===== *)
theory Export_Controller
  imports Event_Handler Controller_State
begin

text \<open>
  \<open>internal/controllers/export/controller.go\<close>: one reconciliation of an
  \<open>ExportCertificateSecret\<close>, which copies Kubernetes secrets into Key Vault. The reconciler is
  one object for all reconciliations: the Key Vault client, the openssl runner and the
  resource of the previous one are still there when the next begins.
\<close>

section \<open>The reconciler\<close>

record 'w est = "'w cst" +
  OpenSSLRunners :: "Certificates option"
  ExportObj :: "ExportCertificateSecret option"

type_synonym ('w, 'a) exm = "('w est, 'a) go"

definition NewExportCertificateSecretReconciler :: "'w \<Rightarrow> 'w est" where
  "NewExportCertificateSecretReconciler w =
     \<lparr>trace = [], world = w, AkvClient = None, KubeClient = False, OpenSSLRunners = None, ExportObj = None\<rparr>"

definition emptyExport :: ExportCertificateSecret where
  "emptyExport = \<lparr>eMeta = emptyMeta,
     eAzureKV = \<lparr>eVaultUrl = [], eServiceAccountRef = \<lparr>sa_Name = [], Audiences = []\<rparr>,
       eCertificateSecretRef = [], OnDeletePurge = False\<rparr>,
     eStatus = \<lparr>eConditions = [], eRetryCount = 0\<rparr>\<rparr>"

definition theExport :: "('w, ExportCertificateSecret) exm" where
  "theExport = andThen (gets ExportObj) deref"

definition setExport :: "ExportCertificateSecret \<Rightarrow> ('w, unit) exm" where
  "setExport x = modify (\<lambda>s. s\<lparr>ExportObj := Some x\<rparr>)"

definition setRunners :: "Certificates \<Rightarrow> ('w, unit) exm" where
  "setRunners c = modify (\<lambda>s. s\<lparr>OpenSSLRunners := Some c\<rparr>)"

definition onRunners :: "('w, 'a) osm \<Rightarrow> ('w, 'a) exm" where
  "onRunners = zoom (\<lambda>s. map_option (\<lambda>c. \<lparr>trace = trace s, world = world s, osr = c\<rparr>) (OpenSSLRunners s))
     (\<lambda>t s. s\<lparr>trace := trace t, world := world t, OpenSSLRunners := Some (osr t)\<rparr>)"

definition theRunners :: "('w, Certificates) exm" where
  "theRunners = andThen (gets OpenSSLRunners) deref"

definition secretKeyMissing :: go_error where
  "secretKeyMissing = PlainError ''secret key not found in Kubernetes secret''"

section \<open>preChecks\<close>

text \<open>A missing CRD is logged as "skipping reconciliation", but the result is no error.\<close>

definition preChecks :: "'w env \<Rightarrow> NamespacedName \<Rightarrow> ('w, go_error option) exm" where
  "preChecks E req =
     andThen (kGetCRD (env_kube E) EXPORT_CERT_SECRET_CRD) (\<lambda>r. case r of
       Inl err \<Rightarrow> if IsNotFound err then ret None else ret (Some err)
     | Inr crd \<Rightarrow>
         seq (setExport emptyExport)
         (andThen (kGetExport (env_kube E) req) (\<lambda>r. case r of
            Inl err \<Rightarrow> ret (Some err)
          | Inr x \<Rightarrow> seq (setExport x) (ret None))))"

section \<open>SyncSecret\<close>

text \<open>
  The end of both branches: nothing is pushed when the vault's value compares equal. \<open>None\<close>
  goes on with the next reference.
\<close>

definition pushUnlessEqual :: "('w, go_error option) akv \<Rightarrow> ('w, go_error option option) exm" where
  "pushUnlessEqual push =
     andThen (onAkv theSecret) (\<lambda>sec.
       let equal = (case bValue (sBundle sec) of None \<Rightarrow> False | Some v \<Rightarrow> fst (ByteCompare (sValue sec) v)) in
       if equal then ret None
       else andThen (onAkv push) (\<lambda>err. case err of Some e \<Rightarrow> ret (Some (Some e)) | None \<Rightarrow> ret None))"

text \<open>The branches for the types \<open>crt\<close> and \<open>pem\<close>: the template, the comparison, the push.\<close>

definition crtPush :: "CertificateSecretRef \<Rightarrow> ('w, go_error option option) exm" where
  "crtPush cert =
     seq (if Templating cert = BASE64EN_TEMPLATING
          then andThen (onAkv theSecret) (\<lambda>sec. onAkv (setValue (base64Encode (sValue sec))))
          else ret ())
       (pushUnlessEqual PushSecretToKeyVault)"

definition pemPush :: "CertificateSecretRef \<Rightarrow> ('w, go_error option option) exm" where
  "pemPush cert =
     seq (if Templating cert = PEMTOPFX_TEMPLATING
          then andThen theRunners (\<lambda>c. onAkv (setValue (base64Encode (PFXCertificate c))))
          else if Templating cert = BASE64EN_TEMPLATING
          then andThen theRunners (\<lambda>c. onAkv (setValue (base64Encode (PemBundle c))))
          else ret ())
       (pushUnlessEqual PushCertificateToKeyVault)"

definition syncRef :: "'w env \<Rightarrow> string \<Rightarrow> unix_seconds option \<Rightarrow> CertificateSecretRef \<Rightarrow>
    ('w, go_error option option) exm" where
  "syncRef E namespace expires cert =
     andThen (kGetSecret (env_kube E) \<lparr>nn_Namespace = namespace, nn_Name = SecretName cert\<rparr>) (\<lambda>r. case r of
       Inl err \<Rightarrow> ret (Some (Some err))
     | Inr k8sSecret \<Rightarrow>
     (case map_of (mapData (Data k8sSecret)) (SecretKey cert) of
       None \<Rightarrow> ret (Some (Some secretKeyMissing))
     | Some secretData \<Rightarrow>
         seq (onAkv (setKvSecret \<lparr>sName = KVSecretName cert, sValue = secretData, sExpires = expires,
                sBundle = emptyBundle\<rparr>))
         (andThen (onAkv CheckKVSecretExistence) (\<lambda>err. case err of
            Some e \<Rightarrow> ret (Some (Some e))
          | None \<Rightarrow>
              if RefType cert = ''crt'' then crtPush cert
              else if RefType cert = ''pem'' then pemPush cert
              else ret None))))"

definition SyncSecret :: "'w env \<Rightarrow> string \<Rightarrow> CertificateSecretRef list \<Rightarrow> ('w, go_error option) exm" where
  "SyncSecret E namespace certRef =
     andThen theRunners (\<lambda>c.
       let expires = (if ExpirationTime c \<noteq> 0 then Some (ExpirationTime c) else None) in
       andThen (forEach certRef (syncRef E namespace expires)) (\<lambda>r. case r of
         Some result \<Rightarrow> ret result
       | None \<Rightarrow> ret None))"

section \<open>OpenSSLGenerator\<close>

definition storeCert :: "string \<Rightarrow> bytes \<Rightarrow> Certificates \<Rightarrow> Certificates" where
  "storeCert key d c =
     (if key = ''tls.crt'' then c\<lparr>TLSCrt := d\<rparr>
      else if key = ''tls.key'' then c\<lparr>TLSKey := d\<rparr>
      else if key = ''ca.crt'' then c\<lparr>CACrt := d\<rparr>
      else if key = ''tls-combined.pem'' then c\<lparr>PemBundle := d\<rparr>
      else c)"

definition loadRef :: "'w env \<Rightarrow> string \<Rightarrow> CertificateSecretRef \<Rightarrow> ('w, go_error option) exm" where
  "loadRef E namespace cert =
     andThen (kGetSecret (env_kube E) \<lparr>nn_Namespace = namespace, nn_Name = SecretName cert\<rparr>) (\<lambda>r. case r of
       Inl err \<Rightarrow> ret (Some err)
     | Inr k8sSecret \<Rightarrow>
     (case map_of (mapData (Data k8sSecret)) (SecretKey cert) of
       None \<Rightarrow> ret (Some secretKeyMissing)
     | Some secretData \<Rightarrow>
         andThen theRunners (\<lambda>c. seq (setRunners (storeCert (SecretKey cert) secretData c)) (ret None))))"

definition OpenSSLGenerator :: "'w env \<Rightarrow> string \<Rightarrow> CertificateSecretRef list \<Rightarrow> ('w, go_error option) exm" where
  "OpenSSLGenerator E namespace certRefs =
     seq (setRunners NewOpenSSLRunners)
     (andThen (forEach certRefs (loadRef E namespace)) (\<lambda>r. case r of
        Some e \<Rightarrow> ret (Some e)
      | None \<Rightarrow> andThen (onRunners (ProcessCertificates (env_kube E) (env_os E) (env_x509 E)))
          (\<lambda>err. case err of Some e \<Rightarrow> ret (Some e) | None \<Rightarrow> ret None)))"

definition syncSecrets :: "'w env \<Rightarrow> string \<Rightarrow> ('w, go_error option) exm" where
  "syncSecrets E namespace =
     andThen theExport (\<lambda>x.
       let secretRefs = eCertificateSecretRef (eAzureKV x) in
       andThen (OpenSSLGenerator E namespace secretRefs) (\<lambda>err. case err of
         Some e \<Rightarrow> ret (Some e)
       | None \<Rightarrow> andThen (SyncSecret E namespace secretRefs) (\<lambda>err. case err of
           Some e \<Rightarrow> ret (Some e) | None \<Rightarrow> ret None)))"

section \<open>DeleteSecret\<close>

text \<open>A loop that collects errors (\<open>errList = append(errList, err); continue\<close>).\<close>

fun collectErrors :: "'x list \<Rightarrow> ('x \<Rightarrow> ('s, go_error option) go) \<Rightarrow> ('s, go_error list) go" where
  "collectErrors [] body = ret []"
| "collectErrors (x # xs) body =
     andThen (body x) (\<lambda>err. andThen (collectErrors xs body)
       (\<lambda>errs. ret ((case err of None \<Rightarrow> [] | Some e \<Rightarrow> [e]) @ errs)))"

text \<open>Deletion, and then the purge when the resource asks for it.\<close>

definition deleteAndPurge :: "('w, go_error option) akv \<Rightarrow> ('w, go_error option) akv \<Rightarrow> ('w, go_error option) exm" where
  "deleteAndPurge delete purge =
     andThen (onAkv delete) (\<lambda>err. case err of
       Some e \<Rightarrow> ret (Some e)
     | None \<Rightarrow> andThen theExport (\<lambda>x.
         if OnDeletePurge (eAzureKV x)
         then andThen (onAkv purge) (\<lambda>err. case err of Some e \<Rightarrow> ret (Some e) | None \<Rightarrow> ret None)
         else ret None))"

definition deleteRef :: "'w env \<Rightarrow> CertificateSecretRef \<Rightarrow> ('w, go_error option) exm" where
  "deleteRef E cert =
     seq (onAkv (setKvSecret (emptyKvSecret\<lparr>sName := KVSecretName cert\<rparr>)))
       (if RefType cert = ''crt''
        then deleteAndPurge DeleteSecretFromKeyVault (PurgeDeletedSecretFromKeyVault (env_kube E))
        else if RefType cert = ''pem''
        then deleteAndPurge DeleteCertificateFromKeyVault (PurgeDeletedCertificateFromKeyVault (env_kube E))
        else ret None)"

text \<open>\<open>nil\<close> stands for the references of the resource, the argument the reconciler passes.\<close>

definition DeleteSecrets :: "'w env \<Rightarrow> CertificateSecretRef list option \<Rightarrow> ('w, go_error option) exm" where
  "DeleteSecrets E certRef =
     andThen (case certRef of
         None \<Rightarrow> andThen theExport (\<lambda>x. ret (eCertificateSecretRef (eAzureKV x)))
       | Some refs \<Rightarrow> ret refs) (\<lambda>refs.
     andThen (collectErrors refs (deleteRef E)) (\<lambda>errList.
       if 0 < length errList then ret (Some (PlainError ''one or more errors occurred during deletion''))
       else ret None))"

section \<open>addFinalizer\<close>

text \<open>An update replaces the object by what the API server returns; a failed one leaves it changed in memory.\<close>

definition addFinalizer :: "'w env \<Rightarrow> ('w, go_error option) exm" where
  "addFinalizer E =
     andThen theExport (\<lambda>x.
       if \<not> ContainsString (Finalizers (eMeta x)) FINALIZER then
         (let x' = x\<lparr>eMeta := (eMeta x)\<lparr>Finalizers := Finalizers (eMeta x) @ [FINALIZER]\<rparr>\<rparr> in
          seq (setExport x')
          (andThen (kUpdateExport (env_kube E) x') (\<lambda>r. case r of
             Inl err \<Rightarrow> ret (Some err)
           | Inr x'' \<Rightarrow> seq (setExport x'') (ret None))))
       else ret None)"

section \<open>Reconcile\<close>

text \<open>\<open>r.eventHandler.ReturnEvent(r.Ctx, r.ExportCertificateSecret, n, err, msg)\<close>\<close>

definition returnEvent :: "'w env \<Rightarrow> go_int \<Rightarrow> go_error option \<Rightarrow> string \<Rightarrow> ('w, Result \<times> go_error option) exm" where
  "returnEvent E n err msg = andThen theExport (\<lambda>x.
     ReturnEvent (env_kube E) DefaultOptions (exportOps (env_kube E)) x n err msg)"

text \<open>From the credentials on.\<close>

definition syncWithVault :: "'w env \<Rightarrow> NamespacedName \<Rightarrow> go_int \<Rightarrow> ('w, Result \<times> go_error option) exm" where
  "syncWithVault E req retryCount =
     andThen (setKubeClient E) (\<lambda>err. case err of
       Some e \<Rightarrow> returnEvent E retryCount (Some e) ''Failed to set Kubernetes client''
     | None \<Rightarrow>
     andThen theExport (\<lambda>x.
     andThen (kGetServiceAccount (env_kube E)
         \<lparr>nn_Namespace = nn_Namespace req, nn_Name = sa_Name (eServiceAccountRef (eAzureKV x))\<rparr>) (\<lambda>r. case r of
       Inl e \<Rightarrow> returnEvent E retryCount (Some e) ''Failed to fetch ServiceAccount''
     | Inr serviceAccount \<Rightarrow>
     andThen (AuthorizerForWorkloadIdentity (env_kube E) (env_msal E)
         \<lparr>waServiceAccount = serviceAccount, SaAudiences = Audiences (eServiceAccountRef (eAzureKV x)),
          Authorizer = None\<rparr>) (\<lambda>(azureauth, err). case err of
       Some e \<Rightarrow>
         seq (setExport (SetRetryCount (GetRetryCount x + 1) x))
           (returnEvent E retryCount (Some e) ''Failed to create authorizer for Workload Identity'')
     | None \<Rightarrow>
         seq (setAkvClient E (Authorizer azureauth) (eVaultUrl (eAzureKV x)))
         (andThen (syncSecrets E (nn_Namespace req)) (\<lambda>err. case err of
            Some e \<Rightarrow> returnEvent E retryCount (Some e) ''Failed to sync secrets''
          | None \<Rightarrow>
              andThen theExport (\<lambda>x.
              seq (setExport (SetRetryCount 0 x))
                (returnEvent E 0 None []))))))))"

text \<open>After the retry count has been incremented in memory.\<close>

definition reconcileCounted :: "'w env \<Rightarrow> NamespacedName \<Rightarrow> go_int \<Rightarrow> ('w, Result \<times> go_error option) exm" where
  "reconcileCounted E req retryCount =
     andThen theExport (\<lambda>x.
     andThen (kStatusExport (env_kube E) x) (\<lambda>r. case r of
       Inl e \<Rightarrow> returnEvent E (GetRetryCount x) (Some e) ''Failed to update ExportCertificateSecret status''
     | Inr x' \<Rightarrow>
         seq (setExport x')
         (andThen (if DeletionTimestamp (eMeta x') = None then addFinalizer E else ret None) (\<lambda>err. case err of
            Some e \<Rightarrow> returnEvent E retryCount (Some e) ''Failed to add finalizer''
          | None \<Rightarrow> syncWithVault E req retryCount))))"

definition Reconcile :: "'w env \<Rightarrow> NamespacedName \<Rightarrow> ('w, Result \<times> go_error option) exm" where
  "Reconcile E req =
     andThen (preChecks E req) (\<lambda>err. case err of
       Some e \<Rightarrow> ret (emptyResult, Some e)
     | None \<Rightarrow>
     andThen theExport (\<lambda>x.
       if DeletionTimestamp (eMeta x) \<noteq> None then
         seq (DeleteSecrets E (Some (eCertificateSecretRef (eAzureKV x))))
         (andThen (RemoveFinalizers (env_kube E) TExportCertificateSecret) (\<lambda>err. ret (emptyResult, err)))
       else if MaxRetries \<le>s GetRetryCount x then
         returnEvent E (GetRetryCount x) (Some (PlainError ''max retries exceeded'')) ''Max retries exceeded''
       else
         (let retryCount = GetRetryCount x + 1 in
          seq (setExport (SetRetryCount retryCount x)) (reconcileCounted E req retryCount))))"

section \<open>Rules\<close>

lemma run_theExport [go_run]:
  "theExport s = (case ExportObj s of None \<Rightarrow> nilDeref s | Some x \<Rightarrow> (Done x, s))"
  by (simp add: theExport_def go_run split: option.split)

lemma run_setExport [go_run]: "setExport x s = (Done (), s\<lparr>ExportObj := Some x\<rparr>)"
  by (simp add: setExport_def go_run)

lemma run_theRunners [go_run]:
  "theRunners s = (case OpenSSLRunners s of None \<Rightarrow> nilDeref s | Some c \<Rightarrow> (Done c, s))"
  by (simp add: theRunners_def go_run split: option.split)

lemma run_setRunners [go_run]: "setRunners c s = (Done (), s\<lparr>OpenSSLRunners := Some c\<rparr>)"
  by (simp add: setRunners_def go_run)

lemma run_onRunners:
  "onRunners m s = (case OpenSSLRunners s of
     None \<Rightarrow> nilDeref s
   | Some c \<Rightarrow> (case m \<lparr>trace = trace s, world = world s, osr = c\<rparr> of
       (r, t) \<Rightarrow> (r, s\<lparr>trace := trace t, world := world t, OpenSSLRunners := Some (osr t)\<rparr>)))"
  by (simp add: onRunners_def zoom_def split: option.split)

lemma adds_onRunners: "adds P m \<Longrightarrow> adds P (onRunners m)"
  unfolding onRunners_def by (rule adds_zoom) auto

end
