(* ===== verification/Export_Invariants.thy ===== *)
theory Export_Invariants
  imports Export_Controller
begin

text \<open>
  Invariants of a synchronisation: what must be shown of the requests and of the operations on
  the Key Vault object for a predicate on the reconciler to hold throughout \<open>syncSecrets\<close>.
\<close>

section \<open>The interface\<close>

text \<open>
  \<open>I\<close> is the invariant of the reconciler, \<open>J\<close> that of the Key Vault object it holds, \<open>R\<close> the
  references that a synchronisation may work on.
\<close>

locale sync_invariant =
  fixes E :: "'w env" and R :: "CertificateSecretRef set" and I :: "'w est \<Rightarrow> bool" and J :: "'w kvst \<Rightarrow> bool"
  assumes read_secret: "keeps I (kGetSecret (env_kube E) key)"
    and set_runners: "keeps I (setRunners c)"
    and process: "keeps I (onRunners (ProcessCertificates (env_kube E) (env_os E) (env_x509 E)))"
    and on_vault: "keeps J upd \<Longrightarrow> keeps I (onAkv (upd :: ('w, unit) akv))"
      "keeps J op \<Longrightarrow> keeps I (onAkv (op :: ('w, go_error option) akv))"
      "keeps J theSecret \<Longrightarrow> keeps I (onAkv theSecret)"
    and secret: "keeps J theSecret"
    and named: "cert \<in> R \<Longrightarrow> keeps J (setKvSecret \<lparr>sName = KVSecretName cert, sValue = d, sExpires = e, sBundle = b\<rparr>)"
    and set_value: "keeps J (setValue y)"
    and check: "keeps J CheckKVSecretExistence"
    and push: "keeps J PushSecretToKeyVault" "keeps J PushCertificateToKeyVault"
    and held: "I s \<Longrightarrow> ExportObj s = Some x \<Longrightarrow> set (eCertificateSecretRef (eAzureKV x)) \<subseteq> R"
begin

lemma keeps_parts: "keeps I theExport" "keeps I theRunners"
  unfolding theExport_def theRunners_def by (intro go_keeps)+

lemma keeps_push: "keeps J m \<Longrightarrow> keeps I (pushUnlessEqual m)"
  unfolding pushUnlessEqual_def Let_def by (intro go_keeps on_vault secret keeps_parts)

lemma keeps_ref: "cert \<in> R \<Longrightarrow> keeps I (syncRef E ns ex cert)"
  unfolding syncRef_def crtPush_def pemPush_def
  by (intro go_keeps read_secret on_vault secret named check set_value keeps_parts keeps_push push)

lemma keeps_SyncSecret: "set refs \<subseteq> R \<Longrightarrow> keeps I (SyncSecret E ns refs)"
  unfolding SyncSecret_def Let_def by (intro go_keeps keeps_parts keeps_ref) auto

lemma keeps_generator: "keeps I (OpenSSLGenerator E ns refs)"
  unfolding OpenSSLGenerator_def loadRef_def by (intro go_keeps set_runners read_secret keeps_parts process)

lemma keeps_sync: "keeps I (syncSecrets E ns)"
proof (rule keepsI)
  fix s r s'
  assume I: "I s" and run: "syncSecrets E ns s = (r, s')"
  show "I s'"
  proof (cases "ExportObj s")
    case None
    with I run show ?thesis by (simp add: syncSecrets_def run_andThen run_theExport run_nilDeref)
  next
    case (Some x)
    let ?refs = "eCertificateSecretRef (eAzureKV x)"
    have "keeps I (andThen (OpenSSLGenerator E ns ?refs) (\<lambda>err. case err of
         Some e \<Rightarrow> ret (Some e)
       | None \<Rightarrow> andThen (SyncSecret E ns ?refs) (\<lambda>err. case err of Some e \<Rightarrow> ret (Some e) | None \<Rightarrow> ret None)))"
      by (intro go_keeps keeps_generator keeps_SyncSecret held [OF I Some])
    from keepsD [OF this I] run Some show ?thesis
      by (simp add: syncSecrets_def run_andThen [of theExport] run_theExport Let_def)
  qed
qed

end

section \<open>Invariants of the world\<close>

lemma keeps_onRunners:
  assumes "keeps (osgood V v (\<lambda>_. True)) m"
  shows "keeps (cgood E V v) (onRunners m)"
  unfolding onRunners_def
proof (rule keeps_zoom)
  fix s :: "'a est" and t r t'
  assume s: "cgood E V v s" and run: "m t = (r, t')"
    and t: "map_option (\<lambda>c. \<lparr>trace = trace s, world = world s, osr = c\<rparr>) (OpenSSLRunners s) = Some t"
  from s t have "osgood V v (\<lambda>_. True) t" by (auto simp: cgood_def osgood_def)
  from keepsD [OF assms this run] s show "cgood E V v (s\<lparr>trace := trace t', world := world t', OpenSSLRunners := Some (osr t')\<rparr>)"
    by (simp add: cgood_def osgood_def)
qed

lemma keeps_cgood_fields:
  "keeps (cgood E V v) theExport" "keeps (cgood E V v) (setExport x)" "keeps (cgood E V v) theRunners"
  "keeps (cgood E V v) (setRunners c)"
  by (auto simp: theExport_def setExport_def theRunners_def setRunners_def cgood_def intro!: go_keeps)

text \<open>
  The interface holds of every quantity that the requests leave alone. The hypothesis is part of
  the invariant, so that the interpretation has none.
\<close>

lemma keeps_under: "keeps (\<lambda>s. H \<longrightarrow> I s) m \<longleftrightarrow> (H \<longrightarrow> keeps I m)"
  by (cases H) (simp_all add: keeps_def)

lemma keeps_cgood_process:
  assumes "stable_env E V"
  shows "keeps (cgood E V v) (onRunners (ProcessCertificates (env_kube E) (env_os E) X))"
  by (intro keeps_onRunners keeps_ProcessCertificates stableD [OF assms]) (simp add: unprocessed_def)

interpretation stable: sync_invariant E UNIV "\<lambda>s. stable_env E V \<longrightarrow> cgood E V v s" "\<lambda>t. stable_env E V \<longrightarrow> kvgood E V v t" for E V v
  by unfold_locales
    (auto simp: keeps_under intro!: keeps_cgood_fields keeps_cgood_onAkv keeps_kvgood_secret keeps_kvgood_ops
      keeps_cgood_process cgf.keeps_kube dest: stableD(1))

lemma keeps_syncSecrets:
  assumes "stable_env E V"
  shows "keeps (cgood E V v) (syncSecrets E ns)"
  using stable.keeps_sync [of E V v ns] assms by (simp add: keeps_under)

section \<open>Invariants of a reconciliation\<close>

lemma SetRetryCount_spec [simp]: "eAzureKV (SetRetryCount n x) = eAzureKV x"
  by (simp add: SetRetryCount_def)

subsection \<open>The resource in memory\<close>

text \<open>Documented behaviour of the API server: a write of a resource returns it with the spec it was sent.\<close>

definition returns_spec :: "'w kube \<Rightarrow> bool" where
  "returns_spec K \<longleftrightarrow> (\<forall>y w z. fst (status_export K y w) = Inr z \<or> fst (update_export K y w) = Inr z \<longrightarrow> eAzureKV z = eAzureKV y)"

definition holdsSpec :: "ExportAzureKVProvider \<Rightarrow> 'w est \<Rightarrow> bool" where
  "holdsSpec p s \<longleftrightarrow> (\<exists>y. ExportObj s = Some y \<and> eAzureKV y = p)"

lemma keeps_at_spec:
  assumes "\<And>s. I s \<Longrightarrow> holdsSpec p s" and "\<And>x. eAzureKV x = p \<Longrightarrow> keeps I (f x)"
  shows "keeps I (andThen theExport f)"
proof (rule keepsI)
  fix s r s'
  assume s: "I s" and run: "andThen theExport f s = (r, s')"
  with assms(1) [OF s] obtain y where "eAzureKV y = p" and "f y s = (r, s')"
    by (auto simp: holdsSpec_def run_andThen run_theExport)
  from keepsD [OF assms(2) [OF this(1)] s this(2)] show "I s'" .
qed

lemma keeps_status_spec:
  assumes "returns_spec K" and "eAzureKV x = p" and "keeps I (kStatusExport K x)"
    and "\<And>e. keeps I (fail e)" and "\<And>y. eAzureKV y = p \<Longrightarrow> keeps I (cont y)"
  shows "keeps I (andThen (kStatusExport K x) (\<lambda>r. case r of Inl e \<Rightarrow> fail e | Inr y \<Rightarrow> cont y))"
proof (rule keepsI)
  fix s r s'
  assume s: "I s" and run: "andThen (kStatusExport K x) (\<lambda>r. case r of Inl e \<Rightarrow> fail e | Inr y \<Rightarrow> cont y) s = (r, s')"
  let ?a = "fst (status_export K x (world s))"
  obtain s1 where call: "kStatusExport K x s = (Done ?a, s1)" by (simp add: kStatusExport_def run_call)
  note s1 = keepsD [OF assms(3) s call]
  have "eAzureKV y = p" if "?a = Inr y" for y using assms(1,2) that by (auto simp: returns_spec_def)
  with run keepsD [OF assms(4) s1] keepsD [OF assms(5) s1] show "I s'"
    by (auto simp: run_andThen [of "kStatusExport K x"] call split: sum.splits)
qed

lemma keeps_addFinalizer_spec:
  assumes "returns_spec (env_kube E)" and "\<And>s. I s \<Longrightarrow> holdsSpec p s"
    and "\<And>x. eAzureKV x = p \<Longrightarrow> keeps I (setExport x)" and "\<And>x. keeps I (kUpdateExport (env_kube E) x)"
  shows "keeps I (addFinalizer E)"
proof -
  have update: "keeps I (andThen (kUpdateExport (env_kube E) x) (\<lambda>r. case r of
      Inl err \<Rightarrow> ret (Some err) | Inr y \<Rightarrow> seq (setExport y) (ret None)))" if x: "eAzureKV x = p" for x
  proof (rule keepsI)
    fix s r s'
    assume s: "I s" and run: "andThen (kUpdateExport (env_kube E) x) (\<lambda>r. case r of
        Inl err \<Rightarrow> ret (Some err) | Inr y \<Rightarrow> seq (setExport y) (ret None)) s = (r, s')"
    let ?a = "fst (update_export (env_kube E) x (world s))"
    obtain s1 where call: "kUpdateExport (env_kube E) x s = (Done ?a, s1)" by (simp add: kUpdateExport_def run_call)
    note s1 = keepsD [OF assms(4) s call]
    have "eAzureKV y = p" if "?a = Inr y" for y using assms(1) x that by (auto simp: returns_spec_def)
    with run s1 keepsD [OF assms(3) s1 run_setExport] show "I s'"
      by (auto simp: run_andThen call run_setExport run_ret split: sum.splits)
  qed
  show ?thesis
    unfolding addFinalizer_def Let_def
    by (intro keeps_at_spec [OF assms(2)] go_keeps update assms(3)) simp_all
qed

subsection \<open>The interface\<close>

text \<open>What comes after the checks, with the resource in memory.\<close>

definition afterChecks :: "'w env \<Rightarrow> NamespacedName \<Rightarrow> ('w, Result \<times> go_error option) exm" where
  "afterChecks E req = andThen theExport (\<lambda>x.
       if DeletionTimestamp (eMeta x) \<noteq> None then
         seq (DeleteSecrets E (Some (eCertificateSecretRef (eAzureKV x))))
         (andThen (RemoveFinalizers (env_kube E) TExportCertificateSecret) (\<lambda>err. ret (emptyResult, err)))
       else if MaxRetries \<le>s GetRetryCount x then
         returnEvent E (GetRetryCount x) (Some (PlainError ''max retries exceeded'')) ''Max retries exceeded''
       else
         (let retryCount = GetRetryCount x + 1 in
          seq (setExport (SetRetryCount retryCount x)) (reconcileCounted E req retryCount)))"

lemma Reconcile_afterChecks:
  "Reconcile E req = andThen (preChecks E req) (\<lambda>err. case err of Some e \<Rightarrow> ret (emptyResult, Some e) | None \<Rightarrow> afterChecks E req)"
  unfolding Reconcile_def afterChecks_def by (rule refl)

text \<open>
  \<open>I\<close> is an invariant of the reconciler while it works on a resource \<open>req\<close> with the spec \<open>p\<close>; what is to be
  shown are its requests, and the parts that deal with the vault.
\<close>

locale reconcile_invariant =
  fixes E :: "'w env" and req :: NamespacedName and p :: ExportAzureKVProvider and I :: "'w est \<Rightarrow> bool"
  assumes at_spec: "(\<And>x. eAzureKV x = p \<Longrightarrow> keeps I (f x)) \<Longrightarrow> keeps I (andThen theExport (f :: _ \<Rightarrow> ('w, Result \<times> go_error option) exm))"
    and set_spec: "eAzureKV x = p \<Longrightarrow> keeps I (setExport x)"
    and status: "eAzureKV x = p \<Longrightarrow> (\<And>e. keeps I (fail e)) \<Longrightarrow> (\<And>y. eAzureKV y = p \<Longrightarrow> keeps I (cont y)) \<Longrightarrow>
      keeps I (andThen (kStatusExport (env_kube E) x)
        (\<lambda>r. case r of Inl e \<Rightarrow> (fail e :: ('w, Result \<times> go_error option) exm) | Inr y \<Rightarrow> cont y))"
    and requests: "keeps I (kGetExport (env_kube E) k)" "keeps I (kRecordEvent (env_kube E) k ty rs msg)"
      "keeps I (timeNow (env_kube E))" "keeps I (kStatusExport (env_kube E) x)" "keeps I (kGetServiceAccount (env_kube E) k)"
    and credentials: "keeps I (setKubeClient E)" "keeps I (AuthorizerForWorkloadIdentity (env_kube E) (env_msal E) aza)"
    and finalizers: "keeps I (addFinalizer E)" "keeps I (RemoveFinalizers (env_kube E) TExportCertificateSecret)"
    and vault: "keeps I (seq (setAkvClient E auth (eVaultUrl p)) (syncSecrets E (nn_Namespace req)))"
    and deletion: "keeps I (DeleteSecrets E (Some (eCertificateSecretRef p)))"
begin

lemma keeps_returnEvent: "keeps I (returnEvent E n err msg)"
  unfolding returnEvent_def ReturnEvent_def handleSuccess_def handleMaxRetriesExceeded_def scheduleNextRetry_def
    updateStatus_def exportOps_simps Let_def
  by (intro at_spec go_keeps requests)

lemma keeps_vault:
  assumes "eAzureKV x = p" and "\<And>err. keeps I (f err)"
  shows "keeps I (seq (setAkvClient E auth (eVaultUrl (eAzureKV x))) (andThen (syncSecrets E (nn_Namespace req)) f))"
proof -
  have "seq (setAkvClient E auth (eVaultUrl (eAzureKV x))) (andThen (syncSecrets E (nn_Namespace req)) f) =
      andThen (seq (setAkvClient E auth (eVaultUrl p)) (syncSecrets E (nn_Namespace req))) f"
    by (simp add: andThen_assoc assms(1))
  then show ?thesis by (simp only:) (rule keeps_andThen [OF vault assms(2)])
qed

lemma keeps_syncWithVault: "keeps I (syncWithVault E req n)"
  unfolding syncWithVault_def
  by (intro keeps_vault at_spec go_keeps credentials requests keeps_returnEvent set_spec | simp)+

lemma keeps_counted: "keeps I (reconcileCounted E req n)"
  unfolding reconcileCounted_def
  by (intro at_spec status go_keeps keeps_returnEvent set_spec finalizers keeps_syncWithVault)

lemma keeps_afterChecks: "keeps I (afterChecks E req)"
  unfolding afterChecks_def Let_def
  by (intro at_spec go_keeps finalizers keeps_returnEvent set_spec keeps_counted | simp add: deletion)+

end

end
