(* ===== verification/Export_Retries.thy ===== *)
theory Export_Retries
  imports Export_Invariants
begin

text \<open>
  The life of an export resource's retry count. The count is meant to bound the attempts after
  failures; the theorems here follow the stored count through whole reconciliations and show
  what becomes of it after successes.
\<close>

section \<open>The retry count\<close>

text \<open>
  The documented behaviour of the status subresource, for the retry counts \<open>rc\<close> of the stored
  resources: a read returns the stored count, a status update stores the count it is given, an
  update of the resource and a listing leave it alone. Objects keep their key.
\<close>

definition tracks_retries :: "'w kube \<Rightarrow> ('w \<Rightarrow> NamespacedName \<Rightarrow> go_int option) \<Rightarrow> bool" where
  "tracks_retries K rc \<longleftrightarrow>
     (\<forall>key w x. fst (get_export K key w) = Inr x \<longrightarrow> rc w key = Some (GetRetryCount x) \<and> exportKey x = key)
   \<and> (\<forall>x w. rc (snd (status_export K x w)) =
        (if isl (fst (status_export K x w)) then rc w else (rc w)(exportKey x \<mapsto> GetRetryCount x)))
   \<and> (\<forall>x w. rc (snd (update_export K x w)) = rc w)
   \<and> (\<forall>ns w. rc (snd (list_exports K ns w)) = rc w)"

lemma tracks_retriesD:
  assumes "tracks_retries K rc"
  shows "fst (get_export K key w) = Inr x \<Longrightarrow> rc w key = Some (GetRetryCount x) \<and> exportKey x = key"
    and "rc (snd (status_export K y w)) = (if isl (fst (status_export K y w)) then rc w else (rc w)(exportKey y \<mapsto> GetRetryCount y))"
    and "rc (snd (update_export K y w)) = rc w"
    and "rc (snd (list_exports K ns w)) = rc w"
  using assms unfolding tracks_retries_def by blast+

text \<open>The CRD is installed. (Where it is not, a reconciliation works on the resource of the one before.)\<close>

definition crd_installed :: "'w kube \<Rightarrow> bool" where
  "crd_installed K \<longleftrightarrow> (\<forall>n w e. fst (get_crd K n w) = Inl e \<longrightarrow> \<not> IsNotFound e)"

lemma reported_simps [simp]:
  "exportKey (reported x n err now) = exportKey x" "GetRetryCount (reported x n err now) = GetRetryCount x"
  by (simp_all add: reported_def ecs.key_set_conditions ecs.retry_set_conditions)

text \<open>What \<open>ReturnEvent\<close> writes is the stored count again.\<close>

lemma keeps_cgood_returnEvent:
  assumes st: "stable_kube (env_kube E) rc" and tr: "tracks_retries (env_kube E) rc"
  shows "keeps (cgood E rc v) (returnEvent E n err msg)"
proof (rule keepsI)
  fix s r s'
  assume I: "cgood E rc v s" and run: "returnEvent E n err msg s = (r, s')"
  let ?K = "env_kube E"
  show "cgood E rc v s'"
  proof (cases "ExportObj s")
    case None
    with run I show ?thesis by (simp add: returnEvent_def run_andThen run_theExport run_nilDeref)
  next
    case (Some x)
    let ?w = "snd (get_export ?K (exportKey x) (world s))"
    have w: "rc ?w = rc (world s)" using st by (simp add: stable_kube_def)
    show ?thesis
    proof (cases "fst (get_export ?K (exportKey x) (world s))")
      case (Inl e)
      with run Some I w show ?thesis
        by (auto simp: returnEvent_def go_run ReturnEvent_def kGetExport_def cgood_def)
    next
      case (Inr fresh)
      let ?w1 = "snd (record_event ?K (exportKey fresh) (eventType n err) (eventReason n err) (eventMessage n err) ?w)"
      let ?w2 = "snd (time_now ?K ?w1)"
      have w2: "rc ?w2 = rc (world s)" using st w by (simp add: stable_kube_def)
      from tracks_retriesD(1) [OF tr Inr] have key: "rc (world s) (exportKey fresh) = Some (GetRetryCount fresh)"
        by simp
      have "world s' = snd (status_export ?K (reported fresh n err (fst (time_now ?K ?w1))) ?w2)" "AkvClient s' = AkvClient s"
        using run Some by (simp_all add: returnEvent_def run_andThen run_theExport ReturnEvent_run [OF Inr] Let_def split: prod.splits) auto
      with tracks_retriesD(2) [OF tr] w2 key I show ?thesis
        by (auto simp: cgood_def fun_upd_idem)
    qed
  qed
qed

lemma keeps_cgood_syncWithVault:
  assumes st: "stable_env E rc" and tr: "tracks_retries (env_kube E) rc"
  shows "keeps (cgood E rc v) (syncWithVault E req n)"
  unfolding syncWithVault_def
  by (intro go_keeps keeps_cgood_set keeps_cgood_fields cgf.keeps_kube stableD(1) [OF st] cgf.keeps_auth
      keeps_cgood_returnEvent keeps_syncSecrets st tr)

lemma keeps_addFinalizer:
  assumes "tracks_retries (env_kube E) rc"
  shows "keeps (cgood E rc v) (addFinalizer E)"
  unfolding addFinalizer_def kUpdateExport_def Let_def
  by (intro go_keeps keeps_cgood_fields cgf.keeps_request tracks_retriesD(3) [OF assms])

section \<open>One reconciliation\<close>

text \<open>The Key Vault client of the reconciler is \<open>nil\<close> or one it has made itself.\<close>

definition own_client :: "'w env \<Rightarrow> ('w, 'z) cst_scheme \<Rightarrow> bool" where
  "own_client E s \<longleftrightarrow> (\<forall>k. AkvClient s = Some k \<longrightarrow> (\<exists>token. Client k = NewAzureKeyVaultClient (env_http E) token))"

text \<open>The reconciliation finds the CRD and a resource that is not being deleted.\<close>

definition finds :: "'w env \<Rightarrow> NamespacedName \<Rightarrow> 'w \<Rightarrow> ExportCertificateSecret \<Rightarrow> bool" where
  "finds E req w x \<longleftrightarrow> (\<exists>crd. fst (get_crd (env_kube E) EXPORT_CERT_SECRET_CRD w) = Inr crd)
     \<and> fst (get_export (env_kube E) req (snd (get_crd (env_kube E) EXPORT_CERT_SECRET_CRD w))) = Inr x
     \<and> DeletionTimestamp (eMeta x) = None"

lemma preChecks_found:
  assumes "finds E req (world s) x"
  shows "preChecks E req s = (Done None, s\<lparr>trace := trace s @ [GetCRD EXPORT_CERT_SECRET_CRD, GetExport req],
    world := snd (get_export (env_kube E) req (snd (get_crd (env_kube E) EXPORT_CERT_SECRET_CRD (world s)))),
    ExportObj := Some x\<rparr>)"
  using assms by (auto simp: finds_def preChecks_def kGetCRD_def kGetExport_def go_run)

text \<open>A reconciliation of a resource with retries left: the count, then the rest.\<close>

lemma Reconcile_counts:
  assumes "finds E req (world s) x" and "\<not> MaxRetries \<le>s GetRetryCount x"
  obtains s1 where "Reconcile E req s = reconcileCounted E req (GetRetryCount x + 1) s1"
    and "ExportObj s1 = Some (SetRetryCount (GetRetryCount x + 1) x)" and "AkvClient s1 = AkvClient s"
    and "world s1 = snd (get_export (env_kube E) req (snd (get_crd (env_kube E) EXPORT_CERT_SECRET_CRD (world s))))"
    and "trace s1 = trace s @ [GetCRD EXPORT_CERT_SECRET_CRD, GetExport req]"
proof -
  from assms(1) have del: "DeletionTimestamp (eMeta x) = None" by (simp add: finds_def)
  have "Reconcile E req s = reconcileCounted E req (GetRetryCount x + 1)
     (s\<lparr>trace := trace s @ [GetCRD EXPORT_CERT_SECRET_CRD, GetExport req],
       world := snd (get_export (env_kube E) req (snd (get_crd (env_kube E) EXPORT_CERT_SECRET_CRD (world s)))),
       ExportObj := Some (SetRetryCount (GetRetryCount x + 1) x)\<rparr>)"
    unfolding Reconcile_def
    by (simp add: andThen_Done [where m = "preChecks E req" and s = s, OF preChecks_found [OF assms(1)]] run_andThen [of theExport] run_theExport del assms(2)
        Let_def run_andThen [of "setExport y" for y] run_setExport)
  then show thesis by (rule that) simp_all
qed

lemma stable_find:
  assumes "stable_env E rc" and "tracks_retries (env_kube E) rc" and "finds E req w x"
  shows "rc (snd (get_export (env_kube E) req (snd (get_crd (env_kube E) EXPORT_CERT_SECRET_CRD w)))) = rc w"
    and "rc w req = Some (GetRetryCount x)" and "exportKey x = req"
proof -
  have crd: "rc (snd (get_crd (env_kube E) n w)) = rc w" and get: "rc (snd (get_export (env_kube E) k w)) = rc w" for n k w
    using stableD(1) [OF assms(1)] by (auto simp: stable_kube_def)
  show "rc (snd (get_export (env_kube E) req (snd (get_crd (env_kube E) EXPORT_CERT_SECRET_CRD w)))) = rc w"
    by (simp add: crd get)
  from assms(3) have "fst (get_export (env_kube E) req (snd (get_crd (env_kube E) EXPORT_CERT_SECRET_CRD w))) = Inr x"
    by (simp add: finds_def)
  from tracks_retriesD(1) [OF assms(2) this] show "rc w req = Some (GetRetryCount x)" and "exportKey x = req"
    by (simp_all add: crd)
qed

text \<open>The status update, and what follows it.\<close>

definition afterStatus :: "'w env \<Rightarrow> NamespacedName \<Rightarrow> go_int \<Rightarrow> ExportCertificateSecret \<Rightarrow> ('w, Result \<times> go_error option) exm" where
  "afterStatus E req n y =
     andThen (if DeletionTimestamp (eMeta y) = None then addFinalizer E else ret None) (\<lambda>err. case err of
       Some e \<Rightarrow> returnEvent E n (Some e) ''Failed to add finalizer''
     | None \<Rightarrow> syncWithVault E req n)"

lemma reconcileCounted_run:
  assumes "ExportObj s = Some x"
  shows "reconcileCounted E req n s =
    (let s1 = s\<lparr>trace := trace s @ [StatusExport x], world := snd (status_export (env_kube E) x (world s))\<rparr> in
     case fst (status_export (env_kube E) x (world s)) of
       Inl e \<Rightarrow> returnEvent E (GetRetryCount x) (Some e) ''Failed to update ExportCertificateSecret status'' s1
     | Inr y \<Rightarrow> afterStatus E req n y (s1\<lparr>ExportObj := Some y\<rparr>))"
proof -
  have "theExport s = (Done x, s)" by (simp add: run_theExport assms)
  note start = andThen_Done [where m = theExport and s = s, OF this]
  show ?thesis
    by (cases "fst (status_export (env_kube E) x (world s))")
      (simp_all add: reconcileCounted_def start kStatusExport_def run_andThen [of "call e f" for e f] run_call
        run_andThen [of "setExport y" for y] run_setExport afterStatus_def Let_def)
qed

lemma keeps_afterStatus:
  assumes st: "stable_env E rc" and tr: "tracks_retries (env_kube E) rc"
  shows "keeps (cgood E rc v) (afterStatus E req n y)"
  unfolding afterStatus_def
  by (intro go_keeps keeps_addFinalizer tr keeps_cgood_returnEvent stableD(1) [OF st] keeps_cgood_syncWithVault st)

text \<open>After the status update has been accepted the stored counts stay as they are.\<close>

lemma reconcileCounted_keeps:
  assumes st: "stable_env E rc" and tr: "tracks_retries (env_kube E) rc" and "own_client E s"
    and "ExportObj s = Some x" and "fst (status_export (env_kube E) x (world s)) = Inr y"
    and run: "reconcileCounted E req n s = (r, s')"
  shows "rc (world s') = (rc (world s))(exportKey x \<mapsto> GetRetryCount x)"
proof -
  let ?w = "snd (status_export (env_kube E) x (world s))"
  let ?s1 = "s\<lparr>trace := trace s @ [StatusExport x], world := ?w, ExportObj := Some y\<rparr>"
  have w: "rc ?w = (rc (world s))(exportKey x \<mapsto> GetRetryCount x)"
    using tracks_retriesD(2) [OF tr, of x "world s"] assms(5) by simp
  from run have "afterStatus E req n y ?s1 = (r, s')"
    by (simp add: reconcileCounted_run [OF assms(4)] assms(5))
  moreover have "cgood E rc (rc ?w) ?s1" using assms(3) by (simp add: cgood_def own_client_def)
  ultimately have "cgood E rc (rc ?w) s'" using keepsD [OF keeps_afterStatus [OF st tr]] by blast
  with w show ?thesis by (simp add: cgood_def)
qed

text \<open>If it is refused, the result is a retry or an error.\<close>

lemma reconcileCounted_refused:
  assumes "ExportObj s = Some x" and "fst (status_export (env_kube E) x (world s)) = Inl e"
    and run: "reconcileCounted E req n s = (Done (res, None), s')"
  shows "res = \<lparr>RequeueAfter = calculateBackoff DefaultOptions (GetRetryCount x)\<rparr> \<and> \<not> MaxRetries \<le>s GetRetryCount x"
proof -
  let ?s1 = "s\<lparr>trace := trace s @ [StatusExport x], world := snd (status_export (env_kube E) x (world s))\<rparr>"
  from assms have ev: "ReturnEvent (env_kube E) DefaultOptions (exportOps (env_kube E)) x (GetRetryCount x) (Some e)
      ''Failed to update ExportCertificateSecret status'' ?s1 = (Done (res, None), s')"
    by (simp add: reconcileCounted_run [OF assms(1)] returnEvent_def run_andThen [of theExport] run_theExport)
  show ?thesis
  proof (cases "fst (get_export (env_kube E) (exportKey x) (world ?s1))")
    case (Inl e')
    with ev show ?thesis by (simp add: ReturnEvent_def kGetExport_def go_run)
  next
    case (Inr fresh)
    from ev have "eventOutcome (GetRetryCount x) (Some e) = (res, None)"
      by (simp add: ReturnEvent_run [OF Inr] Let_def)
    then show ?thesis by (auto simp: eventOutcome_def split: if_splits)
  qed
qed

text \<open>A resource whose retries are used up: one event, one status, and the error.\<close>

lemma Reconcile_exhausted:
  assumes "finds E req (world s) x" and "MaxRetries \<le>s GetRetryCount x"
  obtains s1 where "Reconcile E req s = returnEvent E (GetRetryCount x) (Some (PlainError ''max retries exceeded''))
      ''Max retries exceeded'' s1"
    and "ExportObj s1 = Some x" and "AkvClient s1 = AkvClient s"
    and "trace s1 = trace s @ [GetCRD EXPORT_CERT_SECRET_CRD, GetExport req]"
    and "world s1 = snd (get_export (env_kube E) req (snd (get_crd (env_kube E) EXPORT_CERT_SECRET_CRD (world s))))"
proof -
  from assms(1) have del: "DeletionTimestamp (eMeta x) = None" by (simp add: finds_def)
  have "Reconcile E req s = returnEvent E (GetRetryCount x) (Some (PlainError ''max retries exceeded''))
      ''Max retries exceeded'' (s\<lparr>trace := trace s @ [GetCRD EXPORT_CERT_SECRET_CRD, GetExport req],
       world := snd (get_export (env_kube E) req (snd (get_crd (env_kube E) EXPORT_CERT_SECRET_CRD (world s)))),
       ExportObj := Some x\<rparr>)"
    unfolding Reconcile_def
    by (simp add: andThen_Done [where m = "preChecks E req" and s = s, OF preChecks_found [OF assms(1)]]
        run_andThen [of theExport] run_theExport del assms(2))
  then show thesis by (rule that) simp_all
qed

lemma returnEvent_error:
  assumes "ExportObj s = Some x" and "MaxRetries \<le>s n" and "returnEvent E n (Some e) msg s = (Done (res, err), s')"
  shows "res = emptyResult \<and> err \<noteq> None"
proof -
  from assms have ev: "ReturnEvent (env_kube E) DefaultOptions (exportOps (env_kube E)) x n (Some e) msg s = (Done (res, err), s')"
    by (simp add: returnEvent_def run_andThen [of theExport] run_theExport)
  show ?thesis
  proof (cases "fst (get_export (env_kube E) (exportKey x) (world s))")
    case (Inl e')
    with ev show ?thesis by (auto simp: ReturnEvent_def kGetExport_def go_run)
  next
    case (Inr fresh)
    from ev assms(2) show ?thesis by (auto simp: ReturnEvent_run [OF Inr] Let_def eventOutcome_def)
  qed
qed

lemma backoff_positive:
  assumes "n = 1 \<or> n = 2 \<or> n = 3 \<or> n = 4 \<or> n = 5"
  shows "calculateBackoff DefaultOptions n \<noteq> 0"
  using assms
  by (auto simp: calculateBackoff_def shl1_small duration_defs shl1_def push_bit_eq_mult)

lemma success_counts:
  assumes st: "stable_env E rc" and tr: "tracks_retries (env_kube E) rc" and own: "own_client E s"
    and found: "finds E req (world s) x" and pos: "0 \<le>s GetRetryCount x"
    and run: "Reconcile E req s = (Done (emptyResult, None), s')"
  shows "rc (world s') = (rc (world s))(req \<mapsto> GetRetryCount x + 1) \<and> \<not> MaxRetries \<le>s GetRetryCount x"
proof -
  let ?n = "GetRetryCount x + 1"
  note find = stable_find [OF st tr found]
  have left: "\<not> MaxRetries \<le>s GetRetryCount x"
  proof
    assume "MaxRetries \<le>s GetRetryCount x"
    with Reconcile_exhausted [OF found this] run returnEvent_error show False by metis
  qed
  obtain s1 where rest: "Reconcile E req s = reconcileCounted E req ?n s1"
    and obj: "ExportObj s1 = Some (SetRetryCount ?n x)" and client: "AkvClient s1 = AkvClient s"
    and w1: "world s1 = snd (get_export (env_kube E) req (snd (get_crd (env_kube E) EXPORT_CERT_SECRET_CRD (world s))))"
    using Reconcile_counts [OF found left] by metis
  have count: "GetRetryCount (SetRetryCount ?n x) = ?n" and key: "exportKey (SetRetryCount ?n x) = req"
    using find by (simp_all add: ecs.get_set_retry ecs.key_set_retry)
  show ?thesis
  proof (cases "fst (status_export (env_kube E) (SetRetryCount ?n x) (world s1))")
    case (Inl e)
    from run rest reconcileCounted_refused [OF obj Inl] have "emptyResult = \<lparr>RequeueAfter = calculateBackoff DefaultOptions ?n\<rparr>"
      by (metis count)
    moreover have "calculateBackoff DefaultOptions ?n \<noteq> 0"
      using small_count [OF pos left] by (intro backoff_positive) auto
    ultimately show ?thesis by (simp add: emptyResult_def)
  next
    case (Inr y)
    have "own_client E s1" using own client by (simp add: own_client_def)
    from reconcileCounted_keeps [OF st tr this obj Inr run [unfolded rest]] w1 find key count left
    show ?thesis by simp
  qed
qed

section \<open>Any reconciliation\<close>

lemma own_client_cgood: "own_client E s = cgood E (\<lambda>_. ()) () s"
  by (simp add: own_client_def cgood_def)

lemma stable_unit: "stable_env E (\<lambda>_. ())" "stable_kube K (\<lambda>_. ())" "stable_os OS (\<lambda>_. ())"
  by (simp_all add: stable_env_def stable_kube_def stable_os_def)

lemma keeps_ReturnEvent_unit:
  "keeps (cgood E (\<lambda>_. ()) ()) (returnEvent E n err msg)"
  unfolding returnEvent_def ReturnEvent_def handleSuccess_def handleMaxRetriesExceeded_def scheduleNextRetry_def
    updateStatus_def exportOps_simps kStatusExport_def Let_def
  by (intro go_keeps keeps_cgood_fields cgf.keeps_kube stable_unit cgf.keeps_request) simp_all

lemma keeps_unit_request: "keeps (cgood E (\<lambda>_. ()) ()) (call e f)"
  by (rule cgf.keeps_request) simp

lemma keeps_collectErrors: "(\<And>x. keeps I (body x)) \<Longrightarrow> keeps I (collectErrors xs body)"
  by (induction xs) (auto intro!: go_keeps)

text \<open>The deletion of a resource changes no count.\<close>

lemma keeps_cgood_deletion:
  assumes "stable_env E V"
  shows "keeps (cgood E V v) (DeleteSecrets E refs)"
proof -
  note rules = go_keeps keeps_cgood_fields keeps_cgood_onAkv keeps_kvgood_secret keeps_kvgood_deletions [OF assms]
  have "keeps (cgood E V v) (deleteRef E cert)" for cert
    unfolding deleteRef_def deleteAndPurge_def by (intro rules)
  then show ?thesis
    unfolding DeleteSecrets_def by (intro rules keeps_collectErrors)
qed

lemma keeps_cgood_finalizers:
  assumes "\<And>ns w. V (snd (list_exports K ns w)) = V w" and "\<And>x w. V (snd (update_export K x w)) = V w"
  shows "keeps (cgood E V v) (RemoveFinalizers K TExportCertificateSecret)"
  unfolding RemoveFinalizers_def removeItemE_def kUpdateExport_def kListExports_def
  by (simp, intro go_keeps cgf.keeps_request assms)

lemma keeps_own_client: "keeps (own_client E) (Reconcile E req)"
proof -
  let ?I = "cgood E (\<lambda>_. ()) ()"
  note rules = go_keeps keeps_cgood_fields cgf.keeps_kube stable_unit keeps_unit_request keeps_ReturnEvent_unit
  have pre: "keeps ?I (preChecks E req)"
    unfolding preChecks_def by (intro rules)
  have add: "keeps ?I (addFinalizer E)"
    unfolding addFinalizer_def kUpdateExport_def Let_def by (intro rules)
  have sync: "keeps ?I (syncWithVault E req n)" for n
    unfolding syncWithVault_def
    by (intro rules keeps_cgood_set cgf.keeps_auth keeps_syncSecrets)
  have counted: "keeps ?I (reconcileCounted E req n)" for n
    unfolding reconcileCounted_def kStatusExport_def by (intro rules add sync)
  have "keeps ?I (Reconcile E req)"
    unfolding Reconcile_def Let_def
    by (intro rules pre keeps_cgood_deletion keeps_cgood_finalizers counted) simp_all
  then show ?thesis by (simp add: own_client_cgood [abs_def])
qed

text \<open>
  Whatever becomes of a reconciliation, of a resource that is being deleted or not, with success,
  an error or a panic: the stored counts are left as they are, or that of the resource, which had
  retries left, is increased by one.
\<close>

definition countedAtMost :: "NamespacedName \<Rightarrow> (NamespacedName \<Rightarrow> go_int option) \<Rightarrow> (NamespacedName \<Rightarrow> go_int option) \<Rightarrow> bool" where
  "countedAtMost req v v' \<longleftrightarrow> v' = v \<or> (\<exists>n. v req = Some n \<and> \<not> MaxRetries \<le>s n \<and> v' = v(req \<mapsto> n + 1))"

lemma Reconcile_countedAtMost:
  assumes st: "stable_env E rc" and tr: "tracks_retries (env_kube E) rc" and crd: "crd_installed (env_kube E)"
    and own: "own_client E s" and run: "Reconcile E req s = (r, s')"
  shows "countedAtMost req (rc (world s)) (rc (world s'))"
proof -
  let ?K = "env_kube E" and ?v = "rc (world s)"
  have start: "cgood E rc ?v s" using own by (simp add: cgood_def own_client_def)
  have event: "keeps (cgood E rc ?v) (returnEvent E n err msg)" for n err msg
    by (rule keeps_cgood_returnEvent [OF stableD(1) [OF st] tr])
  have pre: "keeps (cgood E rc ?v) (preChecks E req)"
    unfolding preChecks_def by (intro go_keeps keeps_cgood_fields cgf.keeps_kube stableD(1) [OF st])
  obtain q s1 where one: "preChecks E req s = (q, s1)" by fastforce
  note s1 = keepsD [OF pre start one]
  note step = run [unfolded Reconcile_def run_andThen [of "preChecks E req"] one]
  show ?thesis
  proof (cases "q = Done None")
    case False
    then have "world s' = world s1" using step by (auto simp: run_ret split: outcome.splits option.splits)
    with s1 show ?thesis by (simp add: countedAtMost_def cgood_def)
  next
    case True
    then obtain x where x: "fst (get_export ?K req (snd (get_crd ?K EXPORT_CERT_SECRET_CRD (world s)))) = Inr x" "ExportObj s1 = Some x"
      and found: "\<exists>crd. fst (get_crd ?K EXPORT_CERT_SECRET_CRD (world s)) = Inr crd"
      using one crd by (cases "fst (get_crd ?K EXPORT_CERT_SECRET_CRD (world s))")
        (auto simp: crd_installed_def preChecks_def kGetCRD_def kGetExport_def run_andThen run_setExport run_call run_ret
          split: sum.splits if_splits)
    show ?thesis
    proof (cases "DeletionTimestamp (eMeta x) = None")
      case False
      have "keeps (cgood E rc ?v) (seq (DeleteSecrets E (Some (eCertificateSecretRef (eAzureKV x))))
          (andThen (RemoveFinalizers ?K TExportCertificateSecret) (\<lambda>err. ret (emptyResult, err))))"
        by (intro go_keeps keeps_cgood_deletion [OF st] keeps_cgood_finalizers tracks_retriesD(3,4) [OF tr])
      from keepsD [OF this s1] step True False x(2) show ?thesis
        by (simp add: run_andThen [of theExport] run_theExport countedAtMost_def cgood_def)
    next
      case True
      with x(1) found have finds: "finds E req (world s) x" by (simp add: finds_def)
      note find = stable_find [OF st tr finds]
      show ?thesis
      proof (cases "MaxRetries \<le>s GetRetryCount x")
        case True
        obtain t where eq: "Reconcile E req s = returnEvent E (GetRetryCount x) (Some (PlainError ''max retries exceeded''))
            ''Max retries exceeded'' t" and t: "AkvClient t = AkvClient s" "rc (world t) = ?v"
          using Reconcile_exhausted [OF finds True] find(1) by metis
        have "cgood E rc ?v t" using start t by (simp add: cgood_def)
        from keepsD [OF event this] run eq show ?thesis by (simp add: countedAtMost_def cgood_def)
      next
        case False
        let ?n = "GetRetryCount x + 1" and ?y = "SetRetryCount (GetRetryCount x + 1) x"
        obtain t where eq: "Reconcile E req s = reconcileCounted E req ?n t" and obj: "ExportObj t = Some ?y"
          and t: "AkvClient t = AkvClient s" "rc (world t) = ?v"
          using Reconcile_counts [OF finds False] find(1) by metis
        have count: "GetRetryCount ?y = ?n" and key: "exportKey ?y = req"
          using find by (simp_all add: ecs.get_set_retry ecs.key_set_retry)
        show ?thesis
        proof (cases "fst (status_export ?K ?y (world t))")
          case (Inl e)
          let ?t = "t\<lparr>trace := trace t @ [StatusExport ?y], world := snd (status_export ?K ?y (world t))\<rparr>"
          have "rc (snd (status_export ?K ?y (world t))) = ?v" using tracks_retriesD(2) [OF tr, of ?y "world t"] Inl t(2) by simp
          then have "cgood E rc ?v ?t" using start t by (simp add: cgood_def)
          from keepsD [OF event this] run show ?thesis
            by (simp add: eq reconcileCounted_run [OF obj] Inl count countedAtMost_def cgood_def)
        next
          case (Inr z)
          have "own_client E t" using own t(1) by (simp add: own_client_def)
          from reconcileCounted_keeps [OF st tr this obj Inr run [unfolded eq]] key count find(2) False t(2)
          show ?thesis by (auto simp: countedAtMost_def)
        qed
      qed
    qed
  qed
qed

section \<open>The life of a resource\<close>

text \<open>
  \<open>life E rc req k s\<close>: the operator was started when the resource \<open>req\<close> had the retry count zero,
  it is now in the state \<open>s\<close>, and \<open>k\<close> reconciliations of the resource have succeeded. In between,
  the resource and any other may have been reconciled any number of times with any outcome, the
  operator may have been restarted, and anything may have happened to the cluster, as long as no
  one else writes the resource's retry count.
\<close>

definition succeeds :: "'w env \<Rightarrow> NamespacedName \<Rightarrow> 'w est \<Rightarrow> (Result \<times> go_error option) outcome \<Rightarrow> bool" where
  "succeeds E req s r \<longleftrightarrow> (\<exists>x. finds E req (world s) x) \<and> r = Done (emptyResult, None)"

inductive life :: "'w env \<Rightarrow> ('w \<Rightarrow> NamespacedName \<Rightarrow> go_int option) \<Rightarrow> NamespacedName \<Rightarrow> nat \<Rightarrow> 'w est \<Rightarrow> bool"
  for E rc req where
  start: "rc w req = Some 0 \<Longrightarrow> life E rc req 0 (NewExportCertificateSecretReconciler w)"
| restart: "life E rc req k s \<Longrightarrow> life E rc req k (NewExportCertificateSecretReconciler (world s))"
| elsewhere: "life E rc req k s \<Longrightarrow> rc w req = rc (world s) req \<Longrightarrow> life E rc req k (s\<lparr>world := w\<rparr>)"
| reconcile: "life E rc req k s \<Longrightarrow> Reconcile E req' s = (r, s') \<Longrightarrow>
    life E rc req (if req' = req \<and> succeeds E req s r then Suc k else k) s'"

text \<open>The stored count is at least the number of successes and at most five.\<close>

definition countsUp :: "'w env \<Rightarrow> ('w \<Rightarrow> NamespacedName \<Rightarrow> go_int option) \<Rightarrow> NamespacedName \<Rightarrow> nat \<Rightarrow> 'w est \<Rightarrow> bool" where
  "countsUp E rc req k s \<longleftrightarrow> own_client E s \<and> (\<exists>n. rc (world s) req = Some (of_nat n) \<and> k \<le> n \<and> n \<le> 5)"

lemma count_steps:
  assumes "n \<le> 5" and "\<not> MaxRetries \<le>s (of_nat n :: go_int)"
  shows "n < 5"
  using assms by (cases "n = 5") (simp_all add: MaxRetries_def)

lemma small_nonneg: "n \<le> 5 \<Longrightarrow> 0 \<le>s (of_nat n :: go_int)"
proof -
  assume "n \<le> 5"
  then have "n \<in> {0, 1, 2, 3, 4, 5}" by auto
  then show ?thesis by (auto simp: word_sle_eq)
qed

lemma success_counts_up:
  assumes st: "stable_env E rc" and tr: "tracks_retries (env_kube E) rc" and own: "own_client E s"
    and n: "rc (world s) req = Some (of_nat n)" "n \<le> 5" and found: "finds E req (world s) x"
    and run: "Reconcile E req s = (Done (emptyResult, None), s')"
  shows "rc (world s') req = Some (of_nat (Suc n)) \<and> n < 5"
proof -
  have x: "GetRetryCount x = of_nat n" using stable_find(2) [OF st tr found] n(1) by simp
  then have "0 \<le>s GetRetryCount x" using small_nonneg [OF n(2)] by simp
  from success_counts [OF st tr own found this run] count_steps [OF n(2)] show ?thesis
    by (simp add: x add.commute)
qed

lemma life_countsUp:
  assumes st: "stable_env E rc" and tr: "tracks_retries (env_kube E) rc" and crd: "crd_installed (env_kube E)"
    and "life E rc req k s"
  shows "countsUp E rc req k s"
  using assms(4)
proof (induction rule: life.induct)
  case (start w)
  then show ?case by (auto simp: countsUp_def own_client_def NewExportCertificateSecretReconciler_def intro!: exI [of _ 0])
next
  case (restart k s)
  then show ?case by (auto simp: countsUp_def own_client_def NewExportCertificateSecretReconciler_def)
next
  case (elsewhere k s w)
  then show ?case by (auto simp: countsUp_def own_client_def)
next
  case (reconcile k s req' r s')
  then obtain n where own: "own_client E s" and n: "rc (world s) req = Some (of_nat n)" "k \<le> n" "n \<le> 5"
    by (auto simp: countsUp_def)
  have own': "own_client E s'" using keepsD [OF keeps_own_client own reconcile.hyps(2)] .
  have at_most: "countedAtMost req' (rc (world s)) (rc (world s'))"
    by (rule Reconcile_countedAtMost [OF st tr crd own reconcile.hyps(2)])
  show ?case
  proof (cases "req' = req \<and> succeeds E req s r")
    case True
    then obtain x where "finds E req (world s) x" "Reconcile E req s = (Done (emptyResult, None), s')"
      using reconcile.hyps(2) by (auto simp: succeeds_def)
    from success_counts_up [OF st tr own n(1,3) this] True own' n(2) show ?thesis
      by (auto simp: countsUp_def intro!: exI [of _ "Suc n"])
  next
    case False
    have "rc (world s') req = rc (world s) req \<or> rc (world s') req = Some (of_nat (Suc n)) \<and> n < 5"
      using at_most n(1) count_steps [OF n(3)] unfolding countedAtMost_def
      by (cases "req' = req") (auto simp: add.commute)
    then have "\<exists>m. rc (world s') req = Some (of_nat m) \<and> k \<le> m \<and> m \<le> 5"
    proof
      assume "rc (world s') req = rc (world s) req"
      with n show ?thesis by (intro exI [of _ n]) simp
    next
      assume "rc (world s') req = Some (of_nat (Suc n)) \<and> n < 5"
      with n show ?thesis by (intro exI [of _ "Suc n"]) simp
    qed
    with own' False show ?thesis by (auto simp: countsUp_def)
  qed
qed

section \<open>An example cluster\<close>

text \<open>A cluster that stores one export resource, with a service account that can authenticate.\<close>

definition demoKube :: "ExportCertificateSecret kube" where
  "demoKube = offlineKube
     \<lparr>get_crd := \<lambda>_ w. (Inr \<lparr>crdMeta = emptyMeta\<rparr>, w),
      get_export := \<lambda>k w. (if k = exportKey w then Inr w else Inl (NotFoundError ''not found''), w),
      update_export := \<lambda>x w. (if exportKey x = exportKey w then (Inr (x\<lparr>eStatus := eStatus w\<rparr>), x\<lparr>eStatus := eStatus w\<rparr>)
         else (Inl (NotFoundError ''not found''), w)),
      status_export := \<lambda>x w. (if exportKey x = exportKey w then (Inr (w\<lparr>eStatus := eStatus x\<rparr>), w\<lparr>eStatus := eStatus x\<rparr>)
         else (Inl (NotFoundError ''not found''), w)),
      get_service_account := \<lambda>_ w. (Inr exampleServiceAccount, w),
      cs_create_token := \<lambda>_ _ _ w. (Inr ''jwt'', w)\<rparr>"

definition demoEnv :: "ExportCertificateSecret env" where
  "demoEnv = \<lparr>env_kube = demoKube, env_msal = exampleMsal, env_http = \<lambda>_ w. (answer 404 None, w),
     env_os = exampleOs, env_x509 = exampleX509\<rparr>"

definition demoCounts :: "ExportCertificateSecret \<Rightarrow> NamespacedName \<Rightarrow> go_int option" where
  "demoCounts w = [exportKey w \<mapsto> GetRetryCount w]"

lemma demo_laws: "stable_env demoEnv demoCounts" "tracks_retries (env_kube demoEnv) demoCounts" "crd_installed (env_kube demoEnv)"
  by (auto simp: crd_installed_def stable_env_def stable_kube_def stable_os_def tracks_retries_def demoEnv_def demoKube_def demoCounts_def
      exampleMsal_def exampleOs_def offlineKube_def GetRetryCount_def exportKey_def)

definition demoState :: "ExportCertificateSecret est" where
  "demoState = NewExportCertificateSecretReconciler exampleObject"

lemma demo_run:
  "fst (Reconcile demoEnv (exportKey exampleObject) demoState) = Done (emptyResult, None)"
  by code_simp

section \<open>Properties\<close>

text \<open>
  C12. The life of the retry count. It is never reset: every successful reconciliation of an export
  resource adds one to the stored count, because the zero the reconciler sets at the end is lost
  when the event handler reads the resource again, and failed ones never lower it. So from a count
  of zero a resource is synchronised successfully at most five times in its life (fewer when
  attempts have failed), whatever else happens in between: other reconciliations with any outcome,
  restarts, changes of the cluster; as long as no one else writes its retry count.
\<close>

theorem at_most_five_syncs:
  assumes "stable_env E rc" and "tracks_retries (env_kube E) rc" and "crd_installed (env_kube E)"
    and "life E rc req k s"
  shows "k \<le> 5 \<and> (\<exists>n. rc (world s) req = Some (of_nat n) \<and> k \<le> n \<and> n \<le> 5
    \<and> (\<forall>x s'. finds E req (world s) x \<and> Reconcile E req s = (Done (emptyResult, None), s') \<longrightarrow>
         rc (world s') req = Some (of_nat (Suc n)) \<and> n < 5))"
proof -
  from life_countsUp [OF assms] obtain n where own: "own_client E s"
    and n: "rc (world s) req = Some (of_nat n)" "k \<le> n" "n \<le> 5" by (auto simp: countsUp_def)
  with success_counts_up [OF assms(1,2) own n(1,3)] show ?thesis by (intro conjI exI [of _ n]) auto
qed

text \<open>A success, then a failure after a reference to a missing secret has been added: one success, a count of two.\<close>

definition brokenObject :: "ExportCertificateSecret \<Rightarrow> ExportCertificateSecret" where
  "brokenObject x = x\<lparr>eAzureKV := (eAzureKV x)\<lparr>eCertificateSecretRef := [caseRef ''tls.crt'' ''web'']\<rparr>\<rparr>"

lemma broken_run:
  "let s1 = snd (Reconcile demoEnv (exportKey exampleObject) demoState);
       s2 = snd (Reconcile demoEnv (exportKey exampleObject) (s1\<lparr>world := brokenObject (world s1)\<rparr>))
   in fst (Reconcile demoEnv (exportKey exampleObject) (s1\<lparr>world := brokenObject (world s1)\<rparr>)) = Done (\<lparr>RequeueAfter = 480000000000\<rparr>, None)
     \<and> GetRetryCount (world s2) = 2 \<and> exportKey (world s2) = exportKey exampleObject"
  by code_simp

theorem at_most_five_syncs_witness:
  "\<exists>s. life demoEnv demoCounts (exportKey exampleObject) 1 s \<and> demoCounts (world s) (exportKey exampleObject) = Some 2
     \<and> (\<exists>n. demoCounts (world s) (exportKey exampleObject) = Some (of_nat n) \<and> 1 \<le> n \<and> n \<le> 5)"
proof -
  let ?req = "exportKey exampleObject"
  obtain s1 where run: "Reconcile demoEnv ?req demoState = (Done (emptyResult, None), s1)"
    using demo_run by (metis prod.collapse)
  let ?t = "s1\<lparr>world := brokenObject (world s1)\<rparr>"
  obtain r s2 where run2: "Reconcile demoEnv ?req ?t = (r, s2)" by fastforce
  with broken_run run have r: "r = Done (\<lparr>RequeueAfter = 480000000000\<rparr>, None)" and count: "demoCounts (world s2) ?req = Some 2"
    by (simp_all add: Let_def demoCounts_def)
  have "finds demoEnv ?req (world demoState) exampleObject"
    by (simp add: finds_def demoEnv_def demoKube_def demoState_def NewExportCertificateSecretReconciler_def emptyMeta_def)
  then have ok: "succeeds demoEnv ?req demoState (Done (emptyResult, None))" by (auto simp: succeeds_def)
  have zero: "demoCounts exampleObject ?req = Some 0" by (simp add: demoCounts_def GetRetryCount_def)
  have "life demoEnv demoCounts ?req 0 demoState"
    unfolding demoState_def by (rule life.start) (rule zero)
  from life.reconcile [OF this run] ok have one: "life demoEnv demoCounts ?req (Suc 0) s1" by simp
  have "demoCounts (brokenObject (world s1)) = demoCounts (world s1)"
    by (simp add: demoCounts_def brokenObject_def exportKey_def GetRetryCount_def)
  then have "life demoEnv demoCounts ?req (Suc 0) ?t" by (intro life.elsewhere [OF one]) simp
  from life.reconcile [OF this run2] r have two: "life demoEnv demoCounts ?req (Suc 0) s2"
    by (simp add: succeeds_def emptyResult_def)
  from at_most_five_syncs [OF demo_laws two]
  have "\<exists>n. demoCounts (world s2) ?req = Some (of_nat n) \<and> 1 \<le> n \<and> n \<le> 5" by (metis One_nat_def)
  with two count show ?thesis by (intro exI [of _ s2]) simp
qed

text \<open>
  C14. Once the stored count has reached \<open>MaxRetries\<close>, a reconciliation reports "max retries
  exceeded" as its error and does nothing else: it asks for no token, reads no secret and
  sends no request to the vault.
\<close>

theorem exhausted_does_nothing:
  assumes "finds E req (world s) x" and "MaxRetries \<le>s GetRetryCount x"
  shows "\<exists>e s' es. Reconcile E req s = (Done (emptyResult, Some e), s') \<and> trace s' = trace s @ es
    \<and> (es = [GetCRD EXPORT_CERT_SECRET_CRD, GetExport req, GetExport (exportKey x)]
       \<or> (\<exists>key msg y. e = PlainError ''max retries exceeded''
            \<and> es = [GetCRD EXPORT_CERT_SECRET_CRD, GetExport req, GetExport (exportKey x),
                RecordEvent key ''Warning'' ''MaxRetriesExceeded'' msg, Now, StatusExport y]))"
proof -
  obtain s1 where run: "Reconcile E req s = returnEvent E (GetRetryCount x) (Some (PlainError ''max retries exceeded''))
      ''Max retries exceeded'' s1"
    and obj: "ExportObj s1 = Some x" and tr: "trace s1 = trace s @ [GetCRD EXPORT_CERT_SECRET_CRD, GetExport req]"
    using Reconcile_exhausted [OF assms] by metis
  let ?ev = "ReturnEvent (env_kube E) DefaultOptions (exportOps (env_kube E)) x (GetRetryCount x)
      (Some (PlainError ''max retries exceeded'')) ''Max retries exceeded'' s1"
  have ev: "Reconcile E req s = ?ev"
    by (simp add: run returnEvent_def run_andThen [of theExport] run_theExport obj)
  show ?thesis
  proof (cases "fst (get_export (env_kube E) (exportKey x) (world s1))")
    case (Inl e)
    then have "?ev = (Done (emptyResult, Some e), s1\<lparr>trace := trace s1 @ [GetExport (exportKey x)],
        world := snd (get_export (env_kube E) (exportKey x) (world s1))\<rparr>)"
      by (simp add: ReturnEvent_def kGetExport_def run_andThen run_call run_ret)
    with ev tr show ?thesis by auto
  next
    case (Inr fresh)
    from ev tr show ?thesis
      by (simp add: ReturnEvent_run [OF Inr] Let_def event_defs assms(2))
  qed
qed

theorem exhausted_does_nothing_witness:
  "\<exists>e. fst (Reconcile demoEnv (exportKey exampleObject) (demoState\<lparr>world := SetRetryCount 5 exampleObject\<rparr>))
     = Done (emptyResult, Some e)"
proof -
  have "finds demoEnv (exportKey exampleObject) (world (demoState\<lparr>world := SetRetryCount 5 exampleObject\<rparr>))
      (SetRetryCount 5 exampleObject)"
    by (simp add: finds_def demoEnv_def demoKube_def ecs.key_set_retry) (simp add: SetRetryCount_def emptyMeta_def)
  moreover have "MaxRetries \<le>s GetRetryCount (SetRetryCount 5 exampleObject)"
    by (simp add: ecs.get_set_retry MaxRetries_def)
  ultimately show ?thesis using exhausted_does_nothing by fastforce
qed

end
