(* ===== verification/Export_Deletion.thy ===== *)
theory Export_Deletion
  imports Export_Retries
begin

text \<open>
  What a reconciliation does for an export resource that is being deleted, and when the CRD is
  gone: it works with the Key Vault client and the resource that an earlier reconciliation has
  left in the reconciler, if there was one.
\<close>

section \<open>Vault requests\<close>

text \<open>The vault a request goes to.\<close>

fun vaultOf :: "effect \<Rightarrow> string option" where
  "vaultOf (KvGetSecret u n) = Some u"
| "vaultOf (KvSetSecret u n v e) = Some u"
| "vaultOf (KvImportCertificate u n v) = Some u"
| "vaultOf (KvDeleteSecret u n) = Some u"
| "vaultOf (KvPurgeSecret u n) = Some u"
| "vaultOf (KvDeleteCertificate u n) = Some u"
| "vaultOf (KvPurgeCertificate u n) = Some u"
| "vaultOf _ = None"

definition onlyVault :: "string \<Rightarrow> effect \<Rightarrow> bool" where
  "onlyVault url e \<longleftrightarrow> vaultOf e = None \<or> vaultOf e = Some url"

definition extends :: "effect list \<Rightarrow> (effect \<Rightarrow> bool) \<Rightarrow> effect list \<Rightarrow> bool" where
  "extends t0 P t \<longleftrightarrow> (\<exists>es. t = t0 @ es \<and> (\<forall>e \<in> set es. P e))"

lemma extends_self: "extends t P t"
  by (auto simp: extends_def)

lemma extends_snoc: "extends t0 P t \<Longrightarrow> P e \<Longrightarrow> extends t0 P (t @ [e])"
  by (auto simp: extends_def)

definition kvFixed :: "effect list \<Rightarrow> string \<Rightarrow> 'w kvst \<Rightarrow> bool" where
  "kvFixed t0 url t \<longleftrightarrow> extends t0 (onlyVault url) (trace t) \<and> VaultUrl (kv t) = url"

definition cFixed :: "effect list \<Rightarrow> string \<Rightarrow> ('w, 'z) cst_scheme \<Rightarrow> bool" where
  "cFixed t0 url s \<longleftrightarrow> extends t0 (onlyVault url) (trace s) \<and> (\<exists>k. AkvClient s = Some k \<and> VaultUrl k = url)"

lemma keeps_kvFixed_call:
  "(\<And>u. vaultOf (e u) = Some u) \<Longrightarrow> keeps (kvFixed t0 url) (kvCall e f)"
  by (rule keepsI) (auto simp: run_kvCall kvFixed_def onlyVault_def intro!: extends_snoc)

lemma keeps_kvFixed_secret:
  "keeps (kvFixed t0 url) theSecret" "keeps (kvFixed t0 url) (setKvSecret sec)" "keeps (kvFixed t0 url) (logAndReturn err)"
  "keeps (kvFixed t0 url) (timeSleep K d)"
  by (auto simp: theSecret_def setKvSecret_def logAndReturn_def timeSleep_def kvFixed_def onlyVault_def
      intro!: go_keeps keeps_call extends_snoc)

lemma keeps_kvFixed_deletions:
  "keeps (kvFixed t0 url) DeleteSecretFromKeyVault" "keeps (kvFixed t0 url) DeleteCertificateFromKeyVault"
  "keeps (kvFixed t0 url) (PurgeDeletedSecretFromKeyVault K)" "keeps (kvFixed t0 url) (PurgeDeletedCertificateFromKeyVault K)"
  unfolding DeleteSecretFromKeyVault_def DeleteCertificateFromKeyVault_def PurgeDeletedSecretFromKeyVault_def
    PurgeDeletedCertificateFromKeyVault_def purgeLoop_def purgeAttempt_def Let_def
  by (intro go_keeps keeps_kvFixed_secret keeps_kvFixed_call; simp)+

lemma keeps_cFixed_onAkv: "keeps (kvFixed t0 url) m \<Longrightarrow> keeps (cFixed t0 url) (onAkv m)"
  unfolding onAkv_def
proof (rule keeps_zoom)
  fix s :: "('a, 'd) cst_scheme" and t r t'
  assume m: "keeps (kvFixed t0 url) m" and s: "cFixed t0 url s"
    and t: "map_option (\<lambda>k. \<lparr>trace = trace s, world = world s, kv = k\<rparr>) (AkvClient s) = Some t" and run: "m t = (r, t')"
  from s t have "kvFixed t0 url t" by (auto simp: cFixed_def kvFixed_def)
  from keepsD [OF m this run] show "cFixed t0 url (s\<lparr>trace := trace t', world := world t', AkvClient := Some (kv t')\<rparr>)"
    by (simp add: cFixed_def kvFixed_def)
qed

lemma keeps_cFixed_deletion: "keeps (cFixed t0 url) (DeleteSecrets E refs)"
proof -
  have exp: "keeps (cFixed t0 url) theExport"
    by (auto simp: theExport_def intro!: go_keeps)
  have ref: "keeps (cFixed t0 url) (deleteRef E cert)" for cert
    unfolding deleteRef_def deleteAndPurge_def
    by (intro go_keeps exp keeps_cFixed_onAkv keeps_kvFixed_secret keeps_kvFixed_deletions)
  show ?thesis
    unfolding DeleteSecrets_def by (intro go_keeps exp keeps_collectErrors ref)
qed

lemma keeps_cFixed_call: "(\<And>a. vaultOf (e a) = None) \<Longrightarrow> keeps (cFixed t0 url) (call e f)"
  by (auto simp: cFixed_def onlyVault_def intro!: keeps_call extends_snoc)

lemma keeps_cFixed_finalizers: "keeps (cFixed t0 url) (RemoveFinalizers K t)"
  unfolding RemoveFinalizers_def removeItemE_def removeItemI_def kUpdateExport_def kUpdateImport_def
    kListExports_def kListImports_def
  by (cases t; simp; intro go_keeps keeps_cFixed_call; simp)

lemma adds_collectErrors: "(\<And>x. adds P (body x)) \<Longrightarrow> adds P (collectErrors xs body)"
  by (induction xs) (auto intro!: go_adds)

lemma adds_deleteRef: "adds (\<lambda>_. True) (deleteRef E cert)"
  unfolding deleteRef_def deleteAndPurge_def DeleteSecretFromKeyVault_def DeleteCertificateFromKeyVault_def
    PurgeDeletedSecretFromKeyVault_def PurgeDeletedCertificateFromKeyVault_def purgeLoop_def purgeAttempt_def
    theSecret_def setKvSecret_def theExport_def kvCall_def logAndReturn_def timeSleep_def Let_def
  by (intro go_adds; simp)

lemma adds_grows: "adds P m \<Longrightarrow> e \<in> set (trace u) \<Longrightarrow> e \<in> set (trace (snd (m u)))"
  unfolding adds_def by (metis UnCI set_append)

lemma adds_all_calls:
  "adds (\<lambda>_. True) (AuthorizerForWorkloadIdentity K M aza)" "adds (\<lambda>_. True) (SetKubeClient K)"
  by (auto simp: SetKubeClient_def intro!: go_adds)

lemma adds_returnEvent: "adds (\<lambda>_. True) (returnEvent E n err msg)"
  unfolding returnEvent_def ReturnEvent_def handleSuccess_def handleMaxRetriesExceeded_def scheduleNextRetry_def
    updateStatus_def exportOps_simps call_defs theExport_def Let_def
  by (intro go_adds; simp)

lemmas field_defs = theExport_def setExport_def theRunners_def setRunners_def theSecret_def setKvSecret_def
  setValue_def setBundle_def kvCall_def logAndReturn_def

lemma adds_syncRef: "adds (\<lambda>_. True) (syncRef E ns ex ref)"
  unfolding syncRef_def crtPush_def pemPush_def pushUnlessEqual_def
    CheckKVSecretExistence_def PushSecretToKeyVault_def PushCertificateToKeyVault_def field_defs kGetSecret_def Let_def
  by (intro go_adds; simp)

lemma adds_generator: "adds (\<lambda>_. True) (OpenSSLGenerator E ns refs)"
  unfolding OpenSSLGenerator_def loadRef_def field_defs kGetSecret_def Let_def
  by (intro go_adds adds_onRunners adds_process; simp)

lemma adds_syncSecrets: "adds (\<lambda>_. True) (syncSecrets E ns)"
  unfolding syncSecrets_def SyncSecret_def field_defs Let_def
  by (intro go_adds adds_generator adds_syncRef; simp)

lemma adds_afterStatus: "adds (\<lambda>_. True) (afterStatus E req n y)"
  unfolding afterStatus_def addFinalizer_def syncWithVault_def setKubeClient_def setAkvClient_def field_defs
    kUpdateExport_def kGetServiceAccount_def Let_def
  by (intro go_adds adds_returnEvent adds_syncSecrets adds_all_calls; simp)

section \<open>Reconciling a resource that is being deleted\<close>

definition findsDeleting :: "'w env \<Rightarrow> NamespacedName \<Rightarrow> 'w \<Rightarrow> ExportCertificateSecret \<Rightarrow> bool" where
  "findsDeleting E req w x \<longleftrightarrow> (\<exists>crd. fst (get_crd (env_kube E) EXPORT_CERT_SECRET_CRD w) = Inr crd)
     \<and> fst (get_export (env_kube E) req (snd (get_crd (env_kube E) EXPORT_CERT_SECRET_CRD w))) = Inr x
     \<and> DeletionTimestamp (eMeta x) \<noteq> None"

abbreviation foundState :: "'w env \<Rightarrow> NamespacedName \<Rightarrow> ExportCertificateSecret \<Rightarrow> 'w est \<Rightarrow> 'w est" where
  "foundState E req x s \<equiv> s\<lparr>trace := trace s @ [GetCRD EXPORT_CERT_SECRET_CRD, GetExport req],
     world := snd (get_export (env_kube E) req (snd (get_crd (env_kube E) EXPORT_CERT_SECRET_CRD (world s)))),
     ExportObj := Some x\<rparr>"

lemma Reconcile_deleting:
  assumes "findsDeleting E req (world s) x"
  shows "Reconcile E req s =
    seq (DeleteSecrets E (Some (eCertificateSecretRef (eAzureKV x))))
      (andThen (RemoveFinalizers (env_kube E) TExportCertificateSecret) (\<lambda>err. ret (emptyResult, err)))
      (foundState E req x s)"
proof -
  from assms have pre: "preChecks E req s = (Done None, foundState E req x s)"
    by (auto simp: findsDeleting_def preChecks_def kGetCRD_def kGetExport_def go_run)
  from assms have del: "DeletionTimestamp (eMeta x) \<noteq> None" by (simp add: findsDeleting_def)
  show ?thesis
    unfolding Reconcile_def
    by (simp add: andThen_Done [where m = "preChecks E req" and s = s, OF pre]
        run_andThen [of theExport] run_theExport del)
qed

definition deletingObject :: "CertificateSecretRef list \<Rightarrow> ExportCertificateSecret" where
  "deletingObject refs = (exampleExport refs)\<lparr>eMeta := emptyMeta\<lparr>Name := ''web'', Namespace := ''prod'',
     DeletionTimestamp := Some 1, Finalizers := [FINALIZER]\<rparr>\<rparr>"

definition listingEnv :: "ExportCertificateSecret env" where
  "listingEnv = demoEnv\<lparr>env_kube := demoKube\<lparr>list_exports := \<lambda>_ w. (Inr [w], w)\<rparr>\<rparr>"

lemma listingEnv_finds: "DeletionTimestamp (eMeta x) \<noteq> None \<Longrightarrow> findsDeleting listingEnv (exportKey x) x x"
  by (simp add: findsDeleting_def listingEnv_def demoEnv_def demoKube_def)

section \<open>Properties\<close>

text \<open>
  After a restart of the operator the first deletion of an export resource with references
  panics before its finalizer is removed: the Key Vault client is only made when a resource is
  synchronised. Nothing is deleted, in the vault or in the cluster.
\<close>

theorem fresh_deletion_panics:
  assumes "findsDeleting E req (world s) x" and "eCertificateSecretRef (eAzureKV x) \<noteq> []" and "AkvClient s = None"
  shows "\<exists>p. Reconcile E req s = (Panicked p, foundState E req x s)"
proof -
  obtain ref refs where refs: "eCertificateSecretRef (eAzureKV x) = ref # refs"
    using assms(2) by (cases "eCertificateSecretRef (eAzureKV x)") auto
  let ?s = "foundState E req x s"
  have nil: "onAkv m ?s = nilDeref ?s" for m :: "('a, 'c) akv" using assms(3) by (simp add: onAkv_nil)
  have "deleteRef E ref ?s = nilDeref ?s"
    unfolding deleteRef_def by (simp add: run_andThen [of "onAkv m" for m] nil run_nilDeref)
  then show ?thesis
    by (simp add: Reconcile_deleting [OF assms(1)] refs DeleteSecrets_def run_andThen run_nilDeref)
qed

theorem fresh_deletion_panics_witness:
  "\<exists>p. fst (Reconcile listingEnv (exportKey (deletingObject [caseRef ''tls.crt'' ''kv'']))
      (NewExportCertificateSecretReconciler (deletingObject [caseRef ''tls.crt'' ''kv'']))) = Panicked p"
proof -
  let ?x = "deletingObject [caseRef ''tls.crt'' ''kv'']"
  have "findsDeleting listingEnv (exportKey ?x) (world (NewExportCertificateSecretReconciler ?x)) ?x"
    by (simp add: NewExportCertificateSecretReconciler_def listingEnv_finds deletingObject_def)
  moreover have "eCertificateSecretRef (eAzureKV ?x) \<noteq> []" by (simp add: deletingObject_def)
  moreover have "AkvClient (NewExportCertificateSecretReconciler ?x) = None"
    by (simp add: NewExportCertificateSecretReconciler_def)
  ultimately show ?thesis using fresh_deletion_panics by (metis fst_conv)
qed

text \<open>
  C17. Otherwise the deletion uses the client of the resource synchronised last: every request
  goes to that resource's vault, whatever vault the deleted resource names.
\<close>

theorem deletion_uses_previous_vault:
  assumes "findsDeleting E req (world s) x" and "AkvClient s = Some k" and "Reconcile E req s = (r, s')"
  shows "\<exists>es. trace s' = trace s @ es \<and> (\<forall>e \<in> set es. vaultOf e = None \<or> vaultOf e = Some (VaultUrl k))"
proof -
  let ?I = "cFixed (trace (foundState E req x s)) (VaultUrl k)"
  have "?I (foundState E req x s)" using assms(2) by (simp add: cFixed_def extends_self)
  moreover have "keeps ?I (seq (DeleteSecrets E (Some (eCertificateSecretRef (eAzureKV x))))
      (andThen (RemoveFinalizers (env_kube E) TExportCertificateSecret) (\<lambda>err. ret (emptyResult, err))))"
    by (intro go_keeps keeps_cFixed_deletion keeps_cFixed_finalizers)
  ultimately have "?I s'"
    using assms(3) unfolding Reconcile_deleting [OF assms(1)] by (blast intro: keepsD)
  then obtain es where "trace s' = trace s @ ([GetCRD EXPORT_CERT_SECRET_CRD, GetExport req] @ es)"
    and "\<forall>e \<in> set es. onlyVault (VaultUrl k) e"
    by (auto simp: cFixed_def extends_def)
  then show ?thesis
    by (intro exI [of _ "[GetCRD EXPORT_CERT_SECRET_CRD, GetExport req] @ es"]) (auto simp: onlyVault_def)
qed

definition staleState :: "ExportCertificateSecret \<Rightarrow> ExportCertificateSecret est" where
  "staleState x = (NewExportCertificateSecretReconciler x)\<lparr>AkvClient := Some
     \<lparr>Client = NewAzureKeyVaultClient (\<lambda>_ w. (answer 200 None, w)) ''t'', VaultUrl = ''https://other.vault.azure.net/'',
      kvSecret = None\<rparr>\<rparr>"

theorem deletion_uses_previous_vault_witness:
  "vaultOf ` set (trace (snd (Reconcile listingEnv (exportKey (deletingObject [caseRef ''tls.crt'' ''kv'']))
        (staleState (deletingObject [caseRef ''tls.crt'' ''kv''])))))
     \<subseteq> {None, Some ''https://other.vault.azure.net/''}"
proof -
  let ?x = "deletingObject [caseRef ''tls.crt'' ''kv'']"
  obtain r s' where run: "Reconcile listingEnv (exportKey ?x) (staleState ?x) = (r, s')" by fastforce
  have f: "findsDeleting listingEnv (exportKey ?x) (world (staleState ?x)) ?x"
    by (simp add: staleState_def NewExportCertificateSecretReconciler_def listingEnv_finds deletingObject_def)
  obtain k where k: "AkvClient (staleState ?x) = Some k" and url: "VaultUrl k = ''https://other.vault.azure.net/''"
    by (simp add: staleState_def)
  have "trace (staleState ?x) = []" by (simp add: staleState_def NewExportCertificateSecretReconciler_def)
  with deletion_uses_previous_vault [OF f k run] run url show ?thesis by auto
qed

text \<open>
  C18. A deletion that ends without an error has removed the finalizer of every export
  resource of the cluster that has it, not only that of the deleted one; errors of the
  deletion in the vault are ignored.
\<close>

theorem deletion_strips_every_finalizer:
  assumes "findsDeleting E req (world s) x" and "Reconcile E req s = (Done (res, None), s')"
  shows "\<exists>w es items. fst (list_exports (env_kube E) [] w) = Inr items
    \<and> trace s' = trace s @ es @ ListExports [] # map (\<lambda>x. UpdateExport (dropFinalizerE x))
        (filter (\<lambda>x. FINALIZER \<in> set (Finalizers (eMeta x))) items)"
proof -
  let ?K = "env_kube E"
  let ?s = "foundState E req x s"
  let ?del = "DeleteSecrets E (Some (eCertificateSecretRef (eAzureKV x)))"
  from assms(2) obtain a s1 where del: "?del ?s = (Done a, s1)"
    and fin: "RemoveFinalizers ?K TExportCertificateSecret s1 = (Done None, s')"
    unfolding Reconcile_deleting [OF assms(1)]
    by (auto simp: andThen_def ret_def split: prod.splits outcome.splits)
  have "adds (\<lambda>_. True) ?del"
    unfolding DeleteSecrets_def by (intro go_adds adds_collectErrors adds_deleteRef) (simp add: theExport_def go_adds)+
  from addsE [OF this del] obtain es where es: "trace s1 = trace ?s @ es" by blast
  obtain items where items: "fst (list_exports ?K [] (world s1)) = Inr items"
    using fin by (auto simp: RemoveFinalizers_def kListExports_def go_run split: sum.splits)
  let ?s2 = "s1\<lparr>trace := trace s1 @ [ListExports []], world := snd (list_exports ?K [] (world s1))\<rparr>"
  from fin items have "forEach items (removeItemE ?K) ?s2 = (Done None, s')"
    by (simp add: RemoveFinalizers_def kListExports_def run_andThen [of "call e f" for e f] run_call)
  from removeItemsE_trace [OF this] es items show ?thesis
    by (intro exI [of _ "world s1"] exI [of _ "[GetCRD EXPORT_CERT_SECRET_CRD, GetExport req] @ es"] exI [of _ items]) simp
qed

definition deletedAlone :: ExportCertificateSecret where "deletedAlone = deletingObject []"

theorem deletion_strips_every_finalizer_witness:
  "ListExports [] \<in> set (trace (snd (Reconcile listingEnv (exportKey deletedAlone)
     (NewExportCertificateSecretReconciler deletedAlone))))"
proof -
  have f: "findsDeleting listingEnv (exportKey deletedAlone) (world (NewExportCertificateSecretReconciler deletedAlone)) deletedAlone"
    by (simp add: deletedAlone_def NewExportCertificateSecretReconciler_def listingEnv_finds deletingObject_def)
  have "fst (Reconcile listingEnv (exportKey deletedAlone) (NewExportCertificateSecretReconciler deletedAlone)) = Done (emptyResult, None)"
    unfolding Reconcile_deleting [OF f]
    by (simp add: DeleteSecrets_def deletedAlone_def deletingObject_def go_run
        RemoveFinalizers_def kListExports_def listingEnv_def demoEnv_def demoKube_def exportKey_def
        NewExportCertificateSecretReconciler_def removeItemE_run dropFinalizerE_def metaKey_def)
  then obtain s' where run: "Reconcile listingEnv (exportKey deletedAlone) (NewExportCertificateSecretReconciler deletedAlone)
      = (Done (emptyResult, None), s')" by (metis prod.collapse)
  from deletion_strips_every_finalizer [OF f run] run show ?thesis by auto
qed

text \<open>
  C19. When the CRD is gone, \<open>preChecks\<close> reports no error although it has read no resource: a
  reconciler that has just started panics, and one that has run before repeats its work on the
  resource of the previous reconciliation, whichever was asked for.
\<close>

theorem missing_crd_is_not_skipped:
  assumes "fst (get_crd (env_kube E) EXPORT_CERT_SECRET_CRD (world s)) = Inl e" and "IsNotFound e"
  shows "preChecks E req s = (Done None, s\<lparr>trace := trace s @ [GetCRD EXPORT_CERT_SECRET_CRD],
      world := snd (get_crd (env_kube E) EXPORT_CERT_SECRET_CRD (world s))\<rparr>)
    \<and> (ExportObj s = None \<longrightarrow> (\<exists>p. fst (Reconcile E req s) = Panicked p))
    \<and> (\<forall>x. ExportObj s = Some x \<and> DeletionTimestamp (eMeta x) = None \<and> \<not> MaxRetries \<le>s GetRetryCount x \<longrightarrow>
        StatusExport (SetRetryCount (GetRetryCount x + 1) x) \<in> set (trace (snd (Reconcile E req s))))"
proof -
  let ?s = "s\<lparr>trace := trace s @ [GetCRD EXPORT_CERT_SECRET_CRD],
      world := snd (get_crd (env_kube E) EXPORT_CERT_SECRET_CRD (world s))\<rparr>"
  have pre: "preChecks E req s = (Done None, ?s)"
    using assms by (simp add: preChecks_def kGetCRD_def go_run)
  note start = andThen_Done [where m = "preChecks E req" and s = s, OF pre]
  have fresh: "\<exists>p. fst (Reconcile E req s) = Panicked p" if "ExportObj s = None"
    using that by (simp add: Reconcile_def start run_andThen [of theExport] run_theExport run_nilDeref)
  have stale: "StatusExport (SetRetryCount (GetRetryCount x + 1) x) \<in> set (trace (snd (Reconcile E req s)))"
    if "ExportObj s = Some x" "DeletionTimestamp (eMeta x) = None" "\<not> MaxRetries \<le>s GetRetryCount x" for x
  proof -
    let ?x = "SetRetryCount (GetRetryCount x + 1) x"
    let ?s1 = "?s\<lparr>ExportObj := Some ?x\<rparr>"
    have "Reconcile E req s = reconcileCounted E req (GetRetryCount x + 1) ?s1"
      using that by (simp add: Reconcile_def start run_andThen [of theExport] run_theExport Let_def
          run_andThen [of "setExport y" for y] run_setExport)
    moreover have "ExportObj ?s1 = Some ?x" by simp
    note reconcileCounted_run [OF this, of E req]
    ultimately show ?thesis
      by (auto simp: Let_def split: sum.split intro!: adds_grows [OF adds_returnEvent] adds_grows [OF adds_afterStatus])
  qed
  from pre fresh stale show ?thesis by blast
qed

theorem missing_crd_is_not_skipped_witness:
  "\<exists>p. fst (Reconcile (demoEnv\<lparr>env_kube := demoKube\<lparr>get_crd := \<lambda>_ w. (Inl (NotFoundError []), w)\<rparr>\<rparr>)
      (exportKey exampleObject) demoState) = Panicked p"
proof -
  let ?E = "demoEnv\<lparr>env_kube := demoKube\<lparr>get_crd := \<lambda>_ w. (Inl (NotFoundError []), w)\<rparr>\<rparr>"
  have "fst (get_crd (env_kube ?E) EXPORT_CERT_SECRET_CRD (world demoState)) = Inl (NotFoundError [])" by simp
  from missing_crd_is_not_skipped [OF this, of "exportKey exampleObject"] show ?thesis
    by (simp add: demoState_def NewExportCertificateSecretReconciler_def)
qed

end
