(* ===== verification/Export_Liveness.thy ===== *)
theory Export_Liveness
  imports Export_Deletion
begin

text \<open>
  No failure of an export is dropped: a reconciliation that has not synchronised the secrets
  ends with an error or asks to be run again, and both make the manager queue the resource.
\<close>

section \<open>Failures ask for another run\<close>

lemma backoff_asks:
  assumes "n = 1 \<or> n = 2 \<or> n = 3 \<or> n = 4"
  shows "0 <s calculateBackoff DefaultOptions n"
  using assms by (auto simp: calculateBackoff_def shl1_small duration_defs word_sless_alt)

lemma returnEvent_asks:
  assumes "n = 1 \<or> n = 2 \<or> n = 3 \<or> n = 4 \<or> n = 5"
  shows "answers P (returnEvent E n (Some e) msg) (\<lambda>out _. askedAgain out)"
proof (rule answersI)
  fix s out s'
  assume run: "returnEvent E n (Some e) msg s = (Done out, s')"
  then obtain x where x: "ExportObj s = Some x"
    by (cases "ExportObj s") (auto simp: returnEvent_def run_andThen run_theExport run_nilDeref)
  with run have ev: "ReturnEvent (env_kube E) DefaultOptions (exportOps (env_kube E)) x n (Some e) msg s = (Done out, s')"
    by (simp add: returnEvent_def run_andThen [of theExport] run_theExport)
  show "askedAgain out"
  proof (cases "fst (get_export (env_kube E) (exportKey x) (world s))")
    case (Inl e')
    with ev show ?thesis by (auto simp: ReturnEvent_def kGetExport_def go_run askedAgain_def)
  next
    case (Inr fresh)
    from ev have "eventOutcome n (Some e) = out" by (simp add: ReturnEvent_run [OF Inr] Let_def)
    moreover have "n = 5 \<or> 0 <s calculateBackoff DefaultOptions n" using assms backoff_asks by blast
    ultimately show ?thesis
      by (auto simp: eventOutcome_def askedAgain_def MaxRetries_def split: if_splits)
  qed
qed

section \<open>Up to the synchronisation\<close>

text \<open>
  \<open>Reconcile\<close> cut in two at its call of \<open>syncSecrets\<close>: \<open>upToSync\<close> is what the code does before it,
  with \<open>Inl\<close> where the reconciliation ends there and \<open>Inr\<close> with the retry count where it goes on;
  \<open>Reconcile_split\<close> shows that \<open>fromSync\<close> after it is the whole.
\<close>

definition stop :: "('s, 'o) go \<Rightarrow> ('s, 'o + 'n) go" where
  "stop m = andThen m (\<lambda>out. ret (Inl out))"

definition resume :: "('n \<Rightarrow> ('s, 'o) go) \<Rightarrow> ('s, 'o + 'n) go \<Rightarrow> ('s, 'o) go" where
  "resume k m = andThen m (\<lambda>r. case r of Inl out \<Rightarrow> ret out | Inr n \<Rightarrow> k n)"

lemma resume_stop: "resume k (stop m) = m" "resume k (ret (Inr n)) = k n"
  by (auto simp: fun_eq_iff resume_def stop_def run_andThen run_ret split: prod.splits outcome.splits)

lemma resume_parts:
  "resume k (andThen m f) = andThen m (\<lambda>a. resume k (f a))"
  "resume k (if b then m1 else m2) = (if b then resume k m1 else resume k m2)"
  "resume k (case x of None \<Rightarrow> m1 | Some a \<Rightarrow> g a) = (case x of None \<Rightarrow> resume k m1 | Some a \<Rightarrow> resume k (g a))"
  "resume k (case y of Inl e \<Rightarrow> h e | Inr a \<Rightarrow> i a) = (case y of Inl e \<Rightarrow> resume k (h e) | Inr a \<Rightarrow> resume k (i a))"
  "resume k (case z of (a, b) \<Rightarrow> j a b) = (case z of (a, b) \<Rightarrow> resume k (j a b))"
  by (auto simp: resume_def andThen_assoc split: option.split sum.split prod.split)

definition toVault :: "'w env \<Rightarrow> NamespacedName \<Rightarrow> go_int \<Rightarrow> ('w, (Result \<times> go_error option) + go_int) exm" where
  "toVault E req n =
     andThen (setKubeClient E) (\<lambda>err. case err of
       Some e \<Rightarrow> stop (returnEvent E n (Some e) ''Failed to set Kubernetes client'')
     | None \<Rightarrow>
     andThen theExport (\<lambda>x.
     andThen (kGetServiceAccount (env_kube E)
         \<lparr>nn_Namespace = nn_Namespace req, nn_Name = sa_Name (eServiceAccountRef (eAzureKV x))\<rparr>) (\<lambda>r. case r of
       Inl e \<Rightarrow> stop (returnEvent E n (Some e) ''Failed to fetch ServiceAccount'')
     | Inr serviceAccount \<Rightarrow>
     andThen (AuthorizerForWorkloadIdentity (env_kube E) (env_msal E)
         \<lparr>waServiceAccount = serviceAccount, SaAudiences = Audiences (eServiceAccountRef (eAzureKV x)),
          Authorizer = None\<rparr>) (\<lambda>(azureauth, err). case err of
       Some e \<Rightarrow> stop (seq (setExport (SetRetryCount (GetRetryCount x + 1) x))
           (returnEvent E n (Some e) ''Failed to create authorizer for Workload Identity''))
     | None \<Rightarrow> seq (setAkvClient E (Authorizer azureauth) (eVaultUrl (eAzureKV x))) (ret (Inr n))))))"

definition upToSync :: "'w env \<Rightarrow> NamespacedName \<Rightarrow> ('w, (Result \<times> go_error option) + go_int) exm" where
  "upToSync E req =
     andThen (preChecks E req) (\<lambda>err. case err of
       Some e \<Rightarrow> stop (ret (emptyResult, Some e))
     | None \<Rightarrow>
     andThen theExport (\<lambda>x.
       if DeletionTimestamp (eMeta x) \<noteq> None then
         stop (seq (DeleteSecrets E (Some (eCertificateSecretRef (eAzureKV x))))
           (andThen (RemoveFinalizers (env_kube E) TExportCertificateSecret) (\<lambda>err. ret (emptyResult, err))))
       else if MaxRetries \<le>s GetRetryCount x then
         stop (returnEvent E (GetRetryCount x) (Some (PlainError ''max retries exceeded'')) ''Max retries exceeded'')
       else
         seq (setExport (SetRetryCount (GetRetryCount x + 1) x))
         (andThen theExport (\<lambda>y.
          andThen (kStatusExport (env_kube E) y) (\<lambda>r. case r of
            Inl e \<Rightarrow> stop (returnEvent E (GetRetryCount y) (Some e) ''Failed to update ExportCertificateSecret status'')
          | Inr z \<Rightarrow>
              seq (setExport z)
              (andThen (if DeletionTimestamp (eMeta z) = None then addFinalizer E else ret None) (\<lambda>err. case err of
                 Some e \<Rightarrow> stop (returnEvent E (GetRetryCount x + 1) (Some e) ''Failed to add finalizer'')
               | None \<Rightarrow> toVault E req (GetRetryCount x + 1))))))))"

text \<open>The end of a reconciliation that has synchronised.\<close>

definition succeed :: "'w env \<Rightarrow> ('w, Result \<times> go_error option) exm" where
  "succeed E = andThen theExport (\<lambda>x. seq (setExport (SetRetryCount 0 x)) (returnEvent E 0 None []))"

definition fromSync :: "'w env \<Rightarrow> string \<Rightarrow> go_int \<Rightarrow> ('w, Result \<times> go_error option) exm" where
  "fromSync E ns n = andThen (syncSecrets E ns) (\<lambda>err. case err of
     Some e \<Rightarrow> returnEvent E n (Some e) ''Failed to sync secrets'' | None \<Rightarrow> succeed E)"

lemma syncWithVault_split: "syncWithVault E req n = resume (fromSync E (nn_Namespace req)) (toVault E req n)"
  unfolding syncWithVault_def toVault_def by (simp only: resume_parts resume_stop fromSync_def succeed_def)

lemma Reconcile_split: "Reconcile E req = resume (fromSync E (nn_Namespace req)) (upToSync E req)"
  unfolding Reconcile_def upToSync_def reconcileCounted_def Let_def
  by (simp only: resume_parts resume_stop syncWithVault_split)


definition pointedAt :: "'w env \<Rightarrow> string \<Rightarrow> 'w est \<Rightarrow> 'w est" where
  "pointedAt E token s = s\<lparr>AkvClient := Some \<lparr>Client = NewAzureKeyVaultClient (env_http E) token,
     VaultUrl = (case ExportObj s of Some y \<Rightarrow> eVaultUrl (eAzureKV y) | None \<Rightarrow> []), kvSecret = None\<rparr>\<rparr>"

definition reached :: "'w env \<Rightarrow> ('w est \<Rightarrow> bool) \<Rightarrow> go_int \<Rightarrow> (Result \<times> go_error option) + go_int \<Rightarrow> 'w est \<Rightarrow> bool" where
  "reached E P n r s1 \<longleftrightarrow> (case r of
     Inl out \<Rightarrow> askedAgain out
   | Inr m \<Rightarrow> m = n \<and> (\<exists>s0 token. P s0 \<and> ExportObj s0 \<noteq> None \<and> s1 = pointedAt E token s0))"

text \<open>Where the first part stops, it asks for another run; where it goes on, \<open>P\<close> holds and the client points at the vault.\<close>

lemma answers_stop: "answers P m (\<lambda>out _. askedAgain out) \<Longrightarrow> answers P (stop m) (reached E R n)"
  by (rule answersI) (auto simp: stop_def run_andThen run_ret reached_def split: prod.splits outcome.splits dest: answersD)

lemma answers_with_export:
  assumes "\<And>x. answers (\<lambda>s. P s \<and> ExportObj s = Some x) (f x) Q"
  shows "answers P (andThen theExport f) Q"
proof (rule answersI)
  fix s a s'
  assume s: "P s" and run: "andThen theExport f s = (Done a, s')"
  then obtain x where x: "ExportObj s = Some x" and "f x s = (Done a, s')"
    by (cases "ExportObj s") (auto simp: run_andThen run_theExport run_nilDeref)
  with s answersD [OF assms, of s x a s'] show "Q a s'" by simp
qed

lemma keeps_both: "keeps P m \<Longrightarrow> keeps Q m \<Longrightarrow> keeps (\<lambda>s. P s \<and> Q s) m"
  by (simp add: keeps_def)

lemma keeps_held:
  "keeps (\<lambda>s. ExportObj s = v) (kGetServiceAccount K k)" "keeps (\<lambda>s. ExportObj s = v) (AuthorizerForWorkloadIdentity K M aza)"
  unfolding kGetServiceAccount_def AuthorizerForWorkloadIdentity_def FetchSAToken_def csCreateToken_def NewTokenProvider_def Let_def
  by (intro go_keeps keeps_call; simp)+

lemma answers_toVault:
  assumes n: "n = 1 \<or> n = 2 \<or> n = 3 \<or> n = 4 \<or> n = 5"
    and "keeps P (setKubeClient E)" and "\<And>k. keeps P (kGetServiceAccount (env_kube E) k)"
    and "\<And>aza. keeps P (AuthorizerForWorkloadIdentity (env_kube E) (env_msal E) aza)"
  shows "answers P (toVault E req n) (reached E P n)"
proof -
  note asks = answers_stop [OF returnEvent_asks [OF n]]
  have at: "answers (\<lambda>s. P s \<and> ExportObj s = Some x) (seq (setAkvClient E auth (eVaultUrl (eAzureKV x))) (ret (Inr n))) (reached E P n)" for x auth
  proof (rule answersI)
    fix s s' and a :: "(Result \<times> go_error option) + go_int"
    assume s: "P s \<and> ExportObj s = Some x" and run: "seq (setAkvClient E auth (eVaultUrl (eAzureKV x))) (ret (Inr n)) s = (Done a, s')"
    then obtain token where "a = Inr n" "s' = pointedAt E token s"
      by (cases auth) (auto simp: setAkvClient_def run_andThen run_deref run_nilDeref run_modify run_ret pointedAt_def)
    with s show "reached E P n a s'" by (auto simp: reached_def)
  qed
  have late: "answers (\<lambda>s. P s \<and> ExportObj s = Some x) (stop (seq (setExport y) (returnEvent E n (Some e) msg))) (reached E P n)" for x y e msg
    by (rule answers_stop, rule answersI)
      (auto simp: run_andThen run_setExport dest: answersD [OF returnEvent_asks [OF n, where P = "\<lambda>_. True"] TrueI])
  show ?thesis
    unfolding toVault_def
    by (rule answers_andThen [OF assms(2)], rule answers_option, rule answers_with_export,
        rule answers_andThen [OF keeps_both [OF assms(3) keeps_held(1)]], rule answers_sum, rule asks,
        rule answers_andThen [OF keeps_both [OF assms(4) keeps_held(2)]], rule answers_prod, rule answers_option,
        rule at, rule late, rule asks)
qed


text \<open>What happens before the synchronisation leaves the invariant \<open>P\<close> of the reconciler alone.\<close>

lemma upToSync_answers:
  assumes found: "finds E req (world s) x" and pos: "0 \<le>s GetRetryCount x"
    and P: "keeps P (addFinalizer E)" "keeps P (setKubeClient E)" "\<And>k. keeps P (kGetServiceAccount (env_kube E) k)"
      "\<And>aza. keeps P (AuthorizerForWorkloadIdentity (env_kube E) (env_msal E) aza)"
    and start: "\<And>n y s1. fst (status_export (env_kube E) (SetRetryCount n x) (world s1)) = Inr y \<Longrightarrow>
      ExportObj s1 = Some (SetRetryCount n x) \<Longrightarrow> AkvClient s1 = AkvClient s \<Longrightarrow>
      world s1 = snd (get_export (env_kube E) req (snd (get_crd (env_kube E) EXPORT_CERT_SECRET_CRD (world s)))) \<Longrightarrow>
      trace s1 = trace s @ [GetCRD EXPORT_CERT_SECRET_CRD, GetExport req] \<Longrightarrow>
      P (s1\<lparr>trace := trace s1 @ [StatusExport (SetRetryCount n x)],
        world := snd (status_export (env_kube E) (SetRetryCount n x) (world s1)), ExportObj := Some y\<rparr>)"
    and run: "upToSync E req s = (Done r, t)"
  shows "\<exists>n. (n = 1 \<or> n = 2 \<or> n = 3 \<or> n = 4 \<or> n = 5) \<and> reached E P n r t"
proof -
  let ?s1 = "s\<lparr>trace := trace s @ [GetCRD EXPORT_CERT_SECRET_CRD, GetExport req],
    world := snd (get_export (env_kube E) req (snd (get_crd (env_kube E) EXPORT_CERT_SECRET_CRD (world s)))), ExportObj := Some x\<rparr>"
  note pre = andThen_Done [where m = "preChecks E req" and s = s, OF preChecks_found [OF found]]
  from found have del: "DeletionTimestamp (eMeta x) = None" by (simp add: finds_def)
  show ?thesis
  proof (cases "MaxRetries \<le>s GetRetryCount x")
    case True
    have "upToSync E req s = stop (returnEvent E (GetRetryCount x) (Some (PlainError ''max retries exceeded'')) ''Max retries exceeded'') ?s1"
      unfolding upToSync_def by (simp add: pre run_andThen [of theExport] run_theExport del True)
    with run obtain res err where "returnEvent E (GetRetryCount x) (Some (PlainError ''max retries exceeded'')) ''Max retries exceeded'' ?s1
        = (Done (res, err), t)" and r: "r = Inl (res, err)"
      by (auto simp: stop_def run_andThen run_ret split: prod.splits outcome.splits)
    from returnEvent_error [OF _ True this(1)] have "reached E P 1 r t" by (simp add: r reached_def askedAgain_def)
    then show ?thesis by blast
  next
    case False
    let ?n = "GetRetryCount x + 1"
    have n: "?n = 1 \<or> ?n = 2 \<or> ?n = 3 \<or> ?n = 4 \<or> ?n = 5" using small_count [OF pos False] by auto
    let ?y = "SetRetryCount ?n x"
    let ?s2 = "?s1\<lparr>ExportObj := Some ?y\<rparr>"
    have count: "GetRetryCount ?y = ?n" by (simp add: ecs.get_set_retry)
    let ?s3 = "?s2\<lparr>trace := trace ?s2 @ [StatusExport ?y], world := snd (status_export (env_kube E) ?y (world ?s2))\<rparr>"
    let ?rest = "\<lambda>z. andThen (if DeletionTimestamp (eMeta z) = None then addFinalizer E else ret None) (\<lambda>err. case err of
                 Some e \<Rightarrow> stop (returnEvent E ?n (Some e) ''Failed to add finalizer'') | None \<Rightarrow> toVault E req ?n)"
    have eq: "upToSync E req s = (case fst (status_export (env_kube E) ?y (world ?s2)) of
         Inl e \<Rightarrow> stop (returnEvent E ?n (Some e) ''Failed to update ExportCertificateSecret status'') ?s3
       | Inr z \<Rightarrow> ?rest z (?s3\<lparr>ExportObj := Some z\<rparr>))"
      unfolding upToSync_def
      by (cases "fst (status_export (env_kube E) ?y (world ?s2))")
        (simp_all add: pre run_andThen [of theExport] run_theExport del False run_andThen [of "setExport y" for y] run_setExport
          kStatusExport_def run_andThen [of "call e f" for e f] run_call count)
    note asks = answers_stop [OF returnEvent_asks [OF n]]
    show ?thesis
    proof (cases "fst (status_export (env_kube E) ?y (world ?s2))")
      case (Inl e)
      with eq run have "stop (returnEvent E ?n (Some e) ''Failed to update ExportCertificateSecret status'') ?s3 = (Done r, t)" by simp
      from answersD [OF asks [where P = "\<lambda>_. True"] TrueI this] n show ?thesis by blast
    next
      case (Inr z)
      have rest: "answers P (?rest z) (reached E P ?n)"
        by (rule answers_andThen [OF keeps_if [OF P(1) keeps_ret]], rule answers_option, rule answers_toVault [OF n P(2-4)], rule asks)
      have s3: "P (?s3\<lparr>ExportObj := Some z\<rparr>)"
        using start [of ?n ?s2 z] Inr by simp
      have "?rest z (?s3\<lparr>ExportObj := Some z\<rparr>) = (Done r, t)"
        using run unfolding eq by (simp only: Inr sum.case)
      from answersD [OF rest s3 this] n show ?thesis by blast
    qed
  qed
qed


section \<open>One reconciliation\<close>

text \<open>A reconciliation that asks for no other run is the first part, a synchronisation without an error, and the report of success.\<close>

lemma Reconcile_synced:
  assumes found: "finds E req (world s) x" and pos: "0 \<le>s GetRetryCount x"
    and P: "keeps P (addFinalizer E)" "keeps P (setKubeClient E)" "\<And>k. keeps P (kGetServiceAccount (env_kube E) k)"
      "\<And>aza. keeps P (AuthorizerForWorkloadIdentity (env_kube E) (env_msal E) aza)"
    and start: "\<And>n y s1. fst (status_export (env_kube E) (SetRetryCount n x) (world s1)) = Inr y \<Longrightarrow>
      ExportObj s1 = Some (SetRetryCount n x) \<Longrightarrow> AkvClient s1 = AkvClient s \<Longrightarrow>
      world s1 = snd (get_export (env_kube E) req (snd (get_crd (env_kube E) EXPORT_CERT_SECRET_CRD (world s)))) \<Longrightarrow>
      trace s1 = trace s @ [GetCRD EXPORT_CERT_SECRET_CRD, GetExport req] \<Longrightarrow>
      P (s1\<lparr>trace := trace s1 @ [StatusExport (SetRetryCount n x)],
        world := snd (status_export (env_kube E) (SetRetryCount n x) (world s1)), ExportObj := Some y\<rparr>)"
    and run: "Reconcile E req s = (Done out, s')" and over: "\<not> askedAgain out"
  obtains n s0 token s2 where "upToSync E req s = (Done (Inr n), pointedAt E token s0)" and "P s0" and "ExportObj s0 \<noteq> None"
    and "syncSecrets E (nn_Namespace req) (pointedAt E token s0) = (Done None, s2)" and "succeed E s2 = (Done out, s')"
proof -
  from run obtain r t where first: "upToSync E req s = (Done r, t)"
    and rest: "(case r of Inl out \<Rightarrow> ret out | Inr n \<Rightarrow> fromSync E (nn_Namespace req) n) t = (Done out, s')"
    by (auto simp: Reconcile_split resume_def run_andThen [of "upToSync E req"] split: prod.splits outcome.splits)
  from upToSync_answers [OF found pos P start first] obtain n where n: "n = 1 \<or> n = 2 \<or> n = 3 \<or> n = 4 \<or> n = 5"
    and reached: "reached E P n r t" by blast
  show thesis
  proof (cases r)
    case (Inl o)
    with reached rest over show ?thesis by (simp add: reached_def run_ret)
  next
    case (Inr m)
    with reached obtain s0 token where s0: "m = n" "P s0" "ExportObj s0 \<noteq> None" "t = pointedAt E token s0"
      by (auto simp: reached_def)
    from rest Inr s0 obtain err s2 where sync: "syncSecrets E (nn_Namespace req) t = (Done err, s2)"
      and last: "(case err of Some e \<Rightarrow> returnEvent E n (Some e) ''Failed to sync secrets'' | None \<Rightarrow> succeed E) s2 = (Done out, s')"
      by (auto simp: fromSync_def run_andThen [of "syncSecrets a b" for a b] split: prod.splits outcome.splits)
    show ?thesis
    proof (cases err)
      case (Some e)
      with last have "returnEvent E n (Some e) ''Failed to sync secrets'' s2 = (Done out, s')" by simp
      from answersD [OF returnEvent_asks [OF n, where P = "\<lambda>_. True"] TrueI this] over show ?thesis by simp
    next
      case None
      with first sync last Inr s0 show ?thesis by (intro that) auto
    qed
  qed
qed

lemma keeps_spec_calls:
  "keeps (holdsSpec p) (setKubeClient E)" "keeps (holdsSpec p) (kGetServiceAccount K k)"
  "keeps (holdsSpec p) (AuthorizerForWorkloadIdentity K M aza)" "eAzureKV x = p \<Longrightarrow> keeps (holdsSpec p) (setExport x)"
  "keeps (holdsSpec p) (kUpdateExport K x)"
  unfolding setKubeClient_def SetKubeClient_def AuthorizerForWorkloadIdentity_def FetchSAToken_def NewTokenProvider_def
    setExport_def call_defs Let_def
  by (intro go_keeps keeps_call; simp add: holdsSpec_def)+

section \<open>Property\<close>

text \<open>
  C13. No failure of an export is forgotten. Whenever a reconciliation of a resource that is not
  being deleted returns, it returns an error, or a positive delay (for both the manager queues the
  resource again), or else this very run has synchronised all its secrets: the part of
  \<open>Reconcile\<close> before the synchronisation ended in a state whose client is for the vault of the
  resource in memory, which has the spec that was read; \<open>syncSecrets\<close> ran from that state and
  returned no error; and the report of success is all that came after it.
\<close>

theorem failed_export_is_retried:
  assumes "finds E req (world s) x" and "0 \<le>s GetRetryCount x"
    and "Reconcile E req s = (Done (res, err), s')"
  shows "Reconcile E req = resume (fromSync E (nn_Namespace req)) (upToSync E req)
    \<and> (err \<noteq> None \<or> 0 <s RequeueAfter res
      \<or> (\<exists>n y token s1 s2. upToSync E req s = (Done (Inr n), s1)
           \<and> ExportObj s1 = Some y \<and> (returns_spec (env_kube E) \<longrightarrow> eAzureKV y = eAzureKV x)
           \<and> AkvClient s1 = Some \<lparr>Client = NewAzureKeyVaultClient (env_http E) token, VaultUrl = eVaultUrl (eAzureKV y), kvSecret = None\<rparr>
           \<and> syncSecrets E (nn_Namespace req) s1 = (Done None, s2) \<and> succeed E s2 = (Done (res, err), s')))"
  (is "_ \<and> (_ \<or> _ \<or> ?synced)")
proof (rule conjI [OF Reconcile_split], cases "askedAgain (res, err)")
  case True
  then show "err \<noteq> None \<or> 0 <s RequeueAfter res \<or> ?synced" by (auto simp: askedAgain_def)
next
  case False
  let ?p = "eAzureKV x"
  let ?P = "\<lambda>s. returns_spec (env_kube E) \<longrightarrow> holdsSpec ?p s"
  have spec: "returns_spec (env_kube E) \<Longrightarrow> fst (status_export (env_kube E) (SetRetryCount n x) w) = Inr y \<Longrightarrow> eAzureKV y = ?p" for n w y
    by (auto simp: returns_spec_def)
  obtain n s0 token s2 where "upToSync E req s = (Done (Inr n), pointedAt E token s0)" and s0: "?P s0" "ExportObj s0 \<noteq> None"
    and "syncSecrets E (nn_Namespace req) (pointedAt E token s0) = (Done None, s2)" and "succeed E s2 = (Done (res, err), s')"
  proof (rule Reconcile_synced [OF assms(1,2) _ _ _ _ _ assms(3) False, of ?P])
    show "keeps ?P (addFinalizer E)"
      unfolding keeps_under using keeps_addFinalizer_spec [of E "holdsSpec ?p" ?p] keeps_spec_calls(4,5) by blast
    show "keeps ?P (setKubeClient E)" "keeps ?P (kGetServiceAccount (env_kube E) k)"
      "keeps ?P (AuthorizerForWorkloadIdentity (env_kube E) (env_msal E) aza)" for k aza
      by (simp_all add: keeps_under keeps_spec_calls)
  next
    fix n y and s1 :: "'a est"
    assume "fst (status_export (env_kube E) (SetRetryCount n x) (world s1)) = Inr y"
    then show "?P (s1\<lparr>trace := trace s1 @ [StatusExport (SetRetryCount n x)],
        world := snd (status_export (env_kube E) (SetRetryCount n x) (world s1)), ExportObj := Some y\<rparr>)"
      using spec by (simp add: holdsSpec_def)
  qed
  moreover from s0 obtain y where "ExportObj s0 = Some y" "returns_spec (env_kube E) \<longrightarrow> eAzureKV y = ?p"
    by (auto simp: holdsSpec_def)
  ultimately have ?synced
    by (intro exI [of _ n] exI [of _ y] exI [of _ token] exI [of _ "pointedAt E token s0"] exI [of _ s2]) (simp add: pointedAt_def)
  then show "err \<noteq> None \<or> 0 <s RequeueAfter res \<or> ?synced" by blast
qed

definition deniedEnv :: "ExportCertificateSecret env" where
  "deniedEnv = demoEnv\<lparr>env_kube := (env_kube demoEnv)\<lparr>get_service_account := \<lambda>_ w. (Inl refused, w)\<rparr>\<rparr>"

text \<open>Without a service account the run asks for another; with one it has synchronised.\<close>

theorem failed_export_is_retried_witness:
  "(\<exists>res s'. Reconcile deniedEnv (exportKey exampleObject) demoState = (Done (res, None), s') \<and> 0 <s RequeueAfter res)
   \<and> (\<exists>n s1 s2 s'. Reconcile demoEnv (exportKey exampleObject) demoState = (Done (emptyResult, None), s')
        \<and> upToSync demoEnv (exportKey exampleObject) demoState = (Done (Inr n), s1)
        \<and> syncSecrets demoEnv ''prod'' s1 = (Done None, s2) \<and> succeed demoEnv s2 = (Done (emptyResult, None), s'))"
proof (rule conjI)
  have x: "0 \<le>s GetRetryCount exampleObject" "nn_Namespace (exportKey exampleObject) = ''prod''"
    by (simp_all add: GetRetryCount_def exportKey_def metaKey_def)
  have found: "finds deniedEnv (exportKey exampleObject) (world demoState) exampleObject"
    "finds demoEnv (exportKey exampleObject) (world demoState) exampleObject"
    by (simp_all add: finds_def deniedEnv_def demoEnv_def demoKube_def demoState_def NewExportCertificateSecretReconciler_def emptyMeta_def)
  have "fst (Reconcile deniedEnv (exportKey exampleObject) demoState) = Done (\<lparr>RequeueAfter = 240000000000\<rparr>, None)"
    by code_simp
  then show "\<exists>res s'. Reconcile deniedEnv (exportKey exampleObject) demoState = (Done (res, None), s') \<and> 0 <s RequeueAfter res"
    by (intro exI [of _ "\<lparr>RequeueAfter = 240000000000\<rparr>"]) (auto simp: prod_eq_iff word_sless_alt)
  obtain s' where run: "Reconcile demoEnv (exportKey exampleObject) demoState = (Done (emptyResult, None), s')"
    using demo_run by (metis prod.collapse)
  have "\<not> 0 <s RequeueAfter emptyResult" by (simp add: emptyResult_def)
  with failed_export_is_retried [OF found(2) x(1) run] x(2) run
  show "\<exists>n s1 s2 s'. Reconcile demoEnv (exportKey exampleObject) demoState = (Done (emptyResult, None), s')
        \<and> upToSync demoEnv (exportKey exampleObject) demoState = (Done (Inr n), s1)
        \<and> syncSecrets demoEnv ''prod'' s1 = (Done None, s2) \<and> succeed demoEnv s2 = (Done (emptyResult, None), s')"
    by fastforce
qed

end
