(* ===== verification/Export_Sync.thy ===== *)
theory Export_Sync
  imports Export_Controller
begin

text \<open>
  What a synchronisation achieves: after a successful \<open>SyncSecret\<close> over references of type
  \<open>crt\<close> the vault holds the cluster's data under every name, and when it already did, nothing
  is pushed.
\<close>

section \<open>Hypotheses\<close>

text \<open>
  The cluster's secrets do not change during the synchronisation, reading them does not touch
  the vault, and the vault behind the client serves its secrets.
\<close>

definition cluster_secrets :: "'w env \<Rightarrow> (NamespacedName \<Rightarrow> (string \<rightharpoonup> bytes)) \<Rightarrow> ('w \<Rightarrow> vault_view) \<Rightarrow> bool" where
  "cluster_secrets E sec view \<longleftrightarrow>
     (\<forall>key w x. fst (get_secret (env_kube E) key w) = Inr x \<longrightarrow> map_of (mapData (Data x)) = sec key)
   \<and> (\<forall>key w. view (snd (get_secret (env_kube E) key w)) = view w)"

section \<open>One reference\<close>

definition secretKeyOf :: "string \<Rightarrow> CertificateSecretRef \<Rightarrow> NamespacedName" where
  "secretKeyOf ns ref = \<lparr>nn_Namespace = ns, nn_Name = SecretName ref\<rparr>"

text \<open>The value to be pushed for a reference of type \<open>crt\<close>.\<close>

definition target :: "CertificateSecretRef \<Rightarrow> bytes \<Rightarrow> bytes" where
  "target ref d = (if Templating ref = BASE64EN_TEMPLATING then base64Encode d else d)"

definition vaultName :: "CertificateSecretRef \<Rightarrow> string" where
  "vaultName ref = ToLower (KVSecretName ref)"

text \<open>The vault's value stands for the bytes, directly or decoded.\<close>

definition standsFor :: "bytes \<Rightarrow> bytes \<Rightarrow> bool" where
  "standsFor v t \<longleftrightarrow> v = t \<or> base64Decode v = Some t"

definition sameAsVault :: "bytes \<Rightarrow> string option \<Rightarrow> bool" where
  "sameAsVault t current = (case current of None \<Rightarrow> False | Some v \<Rightarrow> fst (ByteCompare t v))"

lemma sameAsVault_standsFor: "sameAsVault t (Some v) \<Longrightarrow> standsFor v t"
  by (auto simp: sameAsVault_def standsFor_def ByteCompare_def split: option.splits)

text \<open>What a reference leaves under its name.\<close>

definition afterPush :: "bytes \<Rightarrow> string option \<Rightarrow> string option" where
  "afterPush t current = (if sameAsVault t current then current else Some t)"

lemma afterPush_standsFor: "\<exists>v. afterPush t current = Some v \<and> standsFor v t"
proof (cases "sameAsVault t current")
  case True
  then obtain v where "current = Some v" by (auto simp: sameAsVault_def split: option.splits)
  with True show ?thesis by (auto simp: afterPush_def sameAsVault_standsFor)
qed (simp add: afterPush_def standsFor_def)

lemma same_secret: "kvSecret k = Some sec \<Longrightarrow> k\<lparr>kvSecret := Some sec\<rparr> = k"
  by (cases k) simp

lemma same_client: "AkvClient s = Some k \<Longrightarrow> s\<lparr>AkvClient := Some k\<rparr> = s"
  by (cases s) simp

lemma template_run:
  assumes "AkvClient s = Some k" and "kvSecret k = Some sec"
  shows "crtPush ref s = pushUnlessEqual PushSecretToKeyVault
    (s\<lparr>AkvClient := Some (k\<lparr>kvSecret := Some (sec\<lparr>sValue := target ref (sValue sec)\<rparr>)\<rparr>)\<rparr>)"
  using assms
  by (auto simp: crtPush_def target_def run_andThen run_onAkv run_theSecret run_ret setValue_def run_setKvSecret
      same_secret same_client)

text \<open>The end of both branches: nothing happens, or the push is made and succeeds.\<close>

lemma pushUnlessEqual_done:
  assumes k: "AkvClient s = Some k" and sec: "kvSecret k = Some sec"
    and run: "pushUnlessEqual push s = (Done None, s')"
  shows "if sameAsVault (sValue sec) (bValue (sBundle sec)) then s' = s
    else \<exists>t. push \<lparr>trace = trace s, world = world s, kv = k\<rparr> = (Done None, t)
      \<and> s' = s\<lparr>trace := trace t, world := world t, AkvClient := Some (kv t)\<rparr>"
proof (cases "sameAsVault (sValue sec) (bValue (sBundle sec))")
  case True
  then have "pushUnlessEqual push s = (Done None, s\<lparr>AkvClient := Some k\<rparr>)"
    using k sec
    by (auto simp: pushUnlessEqual_def run_andThen run_onAkv run_theSecret run_ret sameAsVault_def Let_def
        split: option.splits)
  with run True show ?thesis by (simp add: same_client [OF k])
next
  case False
  have "pushUnlessEqual push s = andThen (onAkv push)
      (\<lambda>err. case err of Some e \<Rightarrow> ret (Some (Some e)) | None \<Rightarrow> ret None) (s\<lparr>AkvClient := Some k\<rparr>)"
    using k sec False
    by (auto simp: pushUnlessEqual_def run_andThen [of "onAkv theSecret"] run_onAkv run_theSecret sameAsVault_def Let_def
        split: option.splits)
  with run False show ?thesis
    by (auto simp: run_andThen run_onAkv run_ret split: prod.splits outcome.splits option.splits)
qed

lemma pushed_secret:
  assumes "PushSecretToKeyVault t = (Done None, t')" and "kvSecret (kv t) = Some sec" and "serves_vault (Client (kv t)) view"
  shows "view (world t') = (view (world t))((VaultUrl (kv t), ToLower (sName sec)) \<mapsto> sValue sec)
    \<and> trace t' = trace t @ [KvSetSecret (VaultUrl (kv t)) (ToLower (sName sec)) (sValue sec) (sExpires sec)]
    \<and> Client (kv t') = Client (kv t) \<and> VaultUrl (kv t') = VaultUrl (kv t)"
proof -
  obtain res err w where set: "SetSecret (Client (kv t)) (VaultUrl (kv t)) (ToLower (sName sec)) (sValue sec) (sExpires sec) (world t)
      = ((res, err), w)" by (metis prod.collapse)
  from assms(1) PushSecret_run [OF assms(2) set] have ok: "bStatus res = Some 200" and
    t': "t' = t\<lparr>trace := trace t @ [KvSetSecret (VaultUrl (kv t)) (ToLower (sName sec)) (sValue sec) (sExpires sec)], world := w,
      kv := (kv t)\<lparr>kvSecret := Some (sec\<lparr>sBundle := res\<rparr>)\<rparr>\<rparr>"
    by (auto simp: Let_def run_nilDeref split: option.splits if_splits)
  from serves_vault_setD [OF assms(3) set ok] show ?thesis by (simp add: t')
qed

text \<open>
  A reference that is done without an error: the secret was read, the vault asked, and the
  branch for the reference's type ran with both at hand.
\<close>

lemma syncRef_reads:
  assumes cl: "cluster_secrets E sec view" and k: "AkvClient s = Some k" and vault: "serves_vault (Client k) view"
    and run: "syncRef E ns ex ref s = (Done None, s')"
  obtains d b s2 where "sec (secretKeyOf ns ref) (SecretKey ref) = Some d"
    and "AkvClient s2 = Some (k\<lparr>kvSecret := Some \<lparr>sName = KVSecretName ref, sValue = d, sExpires = ex, sBundle = b\<rparr>\<rparr>)"
    and "bValue b = view (world s) (VaultUrl k, vaultName ref)" and "view (world s2) = view (world s)"
    and "trace s2 = trace s @ [effect.GetSecret (secretKeyOf ns ref), KvGetSecret (VaultUrl k) (vaultName ref)]"
    and "OpenSSLRunners s2 = OpenSSLRunners s"
    and "(if RefType ref = ''crt'' then crtPush ref else if RefType ref = ''pem'' then pemPush ref else ret None) s2 = (Done None, s')"
proof -
  let ?key = "secretKeyOf ns ref"
  let ?w1 = "snd (get_secret (env_kube E) ?key (world s))"
  let ?t1 = "trace s @ [effect.GetSecret ?key]"
  let ?push = "if RefType ref = ''crt'' then crtPush ref else if RefType ref = ''pem'' then pemPush ref else ret None"
  have v1: "view ?w1 = view (world s)" using cl by (simp add: cluster_secrets_def)
  obtain x where x: "fst (get_secret (env_kube E) ?key (world s)) = Inr x"
    using run by (auto simp: syncRef_def kGetSecret_def secretKeyOf_def run_andThen run_call run_ret split: sum.splits)
  then have sec: "map_of (mapData (Data x)) = sec ?key" using cl by (simp add: cluster_secrets_def)
  obtain d where d: "sec ?key (SecretKey ref) = Some d"
    using run x sec
    by (auto simp: syncRef_def kGetSecret_def secretKeyOf_def run_andThen run_call run_ret split: option.splits)
  have data: "map_of (mapData (Data x)) (SecretKey ref) = Some d" using sec d by simp
  let ?sec = "\<lparr>sName = KVSecretName ref, sValue = d, sExpires = ex, sBundle = emptyBundle\<rparr>"
  let ?kv1 = "\<lparr>trace = ?t1, world = ?w1, kv = k\<lparr>kvSecret := Some ?sec\<rparr>\<rparr>"
  obtain res err w2 where get: "GetSecret (Client k) (VaultUrl k) (vaultName ref) [] ?w1 = ((res, err), w2)"
    by (metis prod.collapse)
  note law = serves_vault_getD [OF vault get]
  note check = CheckKV_run [of ?kv1 ?sec res err w2, simplified, folded vaultName_def, OF get]
  have steps: "syncRef E ns ex ref s = andThen (onAkv CheckKVSecretExistence)
      (\<lambda>err. case err of Some e \<Rightarrow> ret (Some (Some e)) | None \<Rightarrow> ?push)
      (s\<lparr>trace := ?t1, world := ?w1, AkvClient := Some (k\<lparr>kvSecret := Some ?sec\<rparr>)\<rparr>)"
    using x k data
    by (simp add: syncRef_def kGetSecret_def run_andThen [of "call e f" for e f] run_call
        run_andThen [of "onAkv (setKvSecret y)" for y] run_onAkv run_setKvSecret secretKeyOf_def)
  from run [unfolded steps] obtain t2 where c: "CheckKVSecretExistence ?kv1 = (Done None, t2)"
    and rest: "?push (s\<lparr>trace := trace t2, world := world t2, AkvClient := Some (kv t2)\<rparr>) = (Done None, s')"
    by (auto simp: run_andThen [of "onAkv m" for m] run_onAkv run_ret split: prod.splits outcome.splits option.splits)
  from c [unfolded check] law obtain b where "kv t2 = k\<lparr>kvSecret := Some (?sec\<lparr>sBundle := b\<rparr>)\<rparr>"
    and "bValue b = view ?w1 (VaultUrl k, vaultName ref)" and "view (world t2) = view ?w1"
    and "trace t2 = ?t1 @ [KvGetSecret (VaultUrl k) (vaultName ref)]"
    by (auto simp: Let_def run_nilDeref emptyBundle_def split: option.splits if_splits)
  with v1 show thesis
    by (intro that [OF d _ _ _ _ _ rest, of b]) simp_all
qed

text \<open>For type \<open>crt\<close>: the value is pushed unless the vault's compares equal.\<close>

lemma syncRef_crt:
  assumes cl: "cluster_secrets E sec view" and k: "AkvClient s = Some k" and vault: "serves_vault (Client k) view"
    and crt: "RefType ref = ''crt''"
    and run: "syncRef E ns ex ref s = (Done None, s')"
  obtains d k' where "sec (secretKeyOf ns ref) (SecretKey ref) = Some d"
    and "AkvClient s' = Some k'" and "Client k' = Client k" and "VaultUrl k' = VaultUrl k"
    and "OpenSSLRunners s' = OpenSSLRunners s"
    and "if sameAsVault (target ref d) (view (world s) (VaultUrl k, vaultName ref))
      then view (world s') = view (world s) \<and> trace s' = trace s @
        [effect.GetSecret (secretKeyOf ns ref), KvGetSecret (VaultUrl k) (vaultName ref)]
      else view (world s') = (view (world s))((VaultUrl k, vaultName ref) \<mapsto> target ref d) \<and> trace s' = trace s @
        [effect.GetSecret (secretKeyOf ns ref), KvGetSecret (VaultUrl k) (vaultName ref),
         KvSetSecret (VaultUrl k) (vaultName ref) (target ref d) ex]"
proof (rule syncRef_reads [OF cl k vault run])
  fix d b s2
  let ?sec = "\<lparr>sName = KVSecretName ref, sValue = d, sExpires = ex, sBundle = b\<rparr>"
  let ?k = "k\<lparr>kvSecret := Some (?sec\<lparr>sValue := target ref d\<rparr>)\<rparr>"
  assume d: "sec (secretKeyOf ns ref) (SecretKey ref) = Some d"
    and k2: "AkvClient s2 = Some (k\<lparr>kvSecret := Some ?sec\<rparr>)" and b: "bValue b = view (world s) (VaultUrl k, vaultName ref)"
    and s2: "view (world s2) = view (world s)"
      "trace s2 = trace s @ [effect.GetSecret (secretKeyOf ns ref), KvGetSecret (VaultUrl k) (vaultName ref)]"
      "OpenSSLRunners s2 = OpenSSLRunners s"
    and rest: "(if RefType ref = ''crt'' then crtPush ref else if RefType ref = ''pem'' then pemPush ref else ret None) s2 = (Done None, s')"
  let ?s = "s2\<lparr>AkvClient := Some ?k\<rparr>" and ?t = "\<lparr>trace = trace s2, world = world s2, kv = ?k\<rparr>"
  have "pushUnlessEqual PushSecretToKeyVault ?s = (Done None, s')"
    using rest template_run [OF k2, of ?sec ref] crt by simp
  note fin = pushUnlessEqual_done [OF _ _ this, of ?k "?sec\<lparr>sValue := target ref d\<rparr>", simplified]
  show thesis
  proof (cases "sameAsVault (target ref d) (bValue b)")
    case True
    with fin b s2 show ?thesis by (intro that [OF d, of ?k]) auto
  next
    case False
    with fin obtain t where t: "PushSecretToKeyVault ?t = (Done None, t)"
      and s': "s' = ?s\<lparr>trace := trace t, world := world t, AkvClient := Some (kv t)\<rparr>" by auto
    from pushed_secret [OF t, of "?sec\<lparr>sValue := target ref d\<rparr>" view] vault False b s2 s'
    show ?thesis by (intro that [OF d, of "kv t"]) (simp_all add: vaultName_def)
  qed
qed

section \<open>All references\<close>

lemma syncRefs_crt:
  assumes cl: "cluster_secrets E sec view"
    and run: "forEach refs (syncRef E ns ex) s = (Done None, s')"
    and k: "AkvClient s = Some k" and vault: "serves_vault (Client k) view"
    and crt: "\<forall>ref \<in> set refs. RefType ref = ''crt''" and dist: "distinct (map vaultName refs)"
  shows "(\<forall>ref \<in> set refs. \<exists>d. sec (secretKeyOf ns ref) (SecretKey ref) = Some d
      \<and> view (world s') (VaultUrl k, vaultName ref) = afterPush (target ref d) (view (world s) (VaultUrl k, vaultName ref)))
    \<and> (\<forall>key. key \<notin> (\<lambda>ref. (VaultUrl k, vaultName ref)) ` set refs \<longrightarrow> view (world s') key = view (world s) key)"
  using run k vault crt dist
proof (induction refs arbitrary: s k)
  case Nil
  then show ?case by (simp add: ret_def)
next
  case (Cons ref refs)
  from Cons.prems(1) obtain s1 where one: "syncRef E ns ex ref s = (Done None, s1)"
    and rest: "forEach refs (syncRef E ns ex) s1 = (Done None, s')"
    by (auto simp: run_andThen run_ret split: prod.splits outcome.splits option.splits)
  let ?key = "(VaultUrl k, vaultName ref)"
  have "RefType ref = ''crt''" using Cons.prems(4) by simp
  from syncRef_crt [OF cl Cons.prems(2,3) this one] obtain d k1 where d: "sec (secretKeyOf ns ref) (SecretKey ref) = Some d"
    and k1: "AkvClient s1 = Some k1" "Client k1 = Client k" "VaultUrl k1 = VaultUrl k"
    and eff: "if sameAsVault (target ref d) (view (world s) ?key)
      then view (world s1) = view (world s)
      else view (world s1) = (view (world s))(?key \<mapsto> target ref d)"
    by (metis (no_types, lifting))
  have v: "view (world s1) = (view (world s))(?key := afterPush (target ref d) (view (world s) ?key))"
    using eff by (simp add: afterPush_def split: if_splits)
  have "serves_vault (Client k1) view" using Cons.prems(3) k1(2) by simp
  moreover have "\<forall>ref \<in> set refs. RefType ref = ''crt''" "distinct (map vaultName refs)"
    and new: "vaultName ref \<notin> vaultName ` set refs"
    using Cons.prems(4,5) by auto
  ultimately have ih: "\<forall>ref \<in> set refs. \<exists>d. sec (secretKeyOf ns ref) (SecretKey ref) = Some d
      \<and> view (world s') (VaultUrl k, vaultName ref) = afterPush (target ref d) (view (world s1) (VaultUrl k, vaultName ref))"
    and other: "\<And>key. key \<notin> (\<lambda>ref. (VaultUrl k, vaultName ref)) ` set refs \<Longrightarrow> view (world s') key = view (world s1) key"
    using Cons.IH [OF rest k1(1)] k1(3) by auto
  have "view (world s1) (VaultUrl k, vaultName r) = view (world s) (VaultUrl k, vaultName r)" if "r \<in> set refs" for r
  proof -
    from new that have "vaultName r \<noteq> vaultName ref" by (metis imageI)
    then show ?thesis by (simp add: v)
  qed
  with ih have later: "\<forall>ref \<in> set refs. \<exists>d. sec (secretKeyOf ns ref) (SecretKey ref) = Some d
      \<and> view (world s') (VaultUrl k, vaultName ref) = afterPush (target ref d) (view (world s) (VaultUrl k, vaultName ref))"
    by simp
  have "view (world s') ?key = view (world s1) ?key"
    using new by (intro other) auto
  then have "view (world s') ?key = afterPush (target ref d) (view (world s) ?key)" by (simp add: v)
  moreover have "view (world s') key = view (world s) key" if "key \<notin> (\<lambda>ref. (VaultUrl k, vaultName ref)) ` set (ref # refs)" for key
    using other [of key] v that by auto
  ultimately show ?case using later d by auto
qed

lemma SyncSecret_done:
  assumes "SyncSecret E ns refs s = (Done None, s')"
  obtains c where "OpenSSLRunners s = Some c"
    and "forEach refs (syncRef E ns (if ExpirationTime c \<noteq> 0 then Some (ExpirationTime c) else None)) s = (Done None, s')
      \<or> forEach refs (syncRef E ns (if ExpirationTime c \<noteq> 0 then Some (ExpirationTime c) else None)) s = (Done (Some None), s')"
  using assms
  by (cases "OpenSSLRunners s")
    (auto simp: SyncSecret_def run_andThen run_theRunners run_nilDeref run_ret Let_def
      split: prod.splits outcome.splits option.splits)

text \<open>The loop is left early only with an error.\<close>

lemma syncRef_not_early:
  "fst (syncRef E ns ex ref s) \<noteq> Done (Some None)"
proof -
  have push: "fst (pushUnlessEqual p s) \<noteq> Done (Some None)" for p and s :: "'a est"
    by (auto simp: pushUnlessEqual_def run_andThen run_ret Let_def split: prod.splits outcome.splits option.splits if_splits)
  have crt: "fst (crtPush r s) \<noteq> Done (Some None)" and pem: "fst (pemPush r s) \<noteq> Done (Some None)" for r and s :: "'a est"
    unfolding crtPush_def pemPush_def
    using push by (auto simp: andThen_def split: prod.splits outcome.splits)
  show ?thesis
    using crt pem
    by (auto simp: syncRef_def run_andThen run_ret split: prod.splits outcome.splits option.splits sum.splits)
qed

lemma syncRefs_not_early: "fst (forEach refs (syncRef E ns ex) s) \<noteq> Done (Some None)"
proof (induction refs arbitrary: s)
  case (Cons ref refs)
  then show ?case
    using syncRef_not_early [of E ns ex ref s]
    by (auto simp: run_andThen run_ret split: prod.splits outcome.splits option.splits)
qed (simp add: ret_def)

lemma SyncSecret_loop:
  assumes "SyncSecret E ns refs s = (Done None, s')"
  obtains ex where "forEach refs (syncRef E ns ex) s = (Done None, s')"
  using SyncSecret_done [OF assms] syncRefs_not_early by (metis fst_conv)

text \<open>What a successful synchronisation makes of the vault.\<close>

lemma SyncSecret_effect:
  assumes "cluster_secrets E sec view" and "AkvClient s = Some k" and "serves_vault (Client k) view"
    and "\<forall>ref \<in> set refs. RefType ref = ''crt''" and "distinct (map vaultName refs)"
    and "SyncSecret E ns refs s = (Done None, s')"
  shows "(\<forall>ref \<in> set refs. \<exists>d. sec (secretKeyOf ns ref) (SecretKey ref) = Some d
      \<and> view (world s') (VaultUrl k, vaultName ref) = afterPush (target ref d) (view (world s) (VaultUrl k, vaultName ref)))
    \<and> (\<forall>key. key \<notin> (\<lambda>ref. (VaultUrl k, vaultName ref)) ` set refs \<longrightarrow> view (world s') key = view (world s) key)"
proof -
  obtain ex where loop: "forEach refs (syncRef E ns ex) s = (Done None, s')"
    by (rule SyncSecret_loop [OF assms(6)])
  show ?thesis by (rule syncRefs_crt [OF assms(1) loop assms(2-5)])
qed

text \<open>A pass over references that are all in the vault already.\<close>

lemma syncRefs_unchanged:
  assumes cl: "cluster_secrets E sec view"
    and run: "forEach refs (syncRef E ns ex) s = (Done None, s')"
    and k: "AkvClient s = Some k" and vault: "serves_vault (Client k) view"
    and crt: "\<forall>ref \<in> set refs. RefType ref = ''crt''"
    and there: "\<forall>ref \<in> set refs. \<exists>d. sec (secretKeyOf ns ref) (SecretKey ref) = Some d
        \<and> sameAsVault (target ref d) (view (world s) (VaultUrl k, vaultName ref))"
  shows "view (world s') = view (world s)
    \<and> trace s' = trace s @ concat (map (\<lambda>ref. [effect.GetSecret (secretKeyOf ns ref), KvGetSecret (VaultUrl k) (vaultName ref)]) refs)"
  using run k vault crt there
proof (induction refs arbitrary: s k)
  case Nil
  then show ?case by (simp add: ret_def)
next
  case (Cons ref refs)
  from Cons.prems(1) obtain s1 where one: "syncRef E ns ex ref s = (Done None, s1)"
    and rest: "forEach refs (syncRef E ns ex) s1 = (Done None, s')"
    by (auto simp: run_andThen run_ret split: prod.splits outcome.splits option.splits)
  have "RefType ref = ''crt''" using Cons.prems(4) by simp
  from syncRef_crt [OF cl Cons.prems(2,3) this one] Cons.prems(5) obtain k1
    where k1: "AkvClient s1 = Some k1" "Client k1 = Client k" "VaultUrl k1 = VaultUrl k"
    and w1: "view (world s1) = view (world s)"
    and t1: "trace s1 = trace s @ [effect.GetSecret (secretKeyOf ns ref), KvGetSecret (VaultUrl k) (vaultName ref)]"
    by (metis (no_types, lifting) list.set_intros(1) option.inject)
  have "serves_vault (Client k1) view" using Cons.prems(3) k1(2) by simp
  moreover have "\<forall>ref \<in> set refs. RefType ref = ''crt''"
    "\<forall>ref \<in> set refs. \<exists>d. sec (secretKeyOf ns ref) (SecretKey ref) = Some d
        \<and> sameAsVault (target ref d) (view (world s1) (VaultUrl k1, vaultName ref))"
    using Cons.prems(4,5) w1 k1(3) by simp_all
  ultimately show ?case
    using Cons.IH [OF rest k1(1)] w1 t1 k1(3) by simp
qed

section \<open>Properties\<close>

text \<open>
  A successful synchronisation of references of type \<open>crt\<close> leaves in the vault, under the
  lower-case name of each, a value that stands for the cluster's data (encoded if the template
  asks for it), and changes no other secret of the vault; provided that no two names are the
  same in lower case, which admission does not guarantee.
\<close>

theorem sync_copies_secrets:
  assumes "cluster_secrets E sec view" and "AkvClient s = Some k" and "serves_vault (Client k) view"
    and "\<forall>ref \<in> set refs. RefType ref = ''crt''" and "distinct (map vaultName refs)"
    and "SyncSecret E ns refs s = (Done None, s')"
  shows "(\<forall>ref \<in> set refs. \<exists>d v. sec (secretKeyOf ns ref) (SecretKey ref) = Some d
      \<and> view (world s') (VaultUrl k, vaultName ref) = Some v \<and> standsFor v (target ref d))
    \<and> (\<forall>key. key \<notin> (\<lambda>ref. (VaultUrl k, vaultName ref)) ` set refs \<longrightarrow> view (world s') key = view (world s) key)"
  using SyncSecret_effect [OF assms] afterPush_standsFor by metis

definition vaultEnv :: "vault_view env" where
  "vaultEnv = \<lparr>env_kube = offlineKube\<lparr>get_secret := \<lambda>_ w. (Inr (emptySecret\<lparr>Data := Some [(''tls.crt'', ''-cert-'')]\<rparr>), w)\<rparr>,
     env_msal = exampleMsal, env_http = memHttp, env_os = exampleOs, env_x509 = exampleX509\<rparr>"

definition vaultState :: "vault_view \<Rightarrow> vault_view est" where
  "vaultState w = (NewExportCertificateSecretReconciler w)
     \<lparr>AkvClient := Some \<lparr>Client = NewAzureKeyVaultClient memHttp ''t'', VaultUrl = ''u'', kvSecret = None\<rparr>,
      OpenSSLRunners := Some NewOpenSSLRunners\<rparr>"

definition vaultSecrets :: "NamespacedName \<Rightarrow> string \<Rightarrow> bytes option" where
  "vaultSecrets _ = [''tls.crt'' \<mapsto> ''-cert-'']"

lemma vaultEnv_secrets: "cluster_secrets vaultEnv vaultSecrets (\<lambda>w. w)"
  by (simp add: cluster_secrets_def vaultEnv_def emptySecret_def mapData_def vaultSecrets_def)

lemma vaultState_client:
  "AkvClient (vaultState w) = Some \<lparr>Client = NewAzureKeyVaultClient memHttp ''t'', VaultUrl = ''u'', kvSecret = None\<rparr>"
  by (simp add: vaultState_def)

lemma ToLower_Web: "ToLower ''Web'' = ''web''" by code_simp

theorem sync_copies_secrets_witness:
  "\<exists>s' v. SyncSecret vaultEnv ''prod'' [caseRef ''tls.crt'' ''Web''] (vaultState Map.empty) = (Done None, s')
     \<and> world s' (''u'', ''web'') = Some v \<and> standsFor v ''-cert-''"
proof -
  have "fst (SyncSecret vaultEnv ''prod'' [caseRef ''tls.crt'' ''Web''] (vaultState Map.empty)) = Done None"
    by code_simp
  then obtain s' where run: "SyncSecret vaultEnv ''prod'' [caseRef ''tls.crt'' ''Web''] (vaultState Map.empty) = (Done None, s')"
    by (metis prod.collapse)
  have "vaultName (caseRef ''tls.crt'' ''Web'') = ''web''" and t: "target (caseRef ''tls.crt'' ''Web'') d = d" for d
    by (simp_all add: vaultName_def ToLower_Web target_def BASE64EN_TEMPLATING_def)
  with sync_copies_secrets [OF vaultEnv_secrets vaultState_client _ _ _ run] run memHttp_serves
  show ?thesis by (auto simp: vaultSecrets_def)
qed

text \<open>
  A synchronisation is idempotent for data that is not base64, as certificates and keys in
  PEM are not: when the vault already holds it, the pass reads every secret and every vault
  value once and pushes nothing.
\<close>

theorem sync_idempotent_on_pem:
  assumes "cluster_secrets E sec view" and "AkvClient s = Some k" and "serves_vault (Client k) view"
    and "\<forall>ref \<in> set refs. RefType ref = ''crt'' \<and> Templating ref \<noteq> BASE64EN_TEMPLATING \<and>
      (\<exists>d. sec (secretKeyOf ns ref) (SecretKey ref) = Some d \<and> base64Decode d = None
         \<and> view (world s) (VaultUrl k, vaultName ref) = Some d)"
    and "SyncSecret E ns refs s = (Done None, s')"
  shows "view (world s') = view (world s)
    \<and> trace s' = trace s @ concat (map (\<lambda>ref. [effect.GetSecret (secretKeyOf ns ref), KvGetSecret (VaultUrl k) (vaultName ref)]) refs)"
proof -
  obtain ex where loop: "forEach refs (syncRef E ns ex) s = (Done None, s')"
    by (rule SyncSecret_loop [OF assms(5)])
  have "\<forall>ref \<in> set refs. \<exists>d. sec (secretKeyOf ns ref) (SecretKey ref) = Some d
      \<and> sameAsVault (target ref d) (view (world s) (VaultUrl k, vaultName ref))"
    using assms(4) by (fastforce simp: target_def sameAsVault_def ByteCompare_raw)
  with assms(4) show ?thesis by (intro syncRefs_unchanged [OF assms(1) loop assms(2,3)]) auto
qed

theorem sync_idempotent_on_pem_witness:
  "trace (snd (SyncSecret vaultEnv ''prod'' [caseRef ''tls.crt'' ''Web''] (vaultState [(''u'', ''web'') \<mapsto> ''-cert-''])))
   = [effect.GetSecret (secretKeyOf ''prod'' (caseRef ''tls.crt'' ''Web'')), KvGetSecret ''u'' ''web'']"
proof -
  let ?s = "vaultState [(''u'', ''web'') \<mapsto> ''-cert-'']"
  have "fst (SyncSecret vaultEnv ''prod'' [caseRef ''tls.crt'' ''Web''] ?s) = Done None"
    by code_simp
  then obtain s' where run: "SyncSecret vaultEnv ''prod'' [caseRef ''tls.crt'' ''Web''] ?s = (Done None, s')"
    by (metis prod.collapse)
  have n: "vaultName (caseRef ''tls.crt'' ''Web'') = ''web''" by (simp add: vaultName_def ToLower_Web)
  have "base64Decode ''-cert-'' = None" by (rule dash_not_base64) simp
  then have h: "\<forall>ref \<in> set [caseRef ''tls.crt'' ''Web'']. RefType ref = ''crt'' \<and> Templating ref \<noteq> BASE64EN_TEMPLATING \<and>
      (\<exists>d. vaultSecrets (secretKeyOf ''prod'' ref) (SecretKey ref) = Some d \<and> base64Decode d = None
         \<and> world ?s (''u'', vaultName ref) = Some d)"
    by (simp add: n vaultSecrets_def BASE64EN_TEMPLATING_def vaultState_def NewExportCertificateSecretReconciler_def)
  have "trace ?s = []" by (simp add: vaultState_def NewExportCertificateSecretReconciler_def)
  with sync_idempotent_on_pem [OF vaultEnv_secrets vaultState_client _ _ run] h run n memHttp_serves
  show ?thesis by simp
qed

end
