(* ===== verification/Export_Pem.thy ===== *)
theory Export_Pem
  imports Export_Sync
begin

text \<open>
  References of type \<open>pem\<close>: which certificates a synchronisation imports into the vault, for a
  resource with references of both types. The openssl runner has room for one bundle, that of
  the last reference; every reference with a template is imported with what was made of it.
\<close>

section \<open>Imports in the trace\<close>

fun isImport :: "effect \<Rightarrow> bool" where
  "isImport (KvImportCertificate u n v) = True"
| "isImport _ = False"

abbreviation importsOf :: "('w, 'z) st_scheme \<Rightarrow> effect list" where
  "importsOf s \<equiv> filter isImport (trace s)"

lemma no_imports: "adds (\<lambda>e. \<not> isImport e) m \<Longrightarrow> m s = (r, s') \<Longrightarrow> importsOf s' = importsOf s"
  by (erule addsE) (auto simp: filter_empty_conv)

text \<open>An import stores a secret under the certificate's name and changes no other secret.\<close>

definition imports_apart :: "'w KeyVaultClient \<Rightarrow> ('w \<Rightarrow> vault_view) \<Rightarrow> bool" where
  "imports_apart C view \<longleftrightarrow> (\<forall>u n v w key. key \<noteq> (u, n) \<longrightarrow> view (snd (ImportCertificate C u n v w)) key = view w key)"

section \<open>One reference\<close>

definition dataOf :: "(NamespacedName \<Rightarrow> (string \<rightharpoonup> bytes)) \<Rightarrow> string \<Rightarrow> CertificateSecretRef \<Rightarrow> bytes" where
  "dataOf sec ns ref = the (sec (secretKeyOf ns ref) (SecretKey ref))"

text \<open>The value pushed for a reference of type \<open>pem\<close>.\<close>

definition pemValue :: "Certificates \<Rightarrow> CertificateSecretRef \<Rightarrow> bytes \<Rightarrow> bytes" where
  "pemValue c ref d =
     (if Templating ref = PEMTOPFX_TEMPLATING then base64Encode (PFXCertificate c)
      else if Templating ref = BASE64EN_TEMPLATING then base64Encode (PemBundle c) else d)"

text \<open>What a synchronisation keeps between two references.\<close>

definition steady :: "Certificates \<Rightarrow> 'w KeyVaultClient \<Rightarrow> string \<Rightarrow> 'w est \<Rightarrow> bool" where
  "steady c C u s \<longleftrightarrow> OpenSSLRunners s = Some c \<and> (\<exists>k. AkvClient s = Some k \<and> Client k = C \<and> VaultUrl k = u)"

lemma pemPush_run:
  assumes "AkvClient s = Some k" and "kvSecret k = Some sec" and "OpenSSLRunners s = Some c"
  shows "pemPush ref s = pushUnlessEqual PushCertificateToKeyVault
    (s\<lparr>AkvClient := Some (k\<lparr>kvSecret := Some (sec\<lparr>sValue := pemValue c ref (sValue sec)\<rparr>)\<rparr>)\<rparr>)"
  using assms
  by (auto simp: pemPush_def pemValue_def run_andThen run_onAkv run_theRunners run_theSecret run_ret setValue_def
      run_setKvSecret same_secret same_client)

lemma pushed_certificate:
  assumes "PushCertificateToKeyVault t = (Done None, t')" and "kvSecret (kv t) = Some sec"
  shows "trace t' = trace t @ [KvImportCertificate (VaultUrl (kv t)) (ToLower (sName sec)) (sValue sec)] \<and> kv t' = kv t
    \<and> world t' = snd (ImportCertificate (Client (kv t)) (VaultUrl (kv t)) (ToLower (sName sec)) (sValue sec) (world t))"
proof -
  obtain res err w where "ImportCertificate (Client (kv t)) (VaultUrl (kv t)) (ToLower (sName sec)) (sValue sec) (world t)
      = ((res, err), w)" by (metis prod.collapse)
  with assms(1) PushCertificate_run [OF assms(2) this] show ?thesis
    by (auto simp: Let_def run_nilDeref split: option.splits if_splits)
qed

lemma syncRef_pem:
  assumes cl: "cluster_secrets E sec view" and k: "AkvClient s = Some k" and vault: "serves_vault (Client k) view"
    and c: "OpenSSLRunners s = Some c" and pem: "RefType ref = ''pem''"
    and run: "syncRef E ns ex ref s = (Done None, s')"
  obtains d k' where "sec (secretKeyOf ns ref) (SecretKey ref) = Some d"
    and "AkvClient s' = Some k'" and "Client k' = Client k" and "VaultUrl k' = VaultUrl k"
    and "OpenSSLRunners s' = Some c"
    and "if sameAsVault (pemValue c ref d) (view (world s) (VaultUrl k, vaultName ref))
      then view (world s') = view (world s) \<and> trace s' = trace s @
        [effect.GetSecret (secretKeyOf ns ref), KvGetSecret (VaultUrl k) (vaultName ref)]
      else (\<exists>w. view w = view (world s) \<and>
          world s' = snd (ImportCertificate (Client k) (VaultUrl k) (vaultName ref) (pemValue c ref d) w))
        \<and> trace s' = trace s @ [effect.GetSecret (secretKeyOf ns ref), KvGetSecret (VaultUrl k) (vaultName ref),
          KvImportCertificate (VaultUrl k) (vaultName ref) (pemValue c ref d)]"
proof (rule syncRef_reads [OF cl k vault run])
  fix d b s2
  let ?sec = "\<lparr>sName = KVSecretName ref, sValue = d, sExpires = ex, sBundle = b\<rparr>"
  let ?k = "k\<lparr>kvSecret := Some (?sec\<lparr>sValue := pemValue c ref d\<rparr>)\<rparr>"
  assume d: "sec (secretKeyOf ns ref) (SecretKey ref) = Some d"
    and k2: "AkvClient s2 = Some (k\<lparr>kvSecret := Some ?sec\<rparr>)" and b: "bValue b = view (world s) (VaultUrl k, vaultName ref)"
    and s2: "view (world s2) = view (world s)"
      "trace s2 = trace s @ [effect.GetSecret (secretKeyOf ns ref), KvGetSecret (VaultUrl k) (vaultName ref)]"
      "OpenSSLRunners s2 = OpenSSLRunners s"
    and rest: "(if RefType ref = ''crt'' then crtPush ref else if RefType ref = ''pem'' then pemPush ref else ret None) s2 = (Done None, s')"
  let ?s = "s2\<lparr>AkvClient := Some ?k\<rparr>" and ?t = "\<lparr>trace = trace s2, world = world s2, kv = ?k\<rparr>"
  have c2: "OpenSSLRunners s2 = Some c" using s2(3) c by simp
  have "pushUnlessEqual PushCertificateToKeyVault ?s = (Done None, s')"
    using rest pemPush_run [OF k2 _ c2, of ?sec ref] pem by simp
  note fin = pushUnlessEqual_done [OF _ _ this, of ?k "?sec\<lparr>sValue := pemValue c ref d\<rparr>", simplified]
  show thesis
  proof (cases "sameAsVault (pemValue c ref d) (bValue b)")
    case True
    with fin b s2 c show ?thesis by (intro that [OF d, of ?k]) auto
  next
    case False
    with fin obtain t where t: "PushCertificateToKeyVault ?t = (Done None, t)"
      and s': "s' = ?s\<lparr>trace := trace t, world := world t, AkvClient := Some (kv t)\<rparr>" by auto
    from pushed_certificate [OF t, of "?sec\<lparr>sValue := pemValue c ref d\<rparr>"] False b s2 s' c
    show ?thesis by (intro that [OF d, of "kv t"]) (auto simp: vaultName_def)
  qed
qed

lemma syncRef_other:
  assumes "cluster_secrets E sec view" and "AkvClient s = Some k" and "serves_vault (Client k) view"
    and "RefType ref \<noteq> ''crt''" and "RefType ref \<noteq> ''pem''" and "syncRef E ns ex ref s = (Done None, s')"
  obtains d k' where "sec (secretKeyOf ns ref) (SecretKey ref) = Some d"
    and "AkvClient s' = Some k'" and "Client k' = Client k" and "VaultUrl k' = VaultUrl k"
    and "OpenSSLRunners s' = OpenSSLRunners s" and "view (world s') = view (world s)"
    and "trace s' = trace s @ [effect.GetSecret (secretKeyOf ns ref), KvGetSecret (VaultUrl k) (vaultName ref)]"
  by (rule syncRef_reads [OF assms(1-3,6)]) (use assms(4,5) in \<open>auto simp: run_ret intro: that\<close>)

text \<open>Whatever its type, a reference leaves the rest of the vault alone and imports at most its own value.\<close>

definition toImport :: "Certificates \<Rightarrow> (NamespacedName \<Rightarrow> (string \<rightharpoonup> bytes)) \<Rightarrow> string \<Rightarrow> string \<Rightarrow> vault_view \<Rightarrow> CertificateSecretRef \<Rightarrow> bool" where
  "toImport c sec ns u v ref \<longleftrightarrow> RefType ref = ''pem'' \<and> \<not> sameAsVault (pemValue c ref (dataOf sec ns ref)) (v (u, vaultName ref))"

definition importOf :: "Certificates \<Rightarrow> (NamespacedName \<Rightarrow> (string \<rightharpoonup> bytes)) \<Rightarrow> string \<Rightarrow> string \<Rightarrow> CertificateSecretRef \<Rightarrow> effect" where
  "importOf c sec ns u ref = KvImportCertificate u (vaultName ref) (pemValue c ref (dataOf sec ns ref))"

text \<open>A reference of type \<open>crt\<close> whose data are in the vault.\<close>

definition copied :: "(NamespacedName \<Rightarrow> (string \<rightharpoonup> bytes)) \<Rightarrow> string \<Rightarrow> string \<Rightarrow> vault_view \<Rightarrow> vault_view \<Rightarrow> CertificateSecretRef \<Rightarrow> bool" where
  "copied sec ns u v v' ref \<longleftrightarrow> (\<exists>d. sec (secretKeyOf ns ref) (SecretKey ref) = Some d
     \<and> v' (u, vaultName ref) = afterPush (target ref d) (v (u, vaultName ref)))"

lemma syncRef_any:
  assumes cl: "cluster_secrets E sec view" and st: "steady c C u s" and vault: "serves_vault C view" "imports_apart C view"
    and run: "syncRef E ns ex ref s = (Done None, s')"
  shows "steady c C u s' \<and> (\<forall>key. key \<noteq> (u, vaultName ref) \<longrightarrow> view (world s') key = view (world s) key)
    \<and> (RefType ref = ''crt'' \<longrightarrow> copied sec ns u (view (world s)) (view (world s')) ref)
    \<and> importsOf s' = importsOf s @ (if toImport c sec ns u (view (world s)) ref then [importOf c sec ns u ref] else [])"
proof -
  from st obtain k where k: "AkvClient s = Some k" "Client k = C" "VaultUrl k = u" and c: "OpenSSLRunners s = Some c"
    by (auto simp: steady_def)
  have vault': "serves_vault (Client k) view" using vault(1) k(2) by simp
  consider "RefType ref = ''crt''" | "RefType ref = ''pem''" | "RefType ref \<noteq> ''crt''" "RefType ref \<noteq> ''pem''" by blast
  then show ?thesis
  proof cases
    case 1
    show ?thesis
      by (rule syncRef_crt [OF cl k(1) vault' 1 run])
        (use 1 k c in \<open>auto simp: steady_def toImport_def copied_def afterPush_def split: if_splits\<close>)
  next
    case 2
    show ?thesis
    proof (rule syncRef_pem [OF cl k(1) vault' c 2 run])
      fix d k'
      assume d: "sec (secretKeyOf ns ref) (SecretKey ref) = Some d"
        and k': "AkvClient s' = Some k'" "Client k' = Client k" "VaultUrl k' = VaultUrl k" "OpenSSLRunners s' = Some c"
        and eff: "if sameAsVault (pemValue c ref d) (view (world s) (VaultUrl k, vaultName ref))
      then view (world s') = view (world s) \<and> trace s' = trace s @
        [effect.GetSecret (secretKeyOf ns ref), KvGetSecret (VaultUrl k) (vaultName ref)]
      else (\<exists>w. view w = view (world s) \<and>
          world s' = snd (ImportCertificate (Client k) (VaultUrl k) (vaultName ref) (pemValue c ref d) w))
        \<and> trace s' = trace s @ [effect.GetSecret (secretKeyOf ns ref), KvGetSecret (VaultUrl k) (vaultName ref),
          KvImportCertificate (VaultUrl k) (vaultName ref) (pemValue c ref d)]"
      have d': "dataOf sec ns ref = d" using d by (simp add: dataOf_def)
      show ?thesis
        using eff vault(2) k k' 2
        by (auto simp: steady_def toImport_def importOf_def d' imports_apart_def split: if_splits)
    qed
  next
    case 3
    show ?thesis
      by (rule syncRef_other [OF cl k(1) vault' 3 run]) (use 3 k c in \<open>auto simp: steady_def toImport_def\<close>)
  qed
qed

section \<open>All references\<close>

lemma syncRefs_imports:
  assumes cl: "cluster_secrets E sec view" and vault: "serves_vault C view" "imports_apart C view"
    and run: "forEach refs (syncRef E ns ex) s = (Done None, s')"
    and st: "steady c C u s" and dist: "distinct (map vaultName refs)"
  shows "importsOf s' = importsOf s @ map (importOf c sec ns u) (filter (toImport c sec ns u (view (world s))) refs)
    \<and> (\<forall>ref \<in> set refs. RefType ref = ''crt'' \<longrightarrow> copied sec ns u (view (world s)) (view (world s')) ref)
    \<and> (\<forall>key. key \<notin> (\<lambda>ref. (u, vaultName ref)) ` set refs \<longrightarrow> view (world s') key = view (world s) key)"
  using run st dist
proof (induction refs arbitrary: s)
  case Nil
  then show ?case by (simp add: ret_def)
next
  case (Cons ref refs)
  from Cons.prems(1) obtain s1 where one: "syncRef E ns ex ref s = (Done None, s1)"
    and rest: "forEach refs (syncRef E ns ex) s1 = (Done None, s')"
    by (auto simp: run_andThen run_ret split: prod.splits outcome.splits option.splits)
  note step = syncRef_any [OF cl Cons.prems(2) vault one]
  have "steady c C u s1" "distinct (map vaultName refs)" using step Cons.prems(3) by simp_all
  note ih = Cons.IH [OF rest this]
  have other: "view (world s1) (u, vaultName r) = view (world s) (u, vaultName r)" if "r \<in> set refs" for r
  proof -
    from that Cons.prems(3) have "vaultName r \<noteq> vaultName ref" by (metis distinct.simps(2) image_eqI list.set_map list.simps(9))
    with step show ?thesis by simp
  qed
  then have "filter (toImport c sec ns u (view (world s1))) refs = filter (toImport c sec ns u (view (world s))) refs"
    by (auto simp: toImport_def intro: filter_cong)
  with ih step have imported: "importsOf s' = importsOf s @ map (importOf c sec ns u) (filter (toImport c sec ns u (view (world s))) (ref # refs))"
    by simp
  have "(u, vaultName ref) \<notin> (\<lambda>ref. (u, vaultName ref)) ` set refs" using Cons.prems(3) by auto
  with ih have "view (world s') (u, vaultName ref) = view (world s1) (u, vaultName ref)" by blast
  with step have "RefType ref = ''crt'' \<longrightarrow> copied sec ns u (view (world s)) (view (world s')) ref" by (simp add: copied_def)
  moreover have "RefType r = ''crt'' \<longrightarrow> copied sec ns u (view (world s)) (view (world s')) r" if "r \<in> set refs" for r
    using ih [THEN conjunct2, THEN conjunct1, rule_format, OF that] other [OF that] by (simp add: copied_def)
  ultimately show ?case using imported ih step by auto
qed

section \<open>What the openssl runner holds\<close>

definition loaded :: "(NamespacedName \<Rightarrow> (string \<rightharpoonup> bytes)) \<Rightarrow> string \<Rightarrow> CertificateSecretRef list \<Rightarrow> Certificates" where
  "loaded sec ns refs = fold (\<lambda>r. storeCert (SecretKey r) (dataOf sec ns r)) refs NewOpenSSLRunners"

text \<open>The data of the last reference to a combined bundle.\<close>

definition lastBundle :: "(NamespacedName \<Rightarrow> (string \<rightharpoonup> bytes)) \<Rightarrow> string \<Rightarrow> CertificateSecretRef list \<Rightarrow> bytes" where
  "lastBundle sec ns refs =
     (case filter (\<lambda>r. SecretKey r = ''tls-combined.pem'') (rev refs) of [] \<Rightarrow> [] | r # _ \<Rightarrow> dataOf sec ns r)"

text \<open>It is that of every such reference if all name one secret, as admission requires.\<close>

lemma lastBundle_one_secret:
  assumes "ref \<in> set refs" and "SecretKey ref = ''tls-combined.pem''" and "\<forall>r \<in> set refs. SecretName r = SecretName ref"
  shows "lastBundle sec ns refs = dataOf sec ns ref"
proof (cases "filter (\<lambda>r. SecretKey r = ''tls-combined.pem'') (rev refs)")
  case Nil
  with assms(1,2) show ?thesis by (auto simp: filter_empty_conv)
next
  case (Cons r rs)
  then have "r \<in> set (filter (\<lambda>r. SecretKey r = ''tls-combined.pem'') (rev refs))" by simp
  then have "SecretKey r = SecretKey ref" "SecretName r = SecretName ref" using assms(2,3) by auto
  with Cons show ?thesis by (simp add: lastBundle_def dataOf_def secretKeyOf_def)
qed

lemma PemBundle_loaded: "PemBundle (loaded sec ns refs) = lastBundle sec ns refs"
  by (induction refs rule: rev_induct) (auto simp: loaded_def lastBundle_def NewOpenSSLRunners_def storeCert_def)

lemma PFXCertificate_loaded: "PFXCertificate (loaded sec ns refs) = []"
  by (induction refs rule: rev_induct) (auto simp: loaded_def NewOpenSSLRunners_def storeCert_def)

lemma loadRefs_done:
  assumes cl: "cluster_secrets E sec view" and run: "forEach refs (loadRef E ns) s = (Done None, s')"
    and c: "OpenSSLRunners s = Some c"
  shows "OpenSSLRunners s' = Some (fold (\<lambda>r. storeCert (SecretKey r) (dataOf sec ns r)) refs c)
    \<and> AkvClient s' = AkvClient s \<and> view (world s') = view (world s) \<and> importsOf s' = importsOf s"
  using run c
proof (induction refs arbitrary: s c)
  case Nil
  then show ?case by (simp add: ret_def)
next
  case (Cons ref refs)
  from Cons.prems(1) obtain s1 where one: "loadRef E ns ref s = (Done None, s1)"
    and rest: "forEach refs (loadRef E ns) s1 = (Done None, s')"
    by (auto simp: run_andThen run_ret split: prod.splits outcome.splits option.splits)
  let ?get = "get_secret (env_kube E) (secretKeyOf ns ref) (world s)"
  obtain x where x: "fst ?get = Inr x"
    using one by (auto simp: loadRef_def kGetSecret_def secretKeyOf_def run_andThen run_call run_ret split: sum.splits)
  then have sec: "map_of (mapData (Data x)) = sec (secretKeyOf ns ref)" using cl by (simp add: cluster_secrets_def)
  have "view (snd ?get) = view (world s)" using cl by (simp add: cluster_secrets_def)
  with one x sec Cons.prems(2)
  have s1: "OpenSSLRunners s1 = Some (storeCert (SecretKey ref) (dataOf sec ns ref) c)"
    "AkvClient s1 = AkvClient s" "view (world s1) = view (world s)" "importsOf s1 = importsOf s"
    by (auto simp: loadRef_def kGetSecret_def secretKeyOf_def dataOf_def run_andThen run_call run_ret run_theRunners
        setRunners_def run_modify split: option.splits)
  from Cons.IH [OF rest s1(1)] s1(2-4) show ?case by simp
qed

text \<open>Processing keeps the bundle, and makes no PKCS#12 file without one.\<close>

lemma process_without_bundle:
  assumes os: "stable_os OS V" and run: "ProcessCertificates K OS X t = (r, t')" and none: "PemBundle (osr t) = []"
  shows "PFXCertificate (osr t') = PFXCertificate (osr t)"
proof -
  let ?I = "osgood V (V (world t)) (\<lambda>c. PFXCertificate c = PFXCertificate (osr t))"
  have exp: "keeps ?I (GetCertificateExpiration OS X cert)" for cert
    by (rule keeps_expiration [OF os]) simp
  let ?m = "orReturn (if 0 < length (TLSCrt (osr t)) then GetCertificateExpiration OS X (TLSCrt (osr t)) else ret None)
    (orReturn (if 0 < length (CACrt (osr t)) then GetCertificateExpiration OS X (CACrt (osr t)) else ret None) (ret None))"
  have "keeps ?I ?m" unfolding orReturn_def by (intro go_keeps exp)
  moreover have "?m t = (r, t')" using run none by (simp add: ProcessCertificates_def run_andThen [of "gets osr"] run_gets)
  moreover have "?I t" by (simp add: osgood_def)
  ultimately show ?thesis by (auto dest!: keepsD simp: osgood_def)
qed

lemma OpenSSLGenerator_done:
  assumes cl: "cluster_secrets E sec view" and os: "stable_os (env_os E) view" and kube: "stable_kube (env_kube E) view"
    and run: "OpenSSLGenerator E ns refs s = (Done None, s')"
  shows "\<exists>c. OpenSSLRunners s' = Some c \<and> PemBundle c = lastBundle sec ns refs
    \<and> (lastBundle sec ns refs = [] \<longrightarrow> PFXCertificate c = [])
    \<and> AkvClient s' = AkvClient s \<and> view (world s') = view (world s) \<and> importsOf s' = importsOf s"
proof -
  let ?m = "ProcessCertificates (env_kube E) (env_os E) (env_x509 E)"
  from run obtain s1 where load: "forEach refs (loadRef E ns) (s\<lparr>OpenSSLRunners := Some NewOpenSSLRunners\<rparr>) = (Done None, s1)"
    and proc: "onRunners ?m s1 = (Done None, s')"
    by (auto simp: OpenSSLGenerator_def setRunners_def run_andThen run_modify run_ret split: prod.splits outcome.splits option.splits)
  from loadRefs_done [OF cl load] have s1: "OpenSSLRunners s1 = Some (loaded sec ns refs)" "AkvClient s1 = AkvClient s"
    "view (world s1) = view (world s)" "importsOf s1 = importsOf s" by (simp_all add: loaded_def)
  let ?t = "\<lparr>trace = trace s1, world = world s1, osr = loaded sec ns refs\<rparr>"
  obtain t where t: "?m ?t = (Done None, t)" and s': "s' = s1\<lparr>trace := trace t, world := world t, OpenSSLRunners := Some (osr t)\<rparr>"
    using proc s1(1) by (auto simp: run_onRunners split: prod.splits)
  have "osgood view (view (world s1)) (\<lambda>c. PemBundle c = lastBundle sec ns refs) ?t"
    by (simp add: osgood_def PemBundle_loaded)
  moreover have "unprocessed (\<lambda>c. PemBundle c = lastBundle sec ns refs)" by (simp add: unprocessed_def)
  ultimately have "osgood view (view (world s1)) (\<lambda>c. PemBundle c = lastBundle sec ns refs) t"
    using keepsD [OF keeps_ProcessCertificates [OF os kube] _ t] by blast
  then have "PemBundle (osr t) = lastBundle sec ns refs"
    "view (world t) = view (world s1)" by (simp_all add: osgood_def)
  moreover have "PFXCertificate (osr t) = []" if "lastBundle sec ns refs = []"
    using process_without_bundle [OF os t] that by (simp add: PemBundle_loaded PFXCertificate_loaded)
  moreover have "importsOf t = importsOf ?t" by (rule no_imports [OF adds_process t]) simp_all
  ultimately show ?thesis using s1 by (simp add: s')
qed

lemma syncSecrets_references:
  assumes "cluster_secrets E sec view" and "stable_os (env_os E) view" and "stable_kube (env_kube E) view"
    and "ExportObj s = Some x" and "AkvClient s = Some k" and "serves_vault (Client k) view" and "imports_apart (Client k) view"
    and "distinct (map vaultName (eCertificateSecretRef (eAzureKV x)))"
    and "syncSecrets E ns s = (Done None, s')"
  shows "\<exists>c. PemBundle c = lastBundle sec ns (eCertificateSecretRef (eAzureKV x))
    \<and> (lastBundle sec ns (eCertificateSecretRef (eAzureKV x)) = [] \<longrightarrow> PFXCertificate c = [])
    \<and> (\<forall>ref \<in> set (eCertificateSecretRef (eAzureKV x)). SecretKey ref = ''tls-combined.pem''
        \<and> (\<forall>r \<in> set (eCertificateSecretRef (eAzureKV x)). SecretName r = SecretName ref) \<longrightarrow> PemBundle c = dataOf sec ns ref)
    \<and> importsOf s' = importsOf s @ map (importOf c sec ns (VaultUrl k))
        (filter (toImport c sec ns (VaultUrl k) (view (world s))) (eCertificateSecretRef (eAzureKV x)))
    \<and> (\<forall>ref \<in> set (eCertificateSecretRef (eAzureKV x)). RefType ref = ''crt'' \<longrightarrow>
        copied sec ns (VaultUrl k) (view (world s)) (view (world s')) ref)
    \<and> (\<forall>key. key \<notin> (\<lambda>ref. (VaultUrl k, vaultName ref)) ` set (eCertificateSecretRef (eAzureKV x)) \<longrightarrow>
        view (world s') key = view (world s) key)"
proof -
  let ?refs = "eCertificateSecretRef (eAzureKV x)"
  from assms(4,9) obtain s1 where gen: "OpenSSLGenerator E ns ?refs s = (Done None, s1)"
    and sync: "SyncSecret E ns ?refs s1 = (Done None, s')"
    by (auto simp: syncSecrets_def run_andThen run_theExport run_ret Let_def split: prod.splits outcome.splits option.splits)
  from OpenSSLGenerator_done [OF assms(1-3) gen] obtain c where c: "OpenSSLRunners s1 = Some c"
    "PemBundle c = lastBundle sec ns ?refs" "lastBundle sec ns ?refs = [] \<longrightarrow> PFXCertificate c = []"
    and s1: "AkvClient s1 = AkvClient s" "view (world s1) = view (world s)" "importsOf s1 = importsOf s" by blast
  obtain ex where loop: "forEach ?refs (syncRef E ns ex) s1 = (Done None, s')"
    by (rule SyncSecret_loop [OF sync])
  have "steady c (Client k) (VaultUrl k) s1" using c(1) s1(1) assms(5) by (simp add: steady_def)
  note refs = syncRefs_imports [OF assms(1,6,7) loop this assms(8), unfolded s1(2,3)]
  have "\<forall>ref \<in> set ?refs. SecretKey ref = ''tls-combined.pem'' \<and> (\<forall>r \<in> set ?refs. SecretName r = SecretName ref) \<longrightarrow>
      PemBundle c = dataOf sec ns ref" unfolding c(2) using lastBundle_one_secret by blast
  with c(2,3) refs show ?thesis by blast
qed

section \<open>Property\<close>

text \<open>
  C7. What a successful synchronisation imports: for every reference of type \<open>pem\<close> whose value
  does not compare equal to the vault's, in their order, one certificate under the lower-case
  name. All references with the template \<open>pemtopfx\<close> are imported with the same PKCS#12 file, and
  all with \<open>base64encode\<close> with the same bundle: that of the last reference to a combined bundle,
  which is right only if all references name one secret, as the admission webhook requires
  where it is enabled. Without such a reference the PKCS#12 file is empty.
  Beside that, every reference of type \<open>crt\<close> has its data in the vault, and secrets of other
  names are as they were.
\<close>

theorem pem_references_share_one_bundle:
  assumes "cluster_secrets E sec view" and "stable_os (env_os E) view" and "stable_kube (env_kube E) view"
    and "ExportObj s = Some x" and "AkvClient s = Some k" and "serves_vault (Client k) view" and "imports_apart (Client k) view"
    and "distinct (map vaultName (eCertificateSecretRef (eAzureKV x)))"
    and "syncSecrets E ns s = (Done None, s')"
  shows "\<exists>c. PemBundle c = lastBundle sec ns (eCertificateSecretRef (eAzureKV x))
    \<and> (lastBundle sec ns (eCertificateSecretRef (eAzureKV x)) = [] \<longrightarrow> PFXCertificate c = [])
    \<and> (\<forall>ref \<in> set (eCertificateSecretRef (eAzureKV x)). SecretKey ref = ''tls-combined.pem''
        \<and> (\<forall>r \<in> set (eCertificateSecretRef (eAzureKV x)). SecretName r = SecretName ref) \<longrightarrow> PemBundle c = dataOf sec ns ref)
    \<and> importsOf s' = importsOf s @ map (importOf c sec ns (VaultUrl k))
        (filter (toImport c sec ns (VaultUrl k) (view (world s))) (eCertificateSecretRef (eAzureKV x)))
    \<and> (\<forall>ref \<in> set (eCertificateSecretRef (eAzureKV x)). RefType ref = ''crt'' \<longrightarrow>
        copied sec ns (VaultUrl k) (view (world s)) (view (world s')) ref)
    \<and> (\<forall>key. key \<notin> (\<lambda>ref. (VaultUrl k, vaultName ref)) ` set (eCertificateSecretRef (eAzureKV x)) \<longrightarrow>
        view (world s') key = view (world s) key)"
  by (rule syncSecrets_references [OF assms])

text \<open>Two references to two bundles, of which the first is not even one.\<close>

definition pemFile :: bytes where
  "pemFile = pemEncode ''CERTIFICATE'' ''c'' @ pemEncode ''RSA PRIVATE KEY'' ''k''"

definition bundleData :: "NamespacedName \<Rightarrow> string \<Rightarrow> bytes option" where
  "bundleData key = [''tls-combined.pem'' \<mapsto> (if nn_Name key = ''a'' then ''-first-'' else pemFile)]"

definition bundleEnv :: "vault_view env" where
  "bundleEnv = vaultEnv\<lparr>env_kube := offlineKube\<lparr>get_secret := \<lambda>key w.
     (Inr (emptySecret\<lparr>Data := Some [(''tls-combined.pem'', if nn_Name key = ''a'' then ''-first-'' else pemFile)]\<rparr>), w)\<rparr>\<rparr>"

definition bundleRef :: "string \<Rightarrow> CertificateSecretRef" where
  "bundleRef n = \<lparr>KVSecretName = n, RefType = ''pem'', SecretKey = ''tls-combined.pem'', SecretName = n,
     Templating = BASE64EN_TEMPLATING\<rparr>"

definition bundleState :: "vault_view est" where
  "bundleState = (vaultState Map.empty)
     \<lparr>ExportObj := Some (emptyExport\<lparr>eAzureKV := (eAzureKV emptyExport)\<lparr>eCertificateSecretRef := [bundleRef ''a'', bundleRef ''b'']\<rparr>\<rparr>)\<rparr>"

lemma pemFile_blocks:
  "decodeBlocks exampleX509 pemFile ([], None) = Inr ([\<lparr>Raw = ''c'', NotBefore = 0, NotAfter = 1\<rparr>], Some (RsaPrivateKey ''k''))"
proof -
  have "plainType ''CERTIFICATE''" "plainType ''RSA PRIVATE KEY''" by (simp_all add: plainType_def LF_def)
  note steps = decodeBlocks_step [OF this(1)] decodeBlocks_step [OF this(2)]
  from steps(1) [of exampleX509 "''c''" "pemEncode ''RSA PRIVATE KEY'' ''k''" "([], None)"]
    steps(2) [of exampleX509 "''k''" "[]" "([\<lparr>Raw = ''c'', NotBefore = 0, NotAfter = 1\<rparr>], None)"]
  show ?thesis by (simp add: handleBlock_def exampleX509_def pemFile_def pemEncode_not_Nil)
qed

lemma pemFile_not_Nil: "pemFile \<noteq> []"
  by (simp add: pemFile_def pemEncode_not_Nil)

lemma process_example:
  "fst (ProcessCertificates (env_kube bundleEnv) exampleOs exampleX509
     \<lparr>trace = tr, world = w, osr = NewOpenSSLRunners\<lparr>PemBundle := pemFile\<rparr>\<rparr>) = Done None"
  by (simp add: ProcessCertificates_def orReturn_def processPfx_def DecodePEM_def NewOpenSSLRunners_def pemFile_blocks [unfolded exampleX509_def]
    CreatePKCS12_def checkValidity_def writePemFiles_def orWrap_def convertWithOpenssl_def timeNow_def bundleEnv_def offlineKube_def vaultEnv_def
    file_defs exampleOs_def go_run Let_def GetCertificateExpiration_def parseEnddate_def exampleX509_def pemFile_not_Nil
    TrimSpace_def trim_where_def is_space_def)

lemma ref_example:
  assumes "kv_name (vaultName (bundleRef n))" and "world s = Map.empty"
    and "AkvClient s = Some k" and "Client k = NewAzureKeyVaultClient memHttp t" and "OpenSSLRunners s = Some c"
  shows "\<exists>s' k'. syncRef bundleEnv ns ex (bundleRef n) s = (Done None, s') \<and> world s' = Map.empty
     \<and> AkvClient s' = Some k' \<and> Client k' = NewAzureKeyVaultClient memHttp t \<and> OpenSSLRunners s' = Some c"
  using assms 
  by (simp add: syncRef_def kGetSecret_def bundleEnv_def bundleRef_def emptySecret_def mapData_def go_run
    CheckKVSecretExistence_def setBundle_def Let_def sdkGetSecret_def sdkCall_def memHttp_def answer_def isDetailed404_def NewErrorWithError_def
    pemPush_def pushUnlessEqual_def emptyBundle_def setValue_def PushCertificateToKeyVault_def sdkImportCertificate_def vaultName_def
    PEMTOPFX_TEMPLATING_def BASE64EN_TEMPLATING_def logAndReturn_def)

lemma generator_example:
  "fst (OpenSSLGenerator bundleEnv ns [bundleRef ''a'', bundleRef ''b''] s) = Done None"
proof -
  have env: "env_os bundleEnv = exampleOs" "env_x509 bundleEnv = exampleX509" by (simp_all add: bundleEnv_def vaultEnv_def)
  have load: "loadRef bundleEnv ns (bundleRef n) u = (Done None, u\<lparr>trace := trace u @ [effect.GetSecret (secretKeyOf ns (bundleRef n))],
      OpenSSLRunners := Some (c\<lparr>PemBundle := if n = ''a'' then ''-first-'' else pemFile\<rparr>)\<rparr>)" if "OpenSSLRunners u = Some c" for n u c
    using that by (simp add: loadRef_def kGetSecret_def bundleEnv_def bundleRef_def emptySecret_def mapData_def go_run
        storeCert_def secretKeyOf_def)
  show ?thesis
    using process_example [of "trace s @ [effect.GetSecret (secretKeyOf ns (bundleRef ''a'')), effect.GetSecret (secretKeyOf ns (bundleRef ''b''))]" "world s"]
    by (auto simp: OpenSSLGenerator_def run_andThen run_setRunners load run_onRunners run_ret env split: prod.splits outcome.splits option.splits)
qed

lemma sync_example:
  assumes "world s = Map.empty" and "AkvClient s = Some k" and "Client k = NewAzureKeyVaultClient memHttp t" and "OpenSSLRunners s = Some c"
  shows "fst (SyncSecret bundleEnv ns [bundleRef ''a'', bundleRef ''b''] s) = Done None"
proof -
  let ?ex = "if ExpirationTime c \<noteq> 0 then Some (ExpirationTime c) else None"
  have names: "kv_name (vaultName (bundleRef ''a''))" "kv_name (vaultName (bundleRef ''b''))" by code_simp+
  from ref_example [OF names(1) assms, of ns ?ex] obtain s1 k1 where one: "syncRef bundleEnv ns ?ex (bundleRef ''a'') s = (Done None, s1)"
    "world s1 = Map.empty" "AkvClient s1 = Some k1" "Client k1 = NewAzureKeyVaultClient memHttp t" "OpenSSLRunners s1 = Some c" by blast
  from ref_example [OF names(2) one(2-5), of ns ?ex] obtain s2 where "syncRef bundleEnv ns ?ex (bundleRef ''b'') s1 = (Done None, s2)" by blast
  with one(1) assms(4) show ?thesis
    by (cases "ExpirationTime c = 0") (simp_all add: SyncSecret_def run_andThen run_theRunners run_ret Let_def)
qed

lemma bundleEnv_laws:
  "cluster_secrets bundleEnv bundleData (\<lambda>w. w)" "stable_os (env_os bundleEnv) (\<lambda>w. w)" "stable_kube (env_kube bundleEnv) (\<lambda>w. w)"
  "imports_apart (NewAzureKeyVaultClient memHttp t) (\<lambda>w. w)"
  by (auto simp: cluster_secrets_def stable_os_def stable_kube_def imports_apart_def bundleEnv_def vaultEnv_def emptySecret_def mapData_def
      bundleData_def offlineKube_def exampleOs_def sdkImportCertificate_def sdkCall_def memHttp_def fun_eq_iff split: prod.splits)

theorem pem_references_share_one_bundle_witness:
  "\<exists>s' v. syncSecrets bundleEnv ''prod'' bundleState = (Done None, s')
     \<and> importsOf s' = [KvImportCertificate ''u'' ''a'' v, KvImportCertificate ''u'' ''b'' v]"
proof -
  let ?refs = "[bundleRef ''a'', bundleRef ''b'']"
  let ?k = "\<lparr>Client = NewAzureKeyVaultClient memHttp ''t'', VaultUrl = ''u'', kvSecret = None\<rparr>"
  obtain x where x: "ExportObj bundleState = Some x" "eCertificateSecretRef (eAzureKV x) = ?refs" by (simp add: bundleState_def)
  have k: "AkvClient bundleState = Some ?k" and w: "world bundleState = Map.empty" and t: "trace bundleState = []"
    by (simp_all add: bundleState_def vaultState_def NewExportCertificateSecretReconciler_def)
  obtain s1 where gen: "OpenSSLGenerator bundleEnv ''prod'' ?refs bundleState = (Done None, s1)"
    using generator_example by (metis prod.collapse)
  from OpenSSLGenerator_done [OF bundleEnv_laws(1-3) gen] obtain c where "OpenSSLRunners s1 = Some c" "AkvClient s1 = Some ?k" "world s1 = Map.empty"
    using k w by auto
  then have "fst (SyncSecret bundleEnv ''prod'' ?refs s1) = Done None" by (intro sync_example) auto
  with gen x have "fst (syncSecrets bundleEnv ''prod'' bundleState) = Done None"
    by (auto simp: syncSecrets_def run_andThen run_theExport run_ret Let_def split: prod.splits outcome.splits option.splits)
  then obtain s' where run: "syncSecrets bundleEnv ''prod'' bundleState = (Done None, s')" by (metis prod.collapse)
  have names: "vaultName (bundleRef ''a'') = ''a''" "vaultName (bundleRef ''b'') = ''b''" by code_simp+
  have ref: "RefType (bundleRef n) = ''pem''" "pemValue c (bundleRef n) d = base64Encode (PemBundle c)" for n c d
    by (simp_all add: bundleRef_def pemValue_def PEMTOPFX_TEMPLATING_def BASE64EN_TEMPLATING_def)
  from pem_references_share_one_bundle [OF bundleEnv_laws(1-3) x(1) k _ _ _ run]
  show ?thesis using run x(2) w t bundleEnv_laws(4) memHttp_serves
    by (auto simp: names ref toImport_def importOf_def sameAsVault_def)
qed

end
