(* ===== verification/Export_Flow.thy ===== *)
theory Export_Flow
  imports Export_Liveness Export_Pem
begin

text \<open>
  Whole reconciliations of the export controller: one that ends without asking for another run
  has brought the vault named by the resource up to date with the cluster.
\<close>

section \<open>Hypotheses\<close>

text \<open>
  Documented behaviour of the surroundings. No request to Kubernetes and no local command changes
  the vault; a client of the vault serves its secrets, whatever the token.
\<close>

definition vault_apart :: "'w env \<Rightarrow> ('w \<Rightarrow> vault_view) \<Rightarrow> bool" where
  "vault_apart E view \<longleftrightarrow> stable_kube (env_kube E) view \<and> stable_os (env_os E) view
     \<and> (\<forall>y w. view (snd (status_export (env_kube E) y w)) = view w)
     \<and> (\<forall>y w. view (snd (update_export (env_kube E) y w)) = view w)
     \<and> (\<forall>a c t sc w. view (snd (AcquireTokenByCredential (env_msal E) a c t sc w)) = view w)"

lemma vault_apartD:
  assumes "vault_apart E view"
  shows "stable_kube (env_kube E) view" "stable_os (env_os E) view" "view (snd (status_export (env_kube E) y w)) = view w"
    "view (snd (update_export (env_kube E) y w)) = view w"
    "view (snd (AcquireTokenByCredential (env_msal E) a c t sc w)) = view w"
  using assms by (simp_all add: vault_apart_def)

definition vault_clients :: "'w env \<Rightarrow> ('w \<Rightarrow> vault_view) \<Rightarrow> bool" where
  "vault_clients E view \<longleftrightarrow> (\<forall>token. serves_vault (NewAzureKeyVaultClient (env_http E) token) view
     \<and> imports_apart (NewAzureKeyVaultClient (env_http E) token) view)"

section \<open>The vault after the event\<close>

lemma keeps_view_returnEvent:
  assumes "vault_apart E view"
  shows "keeps (\<lambda>s. view (world s) = v) (returnEvent E n err msg)"
proof -
  have kube: "stable_kube (env_kube E) view" and status: "\<And>y w. view (snd (status_export (env_kube E) y w)) = view w"
    using assms by (simp_all add: vault_apart_def)
  show ?thesis
    unfolding returnEvent_def ReturnEvent_def handleSuccess_def handleMaxRetriesExceeded_def scheduleNextRetry_def
      updateStatus_def exportOps_simps theExport_def kStatusExport_def Let_def
    by (intro go_keeps vf.keeps_kube [OF kube] vf.keeps_request status)
qed

section \<open>The resource in memory\<close>

text \<open>Before the synchronisation begins: the resource is in memory, the vault as it was.\<close>

definition poised :: "('w \<Rightarrow> vault_view) \<Rightarrow> vault_view \<Rightarrow> ExportAzureKVProvider \<Rightarrow> 'w est \<Rightarrow> bool" where
  "poised view v p s \<longleftrightarrow> holdsSpec p s \<and> view (world s) = v"

interpretation pf: framed_invariant view "poised view v p" for view v p
  by unfold_locales (simp add: poised_def holdsSpec_def)

lemma keeps_poised:
  assumes "vault_apart E view"
  shows "keeps (poised view v p) (setKubeClient E)" "keeps (poised view v p) (kGetServiceAccount (env_kube E) k)"
    "keeps (poised view v p) (AuthorizerForWorkloadIdentity (env_kube E) (env_msal E) aza)"
    "eAzureKV x = p \<Longrightarrow> keeps (poised view v p) (setExport x)"
proof -
  note kube = pf.keeps_kube [OF vault_apartD(1) [OF assms]]
  show "keeps (poised view v p) (setKubeClient E)"
    unfolding setKubeClient_def by (intro go_keeps kube) (simp add: poised_def holdsSpec_def)
  show "keeps (poised view v p) (kGetServiceAccount (env_kube E) k)" by (rule kube)
  show "keeps (poised view v p) (AuthorizerForWorkloadIdentity (env_kube E) (env_msal E) aza)"
    by (intro pf.keeps_auth_requests vault_apartD [OF assms])
  show "eAzureKV x = p \<Longrightarrow> keeps (poised view v p) (setExport x)"
    unfolding setExport_def by (intro go_keeps) (simp add: poised_def holdsSpec_def)
qed

lemma keeps_poised_addFinalizer:
  assumes "returns_spec (env_kube E)" and "vault_apart E view"
  shows "keeps (poised view v p) (addFinalizer E)"
  unfolding kUpdateExport_def
  by (rule keeps_addFinalizer_spec [OF assms(1)])
    (auto simp: poised_def intro!: keeps_poised(4) [OF assms(2)] pf.keeps_request vault_apartD(4) [OF assms(2)]
      simp: kUpdateExport_def)

section \<open>From the credentials to the vault\<close>

text \<open>Every reference of type \<open>crt\<close> has its data in the vault of the resource.\<close>

definition delivered :: "(NamespacedName \<Rightarrow> (string \<rightharpoonup> bytes)) \<Rightarrow> string \<Rightarrow> vault_view \<Rightarrow> vault_view \<Rightarrow> ExportAzureKVProvider \<Rightarrow> bool" where
  "delivered sec ns v v' p \<longleftrightarrow> (\<forall>ref \<in> set (eCertificateSecretRef p). RefType ref = ''crt'' \<longrightarrow> copied sec ns (eVaultUrl p) v v' ref)"

lemma copiedD:
  assumes "copied sec ns u v v' ref"
  shows "\<exists>d b. sec (secretKeyOf ns ref) (SecretKey ref) = Some d \<and> v' (u, vaultName ref) = Some b \<and> standsFor b (target ref d)
    \<and> (v (u, vaultName ref) = None \<longrightarrow> b = target ref d)"
proof -
  from assms obtain d where d: "sec (secretKeyOf ns ref) (SecretKey ref) = Some d"
    "v' (u, vaultName ref) = afterPush (target ref d) (v (u, vaultName ref))" by (auto simp: copied_def)
  obtain b where "afterPush (target ref d) (v (u, vaultName ref)) = Some b" "standsFor b (target ref d)"
    using afterPush_standsFor by metis
  with d show ?thesis by (auto simp: afterPush_def sameAsVault_def)
qed

lemma syncSecrets_delivered:
  assumes "cluster_secrets E sec view" and "vault_apart E view" and "vault_clients E view"
    and "distinct (map vaultName (eCertificateSecretRef p))" and "holdsSpec p s"
    and "AkvClient s = Some \<lparr>Client = NewAzureKeyVaultClient (env_http E) token, VaultUrl = eVaultUrl p, kvSecret = None\<rparr>"
    and "syncSecrets E ns s = (Done None, s')"
  shows "delivered sec ns (view (world s)) (view (world s')) p"
proof -
  obtain x where x: "ExportObj s = Some x" "eAzureKV x = p" using assms(5) by (auto simp: holdsSpec_def)
  have "serves_vault (NewAzureKeyVaultClient (env_http E) token) view"
    "imports_apart (NewAzureKeyVaultClient (env_http E) token) view" using assms(3) by (simp_all add: vault_clients_def)
  then show ?thesis
    using syncSecrets_references [OF assms(1) vault_apartD(2,1) [OF assms(2)] x(1) assms(6) _ _ _ assms(7)] assms(4) x(2)
    by (auto simp: delivered_def)
qed

text \<open>A reconciliation that asks for no other run is a synchronisation from a state with the resource and the vault as they were.\<close>

lemma Reconcile_poised:
  assumes found: "finds E req (world s) x" and pos: "0 \<le>s GetRetryCount x"
    and spec: "returns_spec (env_kube E)" and ap: "vault_apart E view"
    and run: "Reconcile E req s = (Done out, s')" and over: "\<not> askedAgain out"
  obtains s0 token s2 where "poised view (view (world s)) (eAzureKV x) s0" and "told (\<lambda>_. True) (trace s) s0"
    and "syncSecrets E (nn_Namespace req) (pointedAt E token s0) = (Done None, s2)" and "succeed E s2 = (Done out, s')"
proof -
  let ?told = "told (\<lambda>_. True) (trace s) :: 'a est \<Rightarrow> bool"
  let ?P = "\<lambda>t. poised view (view (world s)) (eAzureKV x) t \<and> ?told t"
  have told: "keeps ?told (addFinalizer E)" "keeps ?told (setKubeClient E)" "keeps ?told (kGetServiceAccount (env_kube E) k)"
    "keeps ?told (AuthorizerForWorkloadIdentity (env_kube E) (env_msal E) aza)" for k aza
    unfolding addFinalizer_def theExport_def setExport_def kUpdateExport_def setKubeClient_def kGetServiceAccount_def Let_def
    by (intro keeps_told go_adds adds_all_calls; simp)+
  note kube = vault_apartD(1,3) [OF ap]
  show thesis
  proof (rule Reconcile_synced [OF found pos _ _ _ _ _ run over, of ?P])
    show "keeps ?P (addFinalizer E)" by (rule keeps_both [OF keeps_poised_addFinalizer [OF spec ap] told(1)])
    show "keeps ?P (setKubeClient E)" by (rule keeps_both [OF keeps_poised(1) [OF ap] told(2)])
    show "keeps ?P (kGetServiceAccount (env_kube E) k)" for k by (rule keeps_both [OF keeps_poised(2) [OF ap] told(3)])
    show "keeps ?P (AuthorizerForWorkloadIdentity (env_kube E) (env_msal E) aza)" for aza
      by (rule keeps_both [OF keeps_poised(3) [OF ap] told(4)])
  next
    fix n y and s1 :: "'a est"
    assume "fst (status_export (env_kube E) (SetRetryCount n x) (world s1)) = Inr y"
      and "world s1 = snd (get_export (env_kube E) req (snd (get_crd (env_kube E) EXPORT_CERT_SECRET_CRD (world s))))"
      and "trace s1 = trace s @ [GetCRD EXPORT_CERT_SECRET_CRD, GetExport req]"
    then show "?P (s1\<lparr>trace := trace s1 @ [StatusExport (SetRetryCount n x)],
        world := snd (status_export (env_kube E) (SetRetryCount n x) (world s1)), ExportObj := Some y\<rparr>)"
      using spec kube by (auto simp: poised_def holdsSpec_def returns_spec_def stable_kube_def told_def)
  next
    fix n s0 token s2
    assume "?P s0" "syncSecrets E (nn_Namespace req) (pointedAt E token s0) = (Done None, s2)" "succeed E s2 = (Done out, s')"
    then show thesis by (intro that) simp_all
  qed
qed

lemma succeed_view:
  assumes "vault_apart E view" and "succeed E s2 = (Done out, s')"
  shows "view (world s') = view (world s2)"
proof -
  have "keeps (\<lambda>s. view (world s) = view (world s2)) (succeed E)"
    unfolding succeed_def theExport_def setExport_def by (intro go_keeps keeps_view_returnEvent [OF assms(1)]) simp
  from keepsD [OF this _ assms(2)] show ?thesis by simp
qed

lemma pointedAt_poised:
  assumes "poised view v p s0"
  shows "holdsSpec p (pointedAt E token s0)" "view (world (pointedAt E token s0)) = v"
    "AkvClient (pointedAt E token s0) = Some \<lparr>Client = NewAzureKeyVaultClient (env_http E) token, VaultUrl = eVaultUrl p, kvSecret = None\<rparr>"
    "trace (pointedAt E token s0) = trace s0"
  using assms by (auto simp: poised_def holdsSpec_def pointedAt_def)

text \<open>So it has delivered.\<close>

lemma Reconcile_delivered:
  assumes "finds E req (world s) x" and "0 \<le>s GetRetryCount x"
    and "returns_spec (env_kube E)" and cl: "cluster_secrets E sec view" and ap: "vault_apart E view" and vc: "vault_clients E view"
    and dist: "distinct (map vaultName (eCertificateSecretRef (eAzureKV x)))"
    and "Reconcile E req s = (Done out, s')" and "\<not> askedAgain out"
  shows "delivered sec (nn_Namespace req) (view (world s)) (view (world s')) (eAzureKV x)"
proof (rule Reconcile_poised [OF assms(1-3) ap assms(8,9)])
  fix s0 token s2
  assume s0: "poised view (view (world s)) (eAzureKV x) s0"
    and sync: "syncSecrets E (nn_Namespace req) (pointedAt E token s0) = (Done None, s2)" and last: "succeed E s2 = (Done out, s')"
  from syncSecrets_delivered [OF cl ap vc dist pointedAt_poised(1) [OF s0] pointedAt_poised(3) [OF s0] sync]
  show ?thesis by (simp add: pointedAt_poised(2) [OF s0] succeed_view [OF ap last])
qed

section \<open>Templated data\<close>

text \<open>
  A reference with the template \<open>base64encode\<close> whose encoded data the vault holds: the loop pushes
  it again, whatever the other references are.
\<close>

lemma syncRefs_templated:
  assumes cl: "cluster_secrets E sec view" and vault: "serves_vault C view" "imports_apart C view"
    and ref: "RefType ref = ''crt''" "Templating ref = BASE64EN_TEMPLATING"
    and d: "sec (secretKeyOf ns ref) (SecretKey ref) = Some d" "d \<noteq> []"
    and run: "forEach refs (syncRef E ns ex) s = (Done None, s')"
    and st: "steady c C u s" and dist: "distinct (map vaultName refs)" and "ref \<in> set refs"
    and there: "view (world s) (u, vaultName ref) = Some (base64Encode d)"
  shows "\<exists>es. trace s' = trace s @ es \<and> KvSetSecret u (vaultName ref) (base64Encode d) ex \<in> set es"
  using run st dist \<open>ref \<in> set refs\<close> there
proof (induction refs arbitrary: s)
  case Nil
  then show ?case by simp
next
  case (Cons r refs)
  from Cons.prems(1) obtain s1 where one: "syncRef E ns ex r s = (Done None, s1)"
    and rest: "forEach refs (syncRef E ns ex) s1 = (Done None, s')"
    by (auto simp: run_andThen run_ret split: prod.splits outcome.splits option.splits)
  have grows: "adds (\<lambda>_. True) (forEach refs (syncRef E ns ex))" by (rule adds_forEach) (rule adds_syncRef)
  show ?case
  proof (cases "r = ref")
    case True
    from Cons.prems(2) obtain k where k: "AkvClient s = Some k" "Client k = C" "VaultUrl k = u" by (auto simp: steady_def)
    have target: "target ref d = base64Encode d" using ref(2) by (simp add: target_def)
    have "\<not> sameAsVault (base64Encode d) (Some (base64Encode d))"
      using base64Encode_fixpoint [of d] d(2) by (simp add: sameAsVault_def ByteCompare_encoded)
    moreover have "serves_vault (Client k) view" using vault(1) k(2) by simp
    ultimately have "trace s1 = trace s @ [effect.GetSecret (secretKeyOf ns ref), KvGetSecret u (vaultName ref),
        KvSetSecret u (vaultName ref) (base64Encode d) ex]"
      using syncRef_crt [OF cl k(1) _ ref(1) one [unfolded True]] Cons.prems(5) d(1) target k(3) by (metis option.inject)
    moreover obtain fs where "trace s' = trace s1 @ fs" by (rule addsE [OF grows rest])
    ultimately show ?thesis by simp
  next
    case False
    note step = syncRef_any [OF cl Cons.prems(2) vault one]
    have other: "ref \<in> set refs" "distinct (map vaultName refs)" using False Cons.prems(3,4) by simp_all
    have "vaultName r \<notin> set (map vaultName refs)" using Cons.prems(3) by simp
    with other(1) have "vaultName ref \<noteq> vaultName r" by (metis image_eqI list.set_map)
    with step Cons.prems(5) have "view (world s1) (u, vaultName ref) = Some (base64Encode d)" by simp
    with Cons.IH [OF rest _ other(2,1)] step obtain es where
      "trace s' = trace s1 @ es" "KvSetSecret u (vaultName ref) (base64Encode d) ex \<in> set es" by blast
    moreover obtain fs where "trace s1 = trace s @ fs" by (rule addsE [OF adds_syncRef one])
    ultimately show ?thesis by (intro exI [of _ "fs @ es"]) simp
  qed
qed

lemma syncSecrets_templated:
  assumes cl: "cluster_secrets E sec view" and ap: "vault_apart E view" and vc: "vault_clients E view"
    and dist: "distinct (map vaultName (eCertificateSecretRef p))" and held: "holdsSpec p s"
    and k: "AkvClient s = Some \<lparr>Client = NewAzureKeyVaultClient (env_http E) token, VaultUrl = eVaultUrl p, kvSecret = None\<rparr>"
    and run: "syncSecrets E ns s = (Done None, s')"
    and "ref \<in> set (eCertificateSecretRef p)" and ref: "RefType ref = ''crt''" "Templating ref = BASE64EN_TEMPLATING"
    and d: "sec (secretKeyOf ns ref) (SecretKey ref) = Some d" "d \<noteq> []"
    and there: "view (world s) (eVaultUrl p, vaultName ref) = Some (base64Encode d)"
  shows "\<exists>es ex. trace s' = trace s @ es \<and> KvSetSecret (eVaultUrl p) (vaultName ref) (base64Encode d) ex \<in> set es"
proof -
  let ?refs = "eCertificateSecretRef p" and ?C = "NewAzureKeyVaultClient (env_http E) token"
  from held run obtain s1 where gen: "OpenSSLGenerator E ns ?refs s = (Done None, s1)"
    and sync: "SyncSecret E ns ?refs s1 = (Done None, s')"
    by (auto simp: holdsSpec_def syncSecrets_def run_andThen run_theExport run_ret Let_def split: prod.splits outcome.splits option.splits)
  from OpenSSLGenerator_done [OF cl vault_apartD(2,1) [OF ap] gen] obtain c where "OpenSSLRunners s1 = Some c"
    and s1: "AkvClient s1 = AkvClient s" "view (world s1) = view (world s)" by blast
  then have "steady c ?C (eVaultUrl p) s1" using k by (simp add: steady_def)
  moreover obtain ex where "forEach ?refs (syncRef E ns ex) s1 = (Done None, s')" by (rule SyncSecret_loop [OF sync])
  moreover have "serves_vault ?C view" "imports_apart ?C view" using vc by (simp_all add: vault_clients_def)
  ultimately obtain es where "trace s' = trace s1 @ es" "KvSetSecret (eVaultUrl p) (vaultName ref) (base64Encode d) ex \<in> set es"
    using syncRefs_templated [OF cl _ _ ref d _ _ dist assms(8)] there s1(2) by metis
  moreover obtain fs where "trace s1 = trace s @ fs" by (rule addsE [OF adds_generator gen])
  ultimately show ?thesis by (intro exI [of _ "fs @ es"] exI [of _ ex]) simp
qed

section \<open>Properties\<close>

text \<open>
  C4. An export reconciliation that returns without an error and without a delay, of a resource
  that is not being deleted, has done its work: the vault the resource names holds, for every
  reference of type \<open>crt\<close>, a value that stands for the cluster's data, and is just that where the
  vault had none. With the retry of every
  other outcome this is what the operator promises its users; the names must differ in
  lower case.
\<close>

theorem export_success_reaches_vault:
  assumes "finds E req (world s) x" and "0 \<le>s GetRetryCount x"
    and "returns_spec (env_kube E)" and "cluster_secrets E sec view" and "vault_apart E view" and "vault_clients E view"
    and "distinct (map vaultName (eCertificateSecretRef (eAzureKV x)))"
    and "Reconcile E req s = (Done (res, None), s')" and "\<not> 0 <s RequeueAfter res"
    and "ref \<in> set (eCertificateSecretRef (eAzureKV x))" and "RefType ref = ''crt''"
  shows "\<exists>d v. sec (secretKeyOf (nn_Namespace req) ref) (SecretKey ref) = Some d
    \<and> view (world s') (eVaultUrl (eAzureKV x), vaultName ref) = Some v \<and> standsFor v (target ref d)
    \<and> (view (world s) (eVaultUrl (eAzureKV x), vaultName ref) = None \<longrightarrow> v = target ref d)"
proof -
  have "\<not> askedAgain (res, None)" using assms(9) by (simp add: askedAgain_def)
  from Reconcile_delivered [OF assms(1-8) this] assms(10,11)
  have "copied sec (nn_Namespace req) (eVaultUrl (eAzureKV x)) (view (world s)) (view (world s')) ref" by (simp add: delivered_def)
  then show ?thesis by (rule copiedD)
qed

definition flowEnv :: "vault_view env" where
  "flowEnv = vaultEnv\<lparr>env_kube := (env_kube vaultEnv)
     \<lparr>get_crd := \<lambda>_ w. (Inr \<lparr>crdMeta = emptyMeta\<rparr>, w),
      get_export := \<lambda>_ w. (Inr (exampleExport [caseRef ''tls.crt'' ''Web'']), w),
      update_export := \<lambda>x w. (Inr x, w), status_export := \<lambda>x w. (Inr x, w),
      get_service_account := \<lambda>_ w. (Inr exampleServiceAccount, w),
      cs_create_token := \<lambda>_ _ _ w. (Inr ''jwt'', w)\<rparr>\<rparr>"

lemma flowEnv_laws:
  "returns_spec (env_kube flowEnv)" "cluster_secrets flowEnv vaultSecrets (\<lambda>w. w)" "vault_apart flowEnv (\<lambda>w. w)"
  "vault_clients flowEnv (\<lambda>w. w)"
  by (auto simp: returns_spec_def cluster_secrets_def vault_apart_def vault_clients_def stable_kube_def stable_os_def
      flowEnv_def vaultEnv_def emptySecret_def mapData_def vaultSecrets_def offlineKube_def exampleOs_def exampleMsal_def memHttp_serves bundleEnv_laws(4))

theorem export_success_reaches_vault_witness:
  "\<exists>s' v. Reconcile flowEnv \<lparr>nn_Namespace = ''prod'', nn_Name = ''web''\<rparr> (NewExportCertificateSecretReconciler Map.empty)
       = (Done (emptyResult, None), s')
     \<and> world s' (eVaultUrl (eAzureKV (exampleExport [])), ''web'') = Some v \<and> standsFor v ''-cert-''"
proof -
  let ?req = "\<lparr>nn_Namespace = ''prod'', nn_Name = ''web''\<rparr>" and ?s = "NewExportCertificateSecretReconciler Map.empty"
  let ?x = "exampleExport [caseRef ''tls.crt'' ''Web'']"
  have "fst (Reconcile flowEnv ?req ?s) = Done (emptyResult, None)" by code_simp
  then obtain s' where run: "Reconcile flowEnv ?req ?s = (Done (emptyResult, None), s')" by (metis prod.collapse)
  have found: "finds flowEnv ?req (world ?s) ?x" by (simp add: finds_def flowEnv_def exampleExport_def emptyMeta_def)
  have x: "0 \<le>s GetRetryCount ?x" "eCertificateSecretRef (eAzureKV ?x) = [caseRef ''tls.crt'' ''Web'']"
    "eVaultUrl (eAzureKV ?x) = eVaultUrl (eAzureKV (exampleExport []))"
    by (simp_all add: exampleExport_def GetRetryCount_def)
  have "vaultName (caseRef ''tls.crt'' ''Web'') = ''web''" and "target (caseRef ''tls.crt'' ''Web'') d = d" for d
    by (simp_all add: vaultName_def ToLower_Web target_def BASE64EN_TEMPLATING_def)
  with export_success_reaches_vault [OF found x(1) flowEnv_laws _ run, of "caseRef ''tls.crt'' ''Web''"] x(2,3) run
  show ?thesis by (auto simp: emptyResult_def vaultSecrets_def)
qed


text \<open>A resource with a plain and a templated reference, both of them up to date in the vault.\<close>

definition encodedRef :: CertificateSecretRef where
  "encodedRef = (caseRef ''tls.crt'' ''Enc'')\<lparr>Templating := BASE64EN_TEMPLATING\<rparr>"

definition twoRefs :: ExportCertificateSecret where
  "twoRefs = exampleExport [caseRef ''tls.crt'' ''Web'', encodedRef]"

definition twoEnv :: "vault_view env" where
  "twoEnv = flowEnv\<lparr>env_kube := (env_kube flowEnv)\<lparr>get_export := \<lambda>_ w. (Inr twoRefs, w)\<rparr>\<rparr>"

definition servedVault :: vault_view where
  "servedVault = [(eVaultUrl (eAzureKV twoRefs), ''web'') \<mapsto> ''-cert-'', (eVaultUrl (eAzureKV twoRefs), ''enc'') \<mapsto> base64Encode ''-cert-'']"


end
