(* ===== verification/Export_Frame.thy ===== *)
theory Export_Frame
  imports Export_Flow
begin

text \<open>
  What a reconciliation of the export controller can change in the vaults: whatever becomes of
  it, only secrets under the names that its own resource uses.
\<close>

section \<open>Hypotheses\<close>

text \<open>Documented behaviour of a vault: an operation on a name changes no secret of another name.\<close>

definition writes_own :: "'w KeyVaultClient \<Rightarrow> ('w \<Rightarrow> vault_view) \<Rightarrow> bool" where
  "writes_own C view \<longleftrightarrow> (\<forall>u n key. key \<noteq> (u, n) \<longrightarrow>
     (\<forall>v e w. view (snd (SetSecret C u n v e w)) key = view w key)
   \<and> (\<forall>v w. view (snd (ImportCertificate C u n v w)) key = view w key)
   \<and> (\<forall>w. view (snd (GetSecret C u n [] w)) key = view w key)
   \<and> (\<forall>w. view (snd (DeleteSecret C u n w)) key = view w key)
   \<and> (\<forall>w. view (snd (PurgeDeletedSecret C u n w)) key = view w key)
   \<and> (\<forall>w. view (snd (DeleteCertificate C u n w)) key = view w key)
   \<and> (\<forall>w. view (snd (PurgeDeletedCertificate C u n w)) key = view w key))"

definition vault_isolated :: "'w env \<Rightarrow> ('w \<Rightarrow> vault_view) \<Rightarrow> bool" where
  "vault_isolated E view \<longleftrightarrow> vault_apart E view \<and> returns_spec (env_kube E)
     \<and> (\<forall>ns w. view (snd (list_exports (env_kube E) ns w)) = view w)
     \<and> (\<forall>token. writes_own (NewAzureKeyVaultClient (env_http E) token) view)"

text \<open>What is in the vaults under other names than those in \<open>N\<close>.\<close>

definition outside :: "('w \<Rightarrow> vault_view) \<Rightarrow> string set \<Rightarrow> 'w \<Rightarrow> vault_view" where
  "outside view N w = (\<lambda>key. if snd key \<in> N then None else view w key)"

lemma outside_eqI: "(\<And>key. snd key \<notin> N \<Longrightarrow> view w' key = view w key) \<Longrightarrow> outside view N w' = outside view N w"
  by (auto simp: outside_def)

lemma outsideD: "outside view N w' = outside view N w \<Longrightarrow> snd key \<notin> N \<Longrightarrow> view w' key = view w key"
  unfolding outside_def by (meson fun_cong)

lemma outside_same: "view w' = view w \<Longrightarrow> outside view N w' = outside view N w"
  by (rule outside_eqI) simp

lemma writes_own_outside:
  assumes "writes_own C view" and "n \<in> N"
  shows "outside view N (snd (SetSecret C u n v e w)) = outside view N w"
    "outside view N (snd (ImportCertificate C u n v w)) = outside view N w"
    "outside view N (snd (GetSecret C u n [] w)) = outside view N w"
    "outside view N (snd (DeleteSecret C u n w)) = outside view N w"
    "outside view N (snd (PurgeDeletedSecret C u n w)) = outside view N w"
    "outside view N (snd (DeleteCertificate C u n w)) = outside view N w"
    "outside view N (snd (PurgeDeletedCertificate C u n w)) = outside view N w"
proof -
  have "key \<noteq> (u, n)" if "snd key \<notin> N" for key :: "string \<times> string" using that assms(2) by auto
  with assms(1) show "outside view N (snd (SetSecret C u n v e w)) = outside view N w"
    "outside view N (snd (ImportCertificate C u n v w)) = outside view N w"
    "outside view N (snd (GetSecret C u n [] w)) = outside view N w"
    "outside view N (snd (DeleteSecret C u n w)) = outside view N w"
    "outside view N (snd (PurgeDeletedSecret C u n w)) = outside view N w"
    "outside view N (snd (DeleteCertificate C u n w)) = outside view N w"
    "outside view N (snd (PurgeDeletedCertificate C u n w)) = outside view N w"
    by (auto simp: writes_own_def intro!: outside_eqI)
qed

lemma vault_isolatedD:
  assumes "vault_isolated E view"
  shows "vault_apart E view" "returns_spec (env_kube E)"
    "outside view N (snd (update_export (env_kube E) y w)) = outside view N w"
    "outside view N (snd (list_exports (env_kube E) ns w)) = outside view N w"
    "outside view N (snd (status_export (env_kube E) y w)) = outside view N w"
    "outside view N (snd (AcquireTokenByCredential (env_msal E) a c t sc w)) = outside view N w"
    "writes_own (NewAzureKeyVaultClient (env_http E) token) view"
    "stable_kube (env_kube E) (outside view N)" "stable_os (env_os E) (outside view N)"
  using assms
  by (auto simp: vault_isolated_def vault_apart_def stable_kube_def stable_os_def intro!: outside_same)

section \<open>The Key Vault object\<close>

text \<open>It is one of the controller's own, and the name in it is in \<open>N\<close>.\<close>

definition named :: "string set \<Rightarrow> 'w KeyVault \<Rightarrow> bool" where
  "named N k \<longleftrightarrow> (\<forall>sec. kvSecret k = Some sec \<longrightarrow> ToLower (sName sec) \<in> N)"

definition kvmine :: "'w env \<Rightarrow> ('w \<Rightarrow> vault_view) \<Rightarrow> string set \<Rightarrow> vault_view \<Rightarrow> 'w kvst \<Rightarrow> bool" where
  "kvmine E view N v t \<longleftrightarrow> kvgood E (outside view N) v t \<and> named N (kv t)"

interpretation kvm: framed_invariant "outside view N" "kvmine E view N v" for E view N v
  by unfold_locales (simp add: kvmine_def kvgood_def)

lemma keeps_kvmine_secret:
  assumes "\<And>sec. ToLower (sName sec) \<in> N \<Longrightarrow> keeps (kvmine E view N v) (f sec)"
  shows "keeps (kvmine E view N v) (andThen theSecret f)"
proof (rule keepsI)
  fix t r t'
  assume t: "kvmine E view N v t" and run: "andThen theSecret f t = (r, t')"
  show "kvmine E view N v t'"
  proof (cases "kvSecret (kv t)")
    case None
    with t run show ?thesis by (simp add: run_andThen run_theSecret run_nilDeref)
  next
    case (Some sec)
    with t have "ToLower (sName sec) \<in> N" by (simp add: kvmine_def named_def)
    from keepsD [OF assms [OF this] t] run Some show ?thesis by (simp add: run_andThen run_theSecret)
  qed
qed

lemma keeps_kvmine_set:
  "ToLower (sName sec) \<in> N \<Longrightarrow> keeps (kvmine E view N v) (setKvSecret sec)"
  by (auto simp: setKvSecret_def kvmine_def kvgood_def named_def intro!: go_keeps)

lemma keeps_kvmine_fields:
  "keeps (kvmine E view N v) theSecret" "keeps (kvmine E view N v) (logAndReturn err)"
  "keeps (kvmine E view N v) (setBundle b)" "keeps (kvmine E view N v) (setValue x)"
proof -
  show "keeps (kvmine E view N v) theSecret" "keeps (kvmine E view N v) (logAndReturn err)"
    unfolding theSecret_def logAndReturn_def by (intro go_keeps)+
  show "keeps (kvmine E view N v) (setBundle b)" "keeps (kvmine E view N v) (setValue x)"
    unfolding setBundle_def setValue_def by (auto intro!: keeps_kvmine_secret keeps_kvmine_set)
qed

lemma keeps_kvmine_call:
  assumes "\<And>token u w. outside view N (snd (f (NewAzureKeyVaultClient (env_http E) token) u w)) = outside view N w"
  shows "keeps (kvmine E view N v) (kvCall e f)"
  by (rule keepsI) (auto simp: run_kvCall kvmine_def kvgood_def assms)

lemma keeps_kvmine_ops:
  assumes "vault_isolated E view"
  shows "keeps (kvmine E view N v) PushSecretToKeyVault" "keeps (kvmine E view N v) PushCertificateToKeyVault"
    "keeps (kvmine E view N v) CheckKVSecretExistence" "keeps (kvmine E view N v) DeleteSecretFromKeyVault"
    "keeps (kvmine E view N v) DeleteCertificateFromKeyVault"
    "keeps (kvmine E view N v) (PurgeDeletedSecretFromKeyVault (env_kube E))"
    "keeps (kvmine E view N v) (PurgeDeletedCertificateFromKeyVault (env_kube E))"
  unfolding PushSecretToKeyVault_def PushCertificateToKeyVault_def CheckKVSecretExistence_def DeleteSecretFromKeyVault_def
    DeleteCertificateFromKeyVault_def PurgeDeletedSecretFromKeyVault_def PurgeDeletedCertificateFromKeyVault_def
    purgeLoop_def purgeAttempt_def Let_def
  by (intro keeps_kvmine_secret go_keeps keeps_kvmine_fields keeps_kvmine_call
      writes_own_outside [OF vault_isolatedD(7) [OF assms]] kvm.keeps_kube vault_isolatedD(8) [OF assms]; assumption)+

section \<open>The reconciler\<close>

text \<open>
  \<open>mine\<close> is kept by everything after the resource has been read; between setting the name on the
  Key Vault object and the end of the operation \<open>mineK\<close> holds.
\<close>

definition mine :: "'w env \<Rightarrow> ('w \<Rightarrow> vault_view) \<Rightarrow> string set \<Rightarrow> vault_view \<Rightarrow> ExportAzureKVProvider \<Rightarrow> 'w est \<Rightarrow> bool" where
  "mine E view N v p s \<longleftrightarrow> cgood E (outside view N) v s \<and> holdsSpec p s"

definition mineK :: "'w env \<Rightarrow> ('w \<Rightarrow> vault_view) \<Rightarrow> string set \<Rightarrow> vault_view \<Rightarrow> ExportAzureKVProvider \<Rightarrow> 'w est \<Rightarrow> bool" where
  "mineK E view N v p s \<longleftrightarrow> mine E view N v p s \<and> (\<forall>k. AkvClient s = Some k \<longrightarrow> named N k)"

interpretation mf: framed_invariant "outside view N" "mine E view N v p" for E view N v p
  by unfold_locales (simp add: mine_def holdsSpec_def cgood_def)

interpretation mkf: framed_invariant "outside view N" "mineK E view N v p" for E view N v p
  by unfold_locales (simp add: mineK_def mine_def holdsSpec_def cgood_def)

lemma keeps_mineK_onAkv:
  assumes "keeps (kvmine E view N v) m"
  shows "keeps (mineK E view N v p) (onAkv m)"
  unfolding onAkv_def
proof (rule keeps_zoom)
  fix s :: "'a est" and t r t'
  assume s: "mineK E view N v p s"
    and t: "map_option (\<lambda>k. \<lparr>trace = trace s, world = world s, kv = k\<rparr>) (AkvClient s) = Some t" and run: "m t = (r, t')"
  from s t have "kvmine E view N v t" by (auto simp: mineK_def mine_def cgood_def kvmine_def kvgood_def)
  from keepsD [OF assms this run] s show "mineK E view N v p (s\<lparr>trace := trace t', world := world t', AkvClient := Some (kv t')\<rparr>)"
    by (simp add: mineK_def mine_def cgood_def kvmine_def kvgood_def holdsSpec_def)
qed

lemma mine_holds: "mine E view N v p s \<Longrightarrow> holdsSpec p s"
  by (simp add: mine_def)

lemma keeps_mine_fields:
  "keeps (mine E view N v p) theExport" "eAzureKV x = p \<Longrightarrow> keeps (mine E view N v p) (setExport x)"
  "keeps (mineK E view N v p) theExport" "keeps (mineK E view N v p) theRunners" "keeps (mineK E view N v p) (setRunners c)"
  "keeps (mine E view N v p) (setAkvClient E auth url)"
  by (auto simp: theExport_def setExport_def theRunners_def setRunners_def setAkvClient_def mineK_def mine_def cgood_def
      holdsSpec_def intro!: go_keeps)

lemma keeps_mine_process:
  assumes "vault_isolated E view"
  shows "keeps (mineK E view N v p) (onRunners (ProcessCertificates (env_kube E) (env_os E) X))"
  unfolding onRunners_def
proof (rule keeps_zoom)
  fix s :: "'a est" and t r t'
  assume s: "mineK E view N v p s" and run: "ProcessCertificates (env_kube E) (env_os E) X t = (r, t')"
    and t: "map_option (\<lambda>c. \<lparr>trace = trace s, world = world s, osr = c\<rparr>) (OpenSSLRunners s) = Some t"
  have "unprocessed (\<lambda>_. True)" by (simp add: unprocessed_def)
  note keeps_ProcessCertificates [OF vault_isolatedD(9,8) [OF assms] this]
  moreover from s t have "osgood (outside view N) v (\<lambda>_. True) t" by (auto simp: mineK_def mine_def cgood_def osgood_def)
  ultimately have "osgood (outside view N) v (\<lambda>_. True) t'" using run by (blast intro: keepsD)
  with s show "mineK E view N v p (s\<lparr>trace := trace t', world := world t', OpenSSLRunners := Some (osr t')\<rparr>)"
    by (simp add: mineK_def mine_def cgood_def osgood_def holdsSpec_def)
qed

abbreviation namesOf :: "ExportAzureKVProvider \<Rightarrow> string set" where
  "namesOf p \<equiv> vaultName ` set (eCertificateSecretRef p)"

interpretation isolated: sync_invariant E "{cert. vault_isolated E view \<longrightarrow> vaultName cert \<in> namesOf p}"
    "\<lambda>s. vault_isolated E view \<longrightarrow> mineK E view (namesOf p) v p s" "\<lambda>t. vault_isolated E view \<longrightarrow> kvmine E view (namesOf p) v t"
    for E view v p
proof unfold_locales
  fix s x
  assume "vault_isolated E view \<longrightarrow> mineK E view (namesOf p) v p s" and "ExportObj s = Some x"
  then show "set (eCertificateSecretRef (eAzureKV x)) \<subseteq> {cert. vault_isolated E view \<longrightarrow> vaultName cert \<in> namesOf p}"
    by (auto simp: mineK_def mine_def holdsSpec_def)
qed (auto simp: keeps_under vaultName_def intro!: keeps_mine_fields keeps_mineK_onAkv keeps_kvmine_fields keeps_kvmine_ops
      keeps_mine_process keeps_kvmine_set mkf.keeps_kube dest: vault_isolatedD(8))

lemma keeps_mineK_syncSecrets:
  assumes "vault_isolated E view"
  shows "keeps (mineK E view (namesOf p) v p) (syncSecrets E ns)"
  using isolated.keeps_sync [of E view p v ns] assms by (simp add: keeps_under)

section \<open>One reconciliation\<close>

text \<open>A method that establishes a stronger invariant for the rest.\<close>

lemma keeps_into:
  assumes "\<And>s r s'. I s \<Longrightarrow> m s = (r, s') \<Longrightarrow> case r of Done a \<Rightarrow> J s' | Panicked q \<Rightarrow> I s'"
    and "\<And>a. keeps J (f a)" and "\<And>s. J s \<Longrightarrow> I s"
  shows "keeps I (andThen m f)"
proof (rule keepsI)
  fix s r s'
  assume I: "I s" and run: "andThen m f s = (r, s')"
  obtain r1 s1 where m: "m s = (r1, s1)" by fastforce
  from assms(1) [OF I m] run m keepsD [OF assms(2)] assms(3) show "I s'"
    by (cases r1) (auto simp: run_andThen)
qed

lemma keeps_mine_requests:
  assumes "vault_isolated E view"
  shows "keeps (mine E view N v p) (setKubeClient E)" "keeps (mine E view N v p) (kStatusExport (env_kube E) x)"
    "keeps (mine E view N v p) (AuthorizerForWorkloadIdentity (env_kube E) (env_msal E) aza)"
  unfolding setKubeClient_def kStatusExport_def
  by (intro go_keeps mf.keeps_kube mf.keeps_request mf.keeps_auth_requests vault_isolatedD [OF assms];
      simp add: mine_def cgood_def holdsSpec_def)+

lemma keeps_mine_addFinalizer:
  assumes "vault_isolated E view"
  shows "keeps (mine E view N v p) (addFinalizer E)"
  by (rule keeps_addFinalizer_spec [OF vault_isolatedD(2) [OF assms]])
    (auto simp: mine_holds kUpdateExport_def intro!: keeps_mine_fields mf.keeps_request vault_isolatedD(3) [OF assms])

lemma keeps_mine_vault:
  assumes "vault_isolated E view"
  shows "keeps (mine E view (namesOf p) v p) (seq (setAkvClient E auth url) (syncSecrets E ns))"
  by (rule keeps_into [OF _ keeps_mineK_syncSecrets [OF assms]])
    (auto simp: setAkvClient_def run_andThen deref_def run_nilDeref run_modify run_ret mineK_def mine_def cgood_def holdsSpec_def named_def
      split: option.splits)

subsection \<open>Deletion\<close>

lemma keeps_mine_deleteRef:
  assumes "vault_isolated E view" and "vaultName cert \<in> N"
  shows "keeps (mine E view N v p) (deleteRef E cert)"
proof -
  have rest: "keeps (mineK E view N v p) (deleteAndPurge delete purge)"
    if "keeps (kvmine E view N v) delete" "keeps (kvmine E view N v) purge" for delete purge
    unfolding deleteAndPurge_def by (intro go_keeps keeps_mineK_onAkv keeps_mine_fields that)
  show ?thesis
    unfolding deleteRef_def
  proof (rule keeps_into [where J = "mineK E view N v p"])
    fix s r s'
    assume "mine E view N v p s" and "onAkv (setKvSecret (emptyKvSecret\<lparr>sName := KVSecretName cert\<rparr>)) s = (r, s')"
    with assms(2) show "case r of Done a \<Rightarrow> mineK E view N v p s' | Panicked q \<Rightarrow> mine E view N v p s'"
      by (auto simp: run_onAkv run_setKvSecret run_nilDeref mineK_def mine_def cgood_def holdsSpec_def named_def vaultName_def
          split: option.splits)
  next
    show "keeps (mineK E view N v p) (if RefType cert = ''crt''
        then deleteAndPurge DeleteSecretFromKeyVault (PurgeDeletedSecretFromKeyVault (env_kube E))
        else if RefType cert = ''pem''
        then deleteAndPurge DeleteCertificateFromKeyVault (PurgeDeletedCertificateFromKeyVault (env_kube E))
        else ret None)" for a :: unit
      by (intro go_keeps rest keeps_kvmine_ops assms(1))
  qed (simp add: mineK_def)
qed

lemma keeps_mine_deletion:
  assumes "vault_isolated E view" and "vaultName ` set refs \<subseteq> N"
  shows "keeps (mine E view N v p) (DeleteSecrets E (Some refs))"
proof -
  have "keeps (mine E view N v p) (collectErrors refs (deleteRef E))"
    using assms(2)
    by (induction refs) (auto intro!: go_keeps keeps_mine_deleteRef assms(1))
  then show ?thesis by (simp add: DeleteSecrets_def) (intro go_keeps)
qed

lemma keeps_mine_finalizers:
  assumes "vault_isolated E view"
  shows "keeps (mine E view N v p) (RemoveFinalizers (env_kube E) TExportCertificateSecret)"
  unfolding RemoveFinalizers_def removeItemE_def kListExports_def kUpdateExport_def
  by simp (intro go_keeps mf.keeps_request vault_isolatedD [OF assms])

interpretation framed: reconcile_invariant E req p "\<lambda>s. vault_isolated E view \<longrightarrow> mine E view (namesOf p) v p s" for E req view p v
  by unfold_locales
    (auto simp: keeps_under intro!: keeps_at_spec [OF mine_holds] keeps_mine_fields keeps_mine_requests keeps_mine_addFinalizer
      keeps_mine_finalizers keeps_mine_vault keeps_mine_deletion keeps_status_spec mf.keeps_kube dest: vault_isolatedD(2,8))

lemma preChecks_finds:
  assumes "preChecks E req s = (Done None, s1)" and "crd_installed (env_kube E)"
  shows "\<exists>x w. fst (get_export (env_kube E) req w) = Inr x \<and> ExportObj s1 = Some x"
  using assms
  by (cases "fst (get_crd (env_kube E) EXPORT_CERT_SECRET_CRD (world s))")
    (auto simp: crd_installed_def preChecks_def kGetCRD_def kGetExport_def run_andThen run_setExport run_call run_ret
      split: sum.splits if_splits)

text \<open>
  A whole reconciliation of the key of a resource with the spec \<open>p\<close>, being deleted or not. The CRD
  is installed; where it is not, the reconciler works on the resource of the reconciliation before.
\<close>

lemma Reconcile_frame:
  assumes iso: "vault_isolated E view" and crd: "crd_installed (env_kube E)"
    and get: "\<forall>w x. fst (get_export (env_kube E) req w) = Inr x \<longrightarrow> eAzureKV x = p"
    and own: "own_client E s" and run: "Reconcile E req s = (r, s')"
  shows "outside view (namesOf p) (world s') = outside view (namesOf p) (world s) \<and> own_client E s'"
proof -
  let ?K = "env_kube E" and ?N = "namesOf p"
  let ?v = "outside view ?N (world s)"
  let ?I = "cgood E (outside view ?N) ?v"
  have start: "?I s" using own by (simp add: cgood_def own_client_def)
  have pre: "keeps ?I (preChecks E req)"
    unfolding preChecks_def by (intro go_keeps keeps_cgood_fields cgf.keeps_kube vault_isolatedD(8) [OF iso])
  have "?I s'"
  proof (cases "\<exists>s1. preChecks E req s = (Done None, s1)")
    case False
    then obtain r1 s1 where p1: "preChecks E req s = (r1, s1)" "r1 \<noteq> Done None" by (metis prod.collapse)
    from keepsD [OF pre start p1(1)] run p1 show ?thesis
      by (auto simp: Reconcile_def run_andThen [of "preChecks E req"] ret_def split: outcome.splits option.splits)
  next
    case True
    then obtain s1 where p1: "preChecks E req s = (Done None, s1)" by blast
    from preChecks_finds [OF p1 crd] obtain x w where x: "fst (get_export ?K req w) = Inr x" and obj: "ExportObj s1 = Some x" by blast
    have s1: "mine E view ?N ?v p s1"
      using keepsD [OF pre start p1] obj x get by (simp add: mine_def holdsSpec_def)
    have rest: "afterChecks E req s1 = (r, s')"
      using run by (simp add: Reconcile_afterChecks andThen_Done [where m = "preChecks E req" and s = s, OF p1])
    have "keeps (mine E view ?N ?v p) (afterChecks E req)"
      using framed.keeps_afterChecks [of E view p ?v req] iso by (simp add: keeps_under)
    from keepsD [OF this s1 rest] show ?thesis by (simp add: mine_def)
  qed
  then show ?thesis by (auto simp: cgood_def own_client_def)
qed

section \<open>Property\<close>

text \<open>
  C5. However a reconciliation ends, by a result, an error or a panic, and whether its resource is
  being deleted or not, it has changed no secret of any vault under a name that the resource's
  references do not use. The names of the resource are touched in whatever vault the reconciler
  has a client for; that is why the names and not the vaults have to be kept apart.
\<close>

theorem reconcile_changes_own_names:
  assumes "vault_isolated E view" and "crd_installed (env_kube E)"
    and "\<forall>w x. fst (get_export (env_kube E) req w) = Inr x \<longrightarrow> eAzureKV x = p"
    and "own_client E s" and "Reconcile E req s = (r, s')" and "snd key \<notin> vaultName ` set (eCertificateSecretRef p)"
  shows "view (world s') key = view (world s) key"
  by (rule outsideD [OF Reconcile_frame [OF assms(1-5), THEN conjunct1] assms(6)])

lemma memHttp_writes_own: "writes_own (NewAzureKeyVaultClient memHttp token) (\<lambda>w. w)"
  by (auto simp: writes_own_def sdkSetSecret_def sdkImportCertificate_def sdkDeleteSecret_def sdkDeleteCertificate_def sdkPlain_def
      sdkPurgeDeletedSecret_def sdkPurgeDeletedCertificate_def sdkPurge_def sdkGetSecret_def sdkCall_def memHttp_def answer_def
      split: option.split)

lemma flowEnv_isolated: "vault_isolated flowEnv (\<lambda>w. w)"
  using memHttp_writes_own flowEnv_laws(1,3)
  by (simp add: vault_isolated_def)
    (simp add: flowEnv_def vaultEnv_def offlineKube_def exampleMsal_def)

text \<open>A neighbour's secret is still there after a reconciliation that has written its own.\<close>

theorem reconcile_changes_own_names_witness:
  "world (snd (Reconcile flowEnv \<lparr>nn_Namespace = ''prod'', nn_Name = ''web''\<rparr>
     (NewExportCertificateSecretReconciler [(''v'', ''other'') \<mapsto> ''theirs'']))) (''v'', ''other'') = Some ''theirs''"
proof -
  let ?req = "\<lparr>nn_Namespace = ''prod'', nn_Name = ''web''\<rparr>" and ?w = "[(''v'', ''other'') \<mapsto> ''theirs''] :: vault_view"
  let ?s = "NewExportCertificateSecretReconciler ?w" and ?p = "eAzureKV (exampleExport [caseRef ''tls.crt'' ''Web''])"
  obtain r s' where run: "Reconcile flowEnv ?req ?s = (r, s')" by fastforce
  have env: "crd_installed (env_kube flowEnv)"
    "\<forall>w x. fst (get_export (env_kube flowEnv) ?req w) = Inr x \<longrightarrow> eAzureKV x = ?p"
    by (simp_all add: crd_installed_def flowEnv_def)
  have own: "own_client flowEnv ?s" by (simp add: own_client_def NewExportCertificateSecretReconciler_def)
  have "snd (''v'', ''other'') \<notin> vaultName ` set (eCertificateSecretRef ?p)"
    by (simp add: vaultName_def ToLower_Web)
  from reconcile_changes_own_names [OF flowEnv_isolated env own run this] run
  show ?thesis by (simp add: NewExportCertificateSecretReconciler_def)
qed

end
