(* ===== verification/Export_System.thy ===== *)
theory Export_System
  imports Export_Frame Export_Setup
begin

text \<open>
  The export controller at work: users change resources and secrets, the watches of
  \<open>export/setup.go\<close> turn the changes into requests, and the manager runs a reconciliation for
  each request until it neither fails nor asks for another run.
\<close>

section \<open>From events to requests\<close>

text \<open>\<open>For\<close> with its predicate: a request for the resource itself.\<close>

definition exportRequests :: "ExportCertificateSecret option \<Rightarrow> ExportCertificateSecret \<Rightarrow> NamespacedName list" where
  "exportRequests old x =
     (if (case old of None \<Rightarrow> exportCreateFunc (WExport x) | Some prev \<Rightarrow> exportUpdateFunc (WExport prev) (WExport x))
      then [exportKey x] else [])"

text \<open>\<open>Watches\<close>: the predicate, then the mapping, of both objects of an update.\<close>

definition secretRequests :: "'w kube \<Rightarrow> K8sSecret option \<Rightarrow> K8sSecret \<Rightarrow> (('w, 'z) st_scheme, NamespacedName list) go" where
  "secretRequests K old x =
     (case old of
        None \<Rightarrow> andThen (secretCreateFunc K (WSecret x)) (\<lambda>pass. if pass then secretMapFunc K (WSecret x) else ret [])
      | Some prev \<Rightarrow> andThen (secretUpdateFunc K (WSecret prev) (WSecret x)) (\<lambda>pass.
          if pass then andThen (secretMapFunc K (WSecret prev)) (\<lambda>reqs.
            andThen (secretMapFunc K (WSecret x)) (\<lambda>reqs'. ret (reqs @ reqs')))
          else ret []))"

section \<open>The cluster\<close>

text \<open>What users have stored: the resources (as they last wrote them) and the secrets.\<close>

record cluster =
  clusterExports :: "ExportCertificateSecret list"
  clusterSecrets :: "K8sSecret list"

definition exportAt :: "cluster \<Rightarrow> NamespacedName \<Rightarrow> ExportCertificateSecret option" where
  "exportAt c k = List.find (\<lambda>x. exportKey x = k) (clusterExports c)"

definition secretAt :: "cluster \<Rightarrow> NamespacedName \<Rightarrow> K8sSecret option" where
  "secretAt c k = List.find (\<lambda>x. metaKey (secMeta x) = k) (clusterSecrets c)"

definition dropExport :: "NamespacedName \<Rightarrow> cluster \<Rightarrow> cluster" where
  "dropExport k c = c\<lparr>clusterExports := filter (\<lambda>y. exportKey y \<noteq> k) (clusterExports c)\<rparr>"

definition putExport :: "ExportCertificateSecret \<Rightarrow> cluster \<Rightarrow> cluster" where
  "putExport x c = c\<lparr>clusterExports := x # clusterExports (dropExport (exportKey x) c)\<rparr>"

definition dropSecret :: "NamespacedName \<Rightarrow> cluster \<Rightarrow> cluster" where
  "dropSecret k c = c\<lparr>clusterSecrets := filter (\<lambda>y. metaKey (secMeta y) \<noteq> k) (clusterSecrets c)\<rparr>"

definition putSecret :: "K8sSecret \<Rightarrow> cluster \<Rightarrow> cluster" where
  "putSecret x c = c\<lparr>clusterSecrets := x # clusterSecrets (dropSecret (metaKey (secMeta x)) c)\<rparr>"

definition secretData :: "cluster \<Rightarrow> NamespacedName \<Rightarrow> (string \<rightharpoonup> bytes)" where
  "secretData c k = (case secretAt c k of None \<Rightarrow> Map.empty | Some x \<Rightarrow> map_of (mapData (Data x)))"

lemma find_filter: "List.find P (filter Q xs) = List.find (\<lambda>x. Q x \<and> P x) xs"
  by (induction xs) auto

lemma find_none: "List.find (\<lambda>x. f x \<noteq> k \<and> f x = k) xs = None"
  by (induction xs) auto

lemma find_False: "List.find (\<lambda>x. False) xs = None"
  by (induction xs) auto

lemma find_other: "k' \<noteq> k \<Longrightarrow> List.find (\<lambda>x. f x \<noteq> k \<and> f x = k') xs = List.find (\<lambda>x. f x = k') xs"
  by (induction xs) auto

lemma exportAt_drop: "exportAt (dropExport k c) k' = (if k' = k then None else exportAt c k')"
  by (simp add: exportAt_def dropExport_def find_filter find_none find_False find_other)

lemma exportAt_put: "exportAt (putExport x c) k = (if k = exportKey x then Some x else exportAt c k)"
  using exportAt_drop [of "exportKey x" c k] by (auto simp: exportAt_def putExport_def)

lemma secretAt_drop: "secretAt (dropSecret k c) k' = (if k' = k then None else secretAt c k')"
  by (simp add: secretAt_def dropSecret_def find_filter find_none find_False find_other)

lemma secretAt_put: "secretAt (putSecret x c) k = (if k = metaKey (secMeta x) then Some x else secretAt c k)"
  using secretAt_drop [of "metaKey (secMeta x)" c k] by (auto simp: secretAt_def putSecret_def)

lemma exportAt_secrets [simp]: "exportAt (putSecret x c) = exportAt c" "exportAt (dropSecret k c) = exportAt c"
  by (auto simp: fun_eq_iff exportAt_def putSecret_def dropSecret_def)

lemma secretData_exports [simp]: "secretData (putExport x c) = secretData c" "secretData (dropExport k c) = secretData c"
  by (auto simp: fun_eq_iff secretData_def secretAt_def putExport_def dropExport_def)

lemma exportAt_key: "exportAt c k = Some x \<Longrightarrow> exportKey x = k \<and> x \<in> set (clusterExports c)"
  by (auto simp: exportAt_def find_Some_iff)

lemma namespace_of_key: "nn_Namespace (exportKey x) = Namespace (eMeta x)"
  by (simp add: exportKey_def metaKey_def)

text \<open>No two references of the cluster's resources use one name, in whatever vaults.\<close>

definition separate :: "cluster \<Rightarrow> bool" where
  "separate c \<longleftrightarrow> distinct (concat (map (\<lambda>x. map vaultName (eCertificateSecretRef (eAzureKV x))) (clusterExports c)))"

definition usedNames :: "cluster \<Rightarrow> string set" where
  "usedNames c = (\<Union>x \<in> set (clusterExports c). namesOf (eAzureKV x))"

lemma concat_apart:
  "distinct (concat (map f xs)) \<Longrightarrow> x \<in> set xs \<Longrightarrow> y \<in> set xs \<Longrightarrow> x \<noteq> y \<Longrightarrow> set (f x) \<inter> set (f y) = {}"
  by (induction xs) auto

lemma separateD:
  assumes "separate c" and "exportAt c k = Some x"
  shows "distinct (map vaultName (eCertificateSecretRef (eAzureKV x)))"
    and "exportAt c k' = Some y \<Longrightarrow> k' \<noteq> k \<Longrightarrow> namesOf (eAzureKV x) \<inter> namesOf (eAzureKV y) = {}"
proof -
  note x = exportAt_key [OF assms(2)]
  then show "distinct (map vaultName (eCertificateSecretRef (eAzureKV x)))"
    using assms(1) by (auto simp: separate_def distinct_concat_iff)
  assume "exportAt c k' = Some y" and "k' \<noteq> k"
  with exportAt_key [OF this(1)] x have "y \<in> set (clusterExports c)" and "x \<noteq> y" by auto
  with concat_apart [OF assms(1) [unfolded separate_def], of x y] x
  show "namesOf (eAzureKV x) \<inter> namesOf (eAzureKV y) = {}" by simp
qed

section \<open>The surroundings\<close>

text \<open>
  The API server serves the cluster as it stands: \<open>KC c\<close> are its answers when the cluster is \<open>c\<close>.
  A read returns an object with the stored spec and deletion mark and a retry count that is not
  negative; the lists come from the manager's cache, so they do not fail, and hold at least the
  stored resources of the namespace; the CRD is installed.
\<close>

definition serves_cluster :: "(cluster \<Rightarrow> 'w kube) \<Rightarrow> bool" where
  "serves_cluster KC \<longleftrightarrow> (\<forall>c.
     crd_installed (KC c)
   \<and> (\<forall>k w x. fst (get_export (KC c) k w) = Inr x \<longrightarrow> (\<exists>y. exportAt c k = Some y \<and> eAzureKV x = eAzureKV y
        \<and> (DeletionTimestamp (eMeta x) = None \<longleftrightarrow> DeletionTimestamp (eMeta y) = None) \<and> 0 \<le>s GetRetryCount x))
   \<and> (\<forall>ns w. \<exists>items. fst (list_exports (KC c) ns w) = Inr items \<and> (\<forall>x \<in> set (clusterExports c).
        Namespace (eMeta x) = ns \<longrightarrow> (\<exists>y \<in> set items. exportKey y = exportKey x \<and> eAzureKV y = eAzureKV x))))"

definition envOf :: "'w env \<Rightarrow> (cluster \<Rightarrow> 'w kube) \<Rightarrow> cluster \<Rightarrow> 'w env" where
  "envOf E KC c = E\<lparr>env_kube := KC c\<rparr>"

definition export_laws :: "'w env \<Rightarrow> (cluster \<Rightarrow> 'w kube) \<Rightarrow> ('w \<Rightarrow> vault_view) \<Rightarrow> bool" where
  "export_laws E KC view \<longleftrightarrow> serves_cluster KC \<and> (\<forall>c. cluster_secrets (envOf E KC c) (secretData c) view
     \<and> vault_isolated (envOf E KC c) view \<and> vault_clients (envOf E KC c) view)"

lemma export_lawsD:
  assumes "export_laws E KC view"
  shows "cluster_secrets (envOf E KC c) (secretData c) view" "vault_isolated (envOf E KC c) view" "vault_clients (envOf E KC c) view"
    "vault_apart (envOf E KC c) view" "returns_spec (env_kube (envOf E KC c))"
    "crd_installed (env_kube (envOf E KC c))"
    "fst (get_export (env_kube (envOf E KC c)) k w) = Inr x \<Longrightarrow> \<exists>y. exportAt c k = Some y \<and> eAzureKV x = eAzureKV y
        \<and> (DeletionTimestamp (eMeta x) = None \<longleftrightarrow> DeletionTimestamp (eMeta y) = None) \<and> 0 \<le>s GetRetryCount x"
    "\<exists>items. fst (list_exports (KC c) ns w) = Inr items \<and> (\<forall>x \<in> set (clusterExports c).
        Namespace (eMeta x) = ns \<longrightarrow> (\<exists>y \<in> set items. exportKey y = exportKey x \<and> eAzureKV y = eAzureKV x))"
    "view (snd (list_exports (KC c) ns w)) = view w"
  using assms by (simp_all add: export_laws_def serves_cluster_def vault_isolated_def envOf_def)

section \<open>The operator\<close>

record 'w operator =
  cluster :: cluster
  reconciler :: "'w est"
  queue :: "NamespacedName set"

text \<open>
  One step. Users write and remove resources and secrets (a deletion is not taken back, no two
  references use one name, a secret that is being deleted keeps its data); others may change
  whatever they like except secrets of the vaults under the names in use. The manager runs one
  reconciliation at a time, and forgets a request when it has returned neither an error nor a
  delay; a panic counts as an error. After a restart of the program, possibly forced by a panic,
  every resource is announced as new.
\<close>

inductive operator_step :: "'w env \<Rightarrow> (cluster \<Rightarrow> 'w kube) \<Rightarrow> ('w \<Rightarrow> vault_view) \<Rightarrow> 'w operator \<Rightarrow> 'w operator \<Rightarrow> bool"
  for E :: "'w env" and KC :: "cluster \<Rightarrow> 'w kube" and view :: "'w \<Rightarrow> vault_view" where
  exportWritten: "operator_step E KC view s (s\<lparr>cluster := putExport x (cluster s),
      queue := queue s \<union> set (exportRequests (exportAt (cluster s) (exportKey x)) x)\<rparr>)"
    if "separate (putExport x (cluster s))"
      and "\<And>prev. exportAt (cluster s) (exportKey x) = Some prev \<Longrightarrow> DeletionTimestamp (eMeta prev) \<noteq> None \<Longrightarrow>
        DeletionTimestamp (eMeta x) \<noteq> None"
| exportGone: "operator_step E KC view s (s\<lparr>cluster := dropExport k (cluster s)\<rparr>)"
| secretWritten: "operator_step E KC view s (s\<lparr>cluster := putSecret x (cluster s), reconciler := r, queue := queue s \<union> set reqs\<rparr>)"
    if "DeletionTimestamp (secMeta x) = None \<or>
        (\<exists>prev. secretAt (cluster s) (metaKey (secMeta x)) = Some prev \<and> sameMap (Data prev) (Data x))"
      and "secretRequests (KC (putSecret x (cluster s))) (secretAt (cluster s) (metaKey (secMeta x))) x (reconciler s) = (Done reqs, r)"
| secretGone: "operator_step E KC view s (s\<lparr>cluster := dropSecret k (cluster s)\<rparr>)"
| elsewhere: "operator_step E KC view s (s\<lparr>reconciler := (reconciler s)\<lparr>world := w\<rparr>\<rparr>)"
    if "\<And>key. snd key \<in> usedNames (cluster s) \<Longrightarrow> view w key = view (world (reconciler s)) key"
| requested: "operator_step E KC view s (s\<lparr>queue := insert k (queue s)\<rparr>)"
| reconciled: "operator_step E KC view s (s\<lparr>reconciler := r, queue := (if askedAgain out then queue s else queue s - {k})\<rparr>)"
    if "k \<in> queue s" and "Reconcile (envOf E KC (cluster s)) k (reconciler s) = (Done out, r)"
| panicked: "operator_step E KC view s (s\<lparr>reconciler := r\<rparr>)"
    if "k \<in> queue s" and "Reconcile (envOf E KC (cluster s)) k (reconciler s) = (Panicked p, r)"
| restarted: "operator_step E KC view s (s\<lparr>reconciler := NewExportCertificateSecretReconciler (world (reconciler s)),
      queue := (\<Union>x \<in> set (clusterExports (cluster s)). set (exportRequests None x))\<rparr>)"

text \<open>The program as it starts.\<close>

definition started :: "cluster \<Rightarrow> 'w \<Rightarrow> 'w operator" where
  "started c w = \<lparr>cluster = c, reconciler = NewExportCertificateSecretReconciler w,
     queue = (\<Union>x \<in> set (clusterExports c). set (exportRequests None x))\<rparr>"

section \<open>The invariant\<close>

text \<open>The vault has everything that the cluster has for a resource.\<close>

definition upToDate :: "cluster \<Rightarrow> vault_view \<Rightarrow> NamespacedName \<Rightarrow> ExportAzureKVProvider \<Rightarrow> bool" where
  "upToDate c v k p \<longleftrightarrow> (\<forall>ref \<in> set (eCertificateSecretRef p). RefType ref = ''crt'' \<longrightarrow>
     (\<forall>d. secretData c (secretKeyOf (nn_Namespace k) ref) (SecretKey ref) = Some d \<longrightarrow>
       (\<exists>b. v (eVaultUrl p, vaultName ref) = Some b \<and> standsFor b (target ref d))))"

lemma upToDate_cong:
  assumes "upToDate c v k p"
    and "\<And>ref. ref \<in> set (eCertificateSecretRef p) \<Longrightarrow> secretData c' (secretKeyOf (nn_Namespace k) ref) = secretData c (secretKeyOf (nn_Namespace k) ref)
      \<or> secretData c' (secretKeyOf (nn_Namespace k) ref) = Map.empty"
    and "\<And>key. snd key \<in> namesOf p \<Longrightarrow> v' key = v key"
  shows "upToDate c' v' k p"
  unfolding upToDate_def
proof (intro ballI allI impI)
  fix ref d
  assume ref: "ref \<in> set (eCertificateSecretRef p)" "RefType ref = ''crt''"
    and d: "secretData c' (secretKeyOf (nn_Namespace k) ref) (SecretKey ref) = Some d"
  have "v' (eVaultUrl p, vaultName ref) = v (eVaultUrl p, vaultName ref)" using ref(1) by (intro assms(3)) simp
  moreover have "secretData c (secretKeyOf (nn_Namespace k) ref) (SecretKey ref) = Some d" using assms(2) [OF ref(1)] d by auto
  ultimately show "\<exists>b. v' (eVaultUrl p, vaultName ref) = Some b \<and> standsFor b (target ref d)"
    using assms(1) ref by (auto simp: upToDate_def)
qed

lemma delivered_upToDate:
  assumes "delivered (secretData c) (nn_Namespace k) v v' p"
  shows "upToDate c v' k p"
  unfolding upToDate_def
proof (intro ballI impI allI)
  fix ref d
  assume "ref \<in> set (eCertificateSecretRef p)" and "RefType ref = ''crt''"
    and "secretData c (secretKeyOf (nn_Namespace k) ref) (SecretKey ref) = Some d"
  moreover from this assms have "copied (secretData c) (nn_Namespace k) (eVaultUrl p) v v' ref" by (simp add: delivered_def)
  ultimately show "\<exists>b. v' (eVaultUrl p, vaultName ref) = Some b \<and> standsFor b (target ref d)" using copiedD by fastforce
qed

definition waiting :: "('w \<Rightarrow> vault_view) \<Rightarrow> 'w operator \<Rightarrow> NamespacedName \<Rightarrow> bool" where
  "waiting view s k \<longleftrightarrow> (\<forall>x. exportAt (cluster s) k = Some x \<longrightarrow> DeletionTimestamp (eMeta x) = None \<longrightarrow>
     k \<in> queue s \<or> upToDate (cluster s) (view (world (reconciler s))) k (eAzureKV x))"

definition good :: "'w env \<Rightarrow> ('w \<Rightarrow> vault_view) \<Rightarrow> 'w operator \<Rightarrow> bool" where
  "good E view s \<longleftrightarrow> own_client E (reconciler s) \<and> separate (cluster s) \<and> (\<forall>k. waiting view s k)"

lemma own_client_envOf [simp]: "own_client (envOf E KC c) s = own_client E s"
  by (simp add: own_client_def envOf_def)

lemma separate_dropExport: "separate c \<Longrightarrow> separate (dropExport k c)"
proof -
  have "distinct (concat (map f xs)) \<Longrightarrow> distinct (concat (map f (filter P xs)))" for f :: "'a \<Rightarrow> 'b list" and P xs
    by (induction xs) auto
  then show "separate c \<Longrightarrow> separate (dropExport k c)" by (simp add: separate_def dropExport_def)
qed

lemma separate_secrets [simp]: "separate (putSecret x c) = separate c" "separate (dropSecret k c) = separate c"
  by (simp_all add: separate_def putSecret_def dropSecret_def)

lemma all_requested: "exportAt c k = Some x \<Longrightarrow> k \<in> (\<Union>x \<in> set (clusterExports c). set (exportRequests None x))"
  by (auto simp: exportRequests_def exportCreateFunc_def dest: exportAt_key)

subsection \<open>A change of a secret\<close>

text \<open>The handlers leave the vaults and the reconciler's client alone.\<close>

lemma keeps_secretRequests:
  assumes "\<And>ns w. V (snd (list_exports K ns w)) = V w"
  shows "keeps (cgood E V v) (secretRequests K old x)"
  unfolding secretRequests_def secretCreateFunc_def secretUpdateFunc_def secretMapFunc_def shouldReconcileSecret_def kListExports_def
  by (auto intro!: go_keeps cgf.keeps_request assms split: option.split)

text \<open>Both filters let through a secret to which a stored resource refers.\<close>

lemma handlers_find:
  assumes laws: "export_laws E KC view" and y: "exportAt c k = Some y"
    and ref: "metaKey (secMeta x) = secretKeyOf (nn_Namespace k) ref" "ref \<in> set (eCertificateSecretRef (eAzureKV y))"
  obtains s1 s2 reqs where "shouldReconcileSecret (KC c) (WSecret x) s = (Done True, s1)"
    and "secretMapFunc (KC c) (WSecret x) s = (Done reqs, s2)" and "k \<in> set reqs"
proof -
  have ns: "Namespace (eMeta y) = Namespace (secMeta x)" "Name (secMeta x) \<in> SecretName ` set (eCertificateSecretRef (eAzureKV y))"
    and y': "y \<in> set (clusterExports c)" "exportKey y = k"
    using ref exportAt_key [OF y] by (auto simp: metaKey_def secretKeyOf_def exportKey_def)
  from export_lawsD(8) [OF laws, where c = c and ns = "Namespace (secMeta x)" and w = "world s"] obtain items
    where items: "fst (list_exports (KC c) (Namespace (secMeta x)) (world s)) = Inr items"
      and "\<forall>x' \<in> set (clusterExports c). Namespace (eMeta x') = Namespace (secMeta x) \<longrightarrow>
        (\<exists>y \<in> set items. exportKey y = exportKey x' \<and> eAzureKV y = eAzureKV x')" by blast
  with ns(1) y' obtain z where z: "z \<in> set items" "exportKey z = k" "eAzureKV z = eAzureKV y" by metis
  then have "Name (secMeta x) \<in> SecretName ` set (eCertificateSecretRef (eAzureKV z))" using ns(2) by simp
  with z(1,2) have "anyExportReferences items (Name (secMeta x))" "k \<in> set (requestsFor (Name (secMeta x)) items)"
    unfolding anyExportReferences_iff requestsFor_eq references_iff by auto
  then show thesis
    by (intro that) (simp_all add: shouldReconcileSecret_def secretMapFunc_def kListExports_def go_run items)
qed

lemma secretRequests_complete:
  assumes laws: "export_laws E KC view" and y: "exportAt c k = Some y"
    and ref: "metaKey (secMeta x) = secretKeyOf (nn_Namespace k) ref" "ref \<in> set (eCertificateSecretRef (eAzureKV y))"
    and del: "DeletionTimestamp (secMeta x) = None"
    and old: "\<And>prev. old = Some prev \<Longrightarrow> metaKey (secMeta prev) = metaKey (secMeta x) \<and> \<not> sameMap (Data prev) (Data x)"
    and run: "secretRequests (KC c) old x s = (Done reqs, r)"
  shows "k \<in> set reqs"
proof -
  note found = handlers_find [OF laws y ref]
  obtain s1 where s1: "shouldReconcileSecret (KC c) (WSecret x) s = (Done True, s1)" by (rule found)
  show ?thesis
  proof (cases old)
    case None
    obtain s2 reqs' where "secretMapFunc (KC c) (WSecret x) s1 = (Done reqs', s2)" "k \<in> set reqs'" by (rule found)
    with run None s1 show ?thesis
      by (simp add: secretRequests_def secretCreateFunc_def run_andThen s1)
  next
    case (Some prev)
    have "metaKey (secMeta prev) = secretKeyOf (nn_Namespace k) ref" using old [OF Some] ref(1) by simp
    from handlers_find [OF laws y this ref(2)] obtain s2 reqs1 where
      m1: "secretMapFunc (KC c) (WSecret prev) s1 = (Done reqs1, s2)" and k: "k \<in> set reqs1" by metis
    obtain s3 reqs2 where m2: "secretMapFunc (KC c) (WSecret x) s2 = (Done reqs2, s3)" by (rule found)
    have "secretUpdateFunc (KC c) (WSecret prev) (WSecret x) s = (Done True, s1)"
      using del old [OF Some] s1 by (simp add: secretUpdateFunc_def)
    with run Some m1 m2 have "reqs = reqs1 @ reqs2"
      by (simp add: secretRequests_def andThen_Done run_ret)
    with k show ?thesis by simp
  qed
qed

subsection \<open>A reconciliation\<close>

lemma Reconcile_found:
  assumes run: "Reconcile E req s = (Done out, s')" and not: "\<not> askedAgain out"
    and crd: "crd_installed (env_kube E)"
  shows "\<exists>c x. fst (get_crd (env_kube E) EXPORT_CERT_SECRET_CRD (world s)) = Inr c
    \<and> fst (get_export (env_kube E) req (snd (get_crd (env_kube E) EXPORT_CERT_SECRET_CRD (world s)))) = Inr x"
proof -
  have fails: False if "preChecks E req s = (Done (Some e), s1)" for e s1
    using run not that by (auto simp: Reconcile_def run_andThen [of "preChecks E req"] run_ret askedAgain_def)
  show ?thesis
  proof (cases "fst (get_crd (env_kube E) EXPORT_CERT_SECRET_CRD (world s))")
    case (Inl e)
    with crd have "\<not> IsNotFound e" by (auto simp: crd_installed_def)
    with fails Inl show ?thesis by (simp add: preChecks_def kGetCRD_def go_run)
  next
    case (Inr c)
    then show ?thesis
      using fails
      by (cases "fst (get_export (env_kube E) req (snd (get_crd (env_kube E) EXPORT_CERT_SECRET_CRD (world s))))")
        (auto simp: preChecks_def kGetCRD_def kGetExport_def go_run)
  qed
qed

text \<open>A reconciliation leaves every other resource alone.\<close>

lemma Reconcile_others:
  assumes laws: "export_laws E KC view" and own: "own_client E s" and sep: "separate c"
    and run: "Reconcile (envOf E KC c) k s = (r, s')"
  shows "own_client E s'"
    and "exportAt c k' = Some x \<Longrightarrow> k' \<noteq> k \<Longrightarrow> snd key \<in> namesOf (eAzureKV x) \<Longrightarrow> view (world s') key = view (world s) key"
proof -
  define p where "p = (case exportAt c k of None \<Rightarrow> eAzureKV emptyExport | Some y \<Rightarrow> eAzureKV y)"
  have get: "\<forall>w y. fst (get_export (env_kube (envOf E KC c)) k w) = Inr y \<longrightarrow> eAzureKV y = p"
    by (auto simp: p_def dest: export_lawsD(7) [OF laws])
  have own': "own_client (envOf E KC c) s" using own by simp
  note frame = Reconcile_frame [OF export_lawsD(2) [OF laws] export_lawsD(6) [OF laws] get own' run]
  then show "own_client E s'" by simp
  assume x: "exportAt c k' = Some x" "k' \<noteq> k" and key: "snd key \<in> namesOf (eAzureKV x)"
  have "namesOf (eAzureKV x) \<inter> namesOf p = {}"
  proof (cases "exportAt c k")
    case None
    then show ?thesis by (simp add: p_def emptyExport_def)
  next
    case (Some y)
    with separateD(2) [OF sep x(1) Some] x(2) show ?thesis by (simp add: p_def)
  qed
  with key have "snd key \<notin> namesOf p" by blast
  then show "view (world s') key = view (world s) key"
    using frame outsideD [of view "namesOf p" "world s'" "world s" key] by simp
qed

lemma Reconcile_others_waiting:
  assumes laws: "export_laws E KC view" and good: "good E view s" and run: "Reconcile (envOf E KC (cluster s)) k (reconciler s) = (out, r)"
    and k': "exportAt (cluster s) k' = Some x" "k' \<noteq> k" "DeletionTimestamp (eMeta x) = None"
  shows "k' \<in> queue s \<or> upToDate (cluster s) (view (world r)) k' (eAzureKV x)"
proof -
  have own: "own_client E (reconciler s)" and sep: "separate (cluster s)" and "waiting view s k'" using good by (simp_all add: good_def)
  then have "k' \<in> queue s \<or> upToDate (cluster s) (view (world (reconciler s))) k' (eAzureKV x)" using k' by (simp add: waiting_def)
  then show ?thesis
    using upToDate_cong [where c = "cluster s" and c' = "cluster s"] Reconcile_others(2) [OF laws own sep run k'(1,2)] by blast
qed

lemma Reconcile_waiting:
  assumes laws: "export_laws E KC view" and own: "own_client E r" and sep: "separate c"
    and run: "Reconcile (envOf E KC c) k r = (Done out, r')" and not: "\<not> askedAgain out"
    and x: "exportAt c k = Some x" "DeletionTimestamp (eMeta x) = None"
  shows "upToDate c (view (world r')) k (eAzureKV x)"
proof -
  let ?E = "envOf E KC c"
  obtain crd y where crd: "fst (get_crd (env_kube ?E) EXPORT_CERT_SECRET_CRD (world r)) = Inr crd"
    and y: "fst (get_export (env_kube ?E) k (snd (get_crd (env_kube ?E) EXPORT_CERT_SECRET_CRD (world r)))) = Inr y"
    using Reconcile_found [OF run not export_lawsD(6) [OF laws]] by blast
  from export_lawsD(7) [OF laws y] x have y': "eAzureKV y = eAzureKV x" "DeletionTimestamp (eMeta y) = None" "0 \<le>s GetRetryCount y"
    by auto
  then have found: "finds ?E k (world r) y" using crd y by (simp add: finds_def)
  have "distinct (map vaultName (eCertificateSecretRef (eAzureKV y)))" using separateD(1) [OF sep x(1)] y'(1) by simp
  from delivered_upToDate [OF Reconcile_delivered [OF found y'(3) export_lawsD(5,1,4,3) [OF laws] this run not]]
  show ?thesis by (simp add: y'(1))
qed

subsection \<open>The steps\<close>

lemma secretData_same:
  assumes "secretAt c (metaKey (secMeta x)) = Some prev" and "sameMap (Data prev) (Data x)"
  shows "secretData (putSecret x c) = secretData c"
proof -
  have "map_of (mapData (Data prev)) = map_of (mapData (Data x))"
    using assms(2) by (cases "Data prev"; cases "Data x") (auto simp: sameMap_iff mapData_def, auto simp: sameMap_def)
  then show ?thesis using assms(1) by (auto simp: fun_eq_iff secretData_def secretAt_put)
qed

lemma secretWritten_waiting:
  assumes laws: "export_laws E KC view" and wait: "waiting view s k"
    and kept: "DeletionTimestamp (secMeta x) = None \<or>
      (\<exists>prev. secretAt (cluster s) (metaKey (secMeta x)) = Some prev \<and> sameMap (Data prev) (Data x))"
    and run: "secretRequests (KC (putSecret x (cluster s))) (secretAt (cluster s) (metaKey (secMeta x))) x (reconciler s) = (Done reqs, r)"
    and v: "view (world r) = view (world (reconciler s))"
  shows "waiting view (s\<lparr>cluster := putSecret x (cluster s), reconciler := r, queue := queue s \<union> set reqs\<rparr>) k"
  unfolding waiting_def
proof (intro allI impI)
  fix y
  let ?c = "putSecret x (cluster s)" and ?s = "s\<lparr>cluster := putSecret x (cluster s), reconciler := r, queue := queue s \<union> set reqs\<rparr>"
  let ?old = "secretAt (cluster s) (metaKey (secMeta x))"
  assume y: "exportAt (cluster ?s) k = Some y" and live: "DeletionTimestamp (eMeta y) = None"
  then have before: "k \<in> queue s \<or> upToDate (cluster s) (view (world (reconciler s))) k (eAzureKV y)"
    using wait by (simp add: waiting_def)
  have goal: "k \<in> queue ?s \<or> upToDate (cluster ?s) (view (world (reconciler ?s))) k (eAzureKV y)"
    if "\<And>ref. ref \<in> set (eCertificateSecretRef (eAzureKV y)) \<Longrightarrow>
      secretData ?c (secretKeyOf (nn_Namespace k) ref) = secretData (cluster s) (secretKeyOf (nn_Namespace k) ref)"
    using before upToDate_cong [of "cluster s" "view (world (reconciler s))" k "eAzureKV y" ?c] that v by auto
  show "k \<in> queue ?s \<or> upToDate (cluster ?s) (view (world (reconciler ?s))) k (eAzureKV y)"
  proof (cases "\<exists>prev. ?old = Some prev \<and> sameMap (Data prev) (Data x)")
    case True
    then show ?thesis by (intro goal) (auto simp: secretData_same)
  next
    case False
    then have new: "DeletionTimestamp (secMeta x) = None" using kept by blast
    have y': "exportAt ?c k = Some y" using y by simp
    have old: "metaKey (secMeta prev) = metaKey (secMeta x) \<and> \<not> sameMap (Data prev) (Data x)" if "?old = Some prev" for prev
      using that False by (auto simp: secretAt_def find_Some_iff)
    show ?thesis
    proof (cases "\<exists>ref \<in> set (eCertificateSecretRef (eAzureKV y)). metaKey (secMeta x) = secretKeyOf (nn_Namespace k) ref")
      case True
      then obtain ref where "ref \<in> set (eCertificateSecretRef (eAzureKV y))" "metaKey (secMeta x) = secretKeyOf (nn_Namespace k) ref" by blast
      from secretRequests_complete [OF laws y' this(2,1) new old run] show ?thesis by simp
    next
      case False
      then show ?thesis by (intro goal) (auto simp: secretData_def secretAt_put)
    qed
  qed
qed

lemma exportWritten_waiting:
  assumes wait: "waiting view s k" and live: "\<And>prev. exportAt (cluster s) (exportKey x) = Some prev \<Longrightarrow>
      DeletionTimestamp (eMeta prev) \<noteq> None \<Longrightarrow> DeletionTimestamp (eMeta x) \<noteq> None"
  shows "waiting view (s\<lparr>cluster := putExport x (cluster s),
      queue := queue s \<union> set (exportRequests (exportAt (cluster s) (exportKey x)) x)\<rparr>) k"
proof (cases "k = exportKey x")
  case False
  with wait show ?thesis by (auto simp: waiting_def exportAt_put upToDate_def)
next
  case True
  show ?thesis
  proof (cases "exportAt (cluster s) k")
    case None
    with True show ?thesis by (auto simp: waiting_def exportRequests_def exportCreateFunc_def)
  next
    case (Some prev)
    with True wait live show ?thesis
      by (auto simp: waiting_def exportAt_put exportRequests_def export_update_filter upToDate_def)
  qed
qed

lemma operator_step_good:
  assumes laws: "export_laws E KC view" and "operator_step E KC view s s'" and good: "good E view s"
  shows "good E view s'"
  using assms(2)
proof cases
  case (exportWritten x)
  with good exportWritten_waiting [of view s _ x] show ?thesis by (simp add: good_def)
next
  case (exportGone k)
  with good show ?thesis by (auto simp: good_def separate_dropExport waiting_def exportAt_drop upToDate_def)
next
  case (secretWritten x reqs r)
  have "cgood E view (view (world (reconciler s))) (reconciler s)" using good by (simp add: good_def own_client_def cgood_def)
  from keepsD [OF keeps_secretRequests this secretWritten(3)] export_lawsD(9) [OF laws]
  have "cgood E view (view (world (reconciler s))) r" by blast
  then have "own_client E r" and v: "view (world r) = view (world (reconciler s))" by (auto simp: cgood_def own_client_def)
  with good secretWritten_waiting [OF laws _ secretWritten(2,3) v] show ?thesis
    by (simp add: good_def secretWritten(1))
next
  case (secretGone k)
  have "upToDate (dropSecret k c) v k' p" if "upToDate c v k' p" for c v k' p
    using that by (rule upToDate_cong) (auto simp: secretData_def secretAt_drop)
  then have "waiting view s' k'" for k'
    using good secretGone by (simp add: good_def waiting_def) blast
  with secretGone good show ?thesis by (simp add: good_def)
next
  case (elsewhere w)
  have "upToDate (cluster s) (view w) k (eAzureKV x)"
    if "upToDate (cluster s) (view (world (reconciler s))) k (eAzureKV x)" "exportAt (cluster s) k = Some x" for k x
    using that(1) by (rule upToDate_cong) (use exportAt_key [OF that(2)] elsewhere(2) in \<open>auto simp: usedNames_def\<close>)
  then have "waiting view s' k" for k
    using good elsewhere(1) by (simp add: good_def waiting_def) blast
  with elsewhere(1) good show ?thesis by (simp add: good_def own_client_def)
next
  case (requested k)
  with good show ?thesis by (auto simp: good_def waiting_def)
next
  case (reconciled k out r)
  have own: "own_client E (reconciler s)" and sep: "separate (cluster s)" using good by (simp_all add: good_def)
  have "waiting view s' k'" for k'
  proof (cases "k' = k")
    case True
    with Reconcile_waiting [OF laws own sep reconciled(3)] reconciled(1,2) show ?thesis by (auto simp: waiting_def)
  next
    case False
    with Reconcile_others_waiting [OF laws good reconciled(3)] reconciled(1) show ?thesis by (auto simp: waiting_def)
  qed
  with reconciled(1) sep Reconcile_others(1) [OF laws own sep reconciled(3)] show ?thesis by (simp add: good_def)
next
  case (panicked k p r)
  have own: "own_client E (reconciler s)" and sep: "separate (cluster s)" using good by (simp_all add: good_def)
  have "waiting view s' k'" for k'
    using Reconcile_others_waiting [OF laws good panicked(3), of k'] panicked(1,2) by (cases "k' = k") (auto simp: waiting_def)
  with panicked(1) sep Reconcile_others(1) [OF laws own sep panicked(3)] show ?thesis by (simp add: good_def)
next
  case restarted
  with good show ?thesis
    by (auto simp: good_def waiting_def own_client_def NewExportCertificateSecretReconciler_def dest: all_requested)
qed

lemma operator_good:
  assumes "export_laws E KC view" and "separate c" and "(operator_step E KC view)\<^sup>*\<^sup>* (started c w) s"
  shows "good E view s"
  using assms(3)
proof induction
  case base
  show ?case
    using assms(2)
    by (auto simp: good_def waiting_def started_def own_client_def NewExportCertificateSecretReconciler_def dest: all_requested)
next
  case (step s s')
  from operator_step_good [OF assms(1) step.hyps(2) step.IH] show ?case .
qed

section \<open>Property\<close>

text \<open>
  C2. Nothing is lost. However users change resources and secrets, whatever fails and whenever the
  program restarts: in every state it can reach, a resource that is not being deleted is in the
  queue for another reconciliation, or its vault holds, for every reference of type \<open>crt\<close>, a value
  that stands for the data the cluster has now. In particular everything is in the vaults when
  the queue is empty. It needs names that are all different, in whatever vaults: a deletion goes
  to the vault of the resource synchronised last, whatever vault its own resource names.
\<close>

theorem export_system_loses_nothing:
  assumes "export_laws E KC view" and "separate c" and "(operator_step E KC view)\<^sup>*\<^sup>* (started c w) s"
    and "exportAt (cluster s) k = Some x" and "DeletionTimestamp (eMeta x) = None" and "k \<notin> queue s"
    and "ref \<in> set (eCertificateSecretRef (eAzureKV x))" and "RefType ref = ''crt''"
    and "secretData (cluster s) (secretKeyOf (nn_Namespace k) ref) (SecretKey ref) = Some d"
  shows "\<exists>v. view (world (reconciler s)) (eVaultUrl (eAzureKV x), vaultName ref) = Some v \<and> standsFor v (target ref d)"
proof -
  have "waiting view s k" using operator_good [OF assms(1-3)] by (simp add: good_def)
  with assms(4-9) show ?thesis by (auto simp: waiting_def upToDate_def)
qed

text \<open>A cluster and a vault in memory.\<close>

definition memCluster :: "cluster \<Rightarrow> vault_view kube" where
  "memCluster c = offlineKube
     \<lparr>get_crd := \<lambda>_ w. (Inr \<lparr>crdMeta = emptyMeta\<rparr>, w),
      get_export := \<lambda>k w. (case exportAt c k of None \<Rightarrow> Inl (NotFoundError []) | Some x \<Rightarrow> Inr (SetRetryCount 0 x), w),
      list_exports := \<lambda>ns w. (Inr (filter (\<lambda>x. Namespace (eMeta x) = ns) (clusterExports c)), w),
      get_secret := \<lambda>k w. (case secretAt c k of None \<Rightarrow> Inl (NotFoundError []) | Some x \<Rightarrow> Inr x, w),
      update_export := \<lambda>x w. (Inr x, w), status_export := \<lambda>x w. (Inr x, w),
      get_service_account := \<lambda>_ w. (Inr exampleServiceAccount, w),
      cs_create_token := \<lambda>_ _ _ w. (Inr ''jwt'', w)\<rparr>"

lemma memCluster_laws: "export_laws flowEnv memCluster (\<lambda>w. w)"
proof -
  have kube: "env_kube (envOf flowEnv memCluster c) = memCluster c" "env_http (envOf flowEnv memCluster c) = memHttp"
    "env_os (envOf flowEnv memCluster c) = exampleOs" "env_msal (envOf flowEnv memCluster c) = exampleMsal" for c
    by (simp_all add: envOf_def flowEnv_def vaultEnv_def)
  have http: "env_http flowEnv = memHttp" by (simp add: flowEnv_def vaultEnv_def)
  have "vault_apart (envOf flowEnv memCluster c) (\<lambda>w. w)" for c
    by (simp add: vault_apart_def kube stable_kube_def stable_os_def memCluster_def offlineKube_def exampleOs_def exampleMsal_def)
  moreover have "vault_clients (envOf flowEnv memCluster c) (\<lambda>w. w)" for c
    using flowEnv_laws(4) by (simp add: vault_clients_def kube http)
  moreover have "serves_cluster memCluster"
    by (auto simp: serves_cluster_def crd_installed_def memCluster_def SetRetryCount_def GetRetryCount_def split: option.splits)
  ultimately show ?thesis
    using memHttp_writes_own by (auto simp: export_laws_def cluster_secrets_def vault_isolated_def kube returns_spec_def secretData_def
        memCluster_def exampleMsal_def split: option.splits)
qed

definition demoCluster :: cluster where
  "demoCluster = \<lparr>clusterExports = [exampleExport [caseRef ''tls.crt'' ''Web'']],
     clusterSecrets = [emptySecret\<lparr>secMeta := emptyMeta\<lparr>Name := SecretName (caseRef ''tls.crt'' ''Web''), Namespace := ''prod''\<rparr>,
       Data := Some [(''tls.crt'', ''-cert-'')]\<rparr>]\<rparr>"

theorem export_system_loses_nothing_witness:
  "\<exists>s v. (operator_step flowEnv memCluster (\<lambda>w. w))\<^sup>*\<^sup>* (started demoCluster Map.empty) s \<and> queue s = {}
     \<and> world (reconciler s) (eVaultUrl (eAzureKV (exampleExport [])), ''web'') = Some v \<and> standsFor v ''-cert-''"
proof -
  let ?k = "\<lparr>nn_Namespace = ''prod'', nn_Name = ''web''\<rparr>" and ?x = "exampleExport [caseRef ''tls.crt'' ''Web'']"
  let ?s = "started demoCluster (Map.empty :: vault_view)"
  have "fst (Reconcile (envOf flowEnv memCluster demoCluster) ?k (NewExportCertificateSecretReconciler Map.empty)) = Done (emptyResult, None)"
    by code_simp
  then obtain r where run: "Reconcile (envOf flowEnv memCluster (cluster ?s)) ?k (reconciler ?s) = (Done (emptyResult, None), r)"
    by (metis prod.collapse started_def operator.select_convs(1,2))
  have q: "queue ?s = {?k}"
    by (simp add: started_def demoCluster_def exportRequests_def exportCreateFunc_def exportKey_def metaKey_def)
  let ?t = "?s\<lparr>reconciler := r, queue := (if askedAgain (emptyResult, None) then queue ?s else queue ?s - {?k})\<rparr>"
  have "operator_step flowEnv memCluster (\<lambda>w. w) ?s ?t" by (rule operator_step.reconciled [OF _ run]) (simp add: q)
  then have steps: "(operator_step flowEnv memCluster (\<lambda>w. w))\<^sup>*\<^sup>* ?s ?t" by blast
  have empty: "queue ?t = {}" by (simp add: q askedAgain_def emptyResult_def)
  have x: "exportAt (cluster ?t) ?k = Some ?x"
    by (simp add: started_def demoCluster_def exportAt_def exportKey_def metaKey_def)
  have "vaultName (caseRef ''tls.crt'' ''Web'') = ''web''" and t: "target (caseRef ''tls.crt'' ''Web'') d = d" for d
    by (simp_all add: vaultName_def ToLower_Web target_def BASE64EN_TEMPLATING_def)
  moreover have "secretData (cluster ?t) (secretKeyOf (nn_Namespace ?k) (caseRef ''tls.crt'' ''Web'')) (SecretKey (caseRef ''tls.crt'' ''Web''))
      = Some ''-cert-''"
    by (simp add: started_def demoCluster_def secretData_def secretAt_def secretKeyOf_def metaKey_def mapData_def emptySecret_def)
  moreover have "separate demoCluster" by (simp add: separate_def demoCluster_def)
  ultimately obtain v where "world (reconciler ?t) (eVaultUrl (eAzureKV ?x), ''web'') = Some v" "standsFor v ''-cert-''"
    using export_system_loses_nothing [OF memCluster_laws _ steps x _ _ _ _, of "caseRef ''tls.crt'' ''Web''" "''-cert-''"] empty
    by (auto simp: emptyMeta_def)
  moreover have "eVaultUrl (eAzureKV ?x) = eVaultUrl (eAzureKV (exampleExport []))" by (simp add: exampleExport_def)
  ultimately show ?thesis using steps empty by metis
qed

end
