(* ===== verification/Export_Integrity.thy ===== *)
theory Export_Integrity
  imports Export_Frame
begin

text \<open>
  What the export controller sends to the vaults, however a reconciliation ends: the data of the
  resource's own references, to the resource's own vault. The Key Vault object that the references
  share never carries the data of one of type \<open>crt\<close> to the name of another.
\<close>

section \<open>What may be sent\<close>

text \<open>The secrets of the cluster are \<open>sec\<close>, for as long as the reconciliation runs.\<close>

definition reads_cluster :: "'w kube \<Rightarrow> (NamespacedName \<Rightarrow> (string \<rightharpoonup> bytes)) \<Rightarrow> bool" where
  "reads_cluster K sec \<longleftrightarrow> (\<forall>key w x. fst (get_secret K key w) = Inr x \<longrightarrow> map_of (mapData (Data x)) = sec key)"

text \<open>A bundle in the openssl runner is that of some reference.\<close>

definition bundleFrom :: "(NamespacedName \<Rightarrow> (string \<rightharpoonup> bytes)) \<Rightarrow> string \<Rightarrow> CertificateSecretRef list \<Rightarrow> bytes \<Rightarrow> bool" where
  "bundleFrom sec ns refs b \<longleftrightarrow> b = [] \<or>
     (\<exists>ref \<in> set refs. SecretKey ref = ''tls-combined.pem'' \<and> sec (secretKeyOf ns ref) (SecretKey ref) = Some b)"

fun sends :: "(NamespacedName \<Rightarrow> (string \<rightharpoonup> bytes)) \<Rightarrow> string \<Rightarrow> ExportAzureKVProvider \<Rightarrow> effect \<Rightarrow> bool" where
  "sends sec ns p (KvSetSecret u n v expires) = (u = eVaultUrl p \<and> (\<exists>ref \<in> set (eCertificateSecretRef p).
     RefType ref = ''crt'' \<and> n = vaultName ref \<and> (\<exists>d. sec (secretKeyOf ns ref) (SecretKey ref) = Some d \<and> v = target ref d)))"
| "sends sec ns p (KvImportCertificate u n v) = (u = eVaultUrl p \<and> (\<exists>ref \<in> set (eCertificateSecretRef p).
     RefType ref = ''pem'' \<and> n = vaultName ref \<and> (\<exists>c d. sec (secretKeyOf ns ref) (SecretKey ref) = Some d
       \<and> v = pemValue c ref d \<and> bundleFrom sec ns (eCertificateSecretRef p) (PemBundle c))))"
| "sends sec ns p _ = True"

section \<open>Invariants\<close>

definition sending :: "(NamespacedName \<Rightarrow> (string \<rightharpoonup> bytes)) \<Rightarrow> string \<Rightarrow> ExportAzureKVProvider \<Rightarrow> effect list \<Rightarrow> 'w est \<Rightarrow> bool" where
  "sending sec ns p t0 s \<longleftrightarrow> told (sends sec ns p) t0 s \<and> holdsSpec p s"

text \<open>While the references are synchronised the client is that of the resource's vault.\<close>

definition syncing :: "(NamespacedName \<Rightarrow> (string \<rightharpoonup> bytes)) \<Rightarrow> string \<Rightarrow> ExportAzureKVProvider \<Rightarrow> effect list \<Rightarrow> 'w est \<Rightarrow> bool" where
  "syncing sec ns p t0 s \<longleftrightarrow> sending sec ns p t0 s \<and> (\<forall>k. AkvClient s = Some k \<longrightarrow> VaultUrl k = eVaultUrl p)
     \<and> (\<exists>c. OpenSSLRunners s = Some c \<and> bundleFrom sec ns (eCertificateSecretRef p) (PemBundle c))"

interpretation hsf: framed_invariant "\<lambda>_. ()" "holdsSpec p" for p
  by unfold_locales (simp add: holdsSpec_def)

lemma keeps_sending: "adds (sends sec ns p) m \<Longrightarrow> keeps (holdsSpec p) m \<Longrightarrow> keeps (sending sec ns p t0) m"
  by (rule keepsI) (auto simp: sending_def dest: keepsD keepsD [OF keeps_told])

lemma syncing_step:
  assumes "syncing sec ns p t0 s" and "trace s' = trace s @ es" and "\<forall>e \<in> set es. sends sec ns p e"
    and "ExportObj s' = ExportObj s" and "OpenSSLRunners s' = OpenSSLRunners s"
    and "\<And>k'. AkvClient s' = Some k' \<Longrightarrow> \<exists>k. AkvClient s = Some k \<and> VaultUrl k' = VaultUrl k"
  shows "syncing sec ns p t0 s'"
  using assms told_more [of "sends sec ns p" t0 s s' es]
  by (fastforce simp: syncing_def sending_def holdsSpec_def)

section \<open>One reference\<close>

lemma push_sends:
  assumes "kvSecret (kv t) = Some x"
  shows "PushSecretToKeyVault t = (r, t') \<Longrightarrow> VaultUrl (kv t') = VaultUrl (kv t)
      \<and> trace t' = trace t @ [KvSetSecret (VaultUrl (kv t)) (ToLower (sName x)) (sValue x) (sExpires x)]"
    and "PushCertificateToKeyVault t = (r, t') \<Longrightarrow> VaultUrl (kv t') = VaultUrl (kv t)
      \<and> trace t' = trace t @ [KvImportCertificate (VaultUrl (kv t)) (ToLower (sName x)) (sValue x)]"
proof -
  obtain res err w where "SetSecret (Client (kv t)) (VaultUrl (kv t)) (ToLower (sName x)) (sValue x) (sExpires x) (world t)
      = ((res, err), w)" by (metis prod.collapse)
  then show "PushSecretToKeyVault t = (r, t') \<Longrightarrow> VaultUrl (kv t') = VaultUrl (kv t)
      \<and> trace t' = trace t @ [KvSetSecret (VaultUrl (kv t)) (ToLower (sName x)) (sValue x) (sExpires x)]"
    using assms by (auto simp: PushSecret_run Let_def run_nilDeref split: option.splits if_splits)
  obtain res err w where "ImportCertificate (Client (kv t)) (VaultUrl (kv t)) (ToLower (sName x)) (sValue x) (world t)
      = ((res, err), w)" by (metis prod.collapse)
  then show "PushCertificateToKeyVault t = (r, t') \<Longrightarrow> VaultUrl (kv t') = VaultUrl (kv t)
      \<and> trace t' = trace t @ [KvImportCertificate (VaultUrl (kv t)) (ToLower (sName x)) (sValue x)]"
    using assms by (auto simp: PushCertificate_run Let_def run_nilDeref split: option.splits if_splits)
qed

text \<open>Comparing and pushing, with a value that may be sent.\<close>

lemma pushUnlessEqual_sends:
  assumes s: "syncing sec ns p t0 s" and k: "AkvClient s = Some k" "kvSecret k = Some x"
    and push: "\<And>t r t'. kv t = k \<Longrightarrow> push t = (r, t') \<Longrightarrow>
      VaultUrl (kv t') = VaultUrl k \<and> (\<exists>e. trace t' = trace t @ [e] \<and> sends sec ns p e)"
    and run: "pushUnlessEqual push s = (r, s')"
  shows "syncing sec ns p t0 s'"
proof -
  have same: "s\<lparr>trace := trace s, world := world s, AkvClient := Some k\<rparr> = s" using k(1) by (cases s) simp
  have eq: "pushUnlessEqual push s = (if sameAsVault (sValue x) (bValue (sBundle x)) then ret None s
      else andThen (onAkv push) (\<lambda>err. case err of Some e \<Rightarrow> ret (Some (Some e)) | None \<Rightarrow> ret None) s)"
    using k by (auto simp: pushUnlessEqual_def run_andThen [of "onAkv theSecret"] run_onAkv run_theSecret sameAsVault_def Let_def
        same_client split: option.splits)
  show ?thesis
  proof (cases "sameAsVault (sValue x) (bValue (sBundle x))")
    case True
    with run s show ?thesis by (simp add: eq run_ret)
  next
    case False
    obtain r1 t where t: "push \<lparr>trace = trace s, world = world s, kv = k\<rparr> = (r1, t)" by fastforce
    from push [OF _ this] obtain e where e: "VaultUrl (kv t) = VaultUrl k" "trace t = trace s @ [e]" "sends sec ns p e" by auto
    from run False k(1) t have "s' = s\<lparr>trace := trace t, world := world t, AkvClient := Some (kv t)\<rparr>"
      by (auto simp: eq run_andThen run_onAkv run_ret split: outcome.splits option.splits)
    with e k(1) show ?thesis by (intro syncing_step [OF s, of s' "[e]"]) auto
  qed
qed

lemma syncRef_sends:
  assumes sec: "reads_cluster (env_kube E) sec" and ref: "ref \<in> set (eCertificateSecretRef p)"
  shows "keeps (syncing sec ns p t0) (syncRef E ns ex ref)"
proof (rule keepsI)
  fix s r s'
  let ?key = "secretKeyOf ns ref"
  assume s: "syncing sec ns p t0 s" and run: "syncRef E ns ex ref s = (r, s')"
  let ?s1 = "s\<lparr>trace := trace s @ [effect.GetSecret ?key], world := snd (get_secret (env_kube E) ?key (world s))\<rparr>"
  have s1: "syncing sec ns p t0 ?s1" by (rule syncing_step [OF s, where es = "[effect.GetSecret ?key]"]) auto
  show "syncing sec ns p t0 s'"
  proof (cases "\<exists>x d k. fst (get_secret (env_kube E) ?key (world s)) = Inr x
      \<and> map_of (mapData (Data x)) (SecretKey ref) = Some d \<and> AkvClient s = Some k")
    case False
    with run s1 show ?thesis
      by (auto simp: syncRef_def kGetSecret_def secretKeyOf_def run_andThen run_call run_ret run_onAkv run_nilDeref
          split: sum.splits option.splits)
  next
    case True
    then obtain x d k where x: "fst (get_secret (env_kube E) ?key (world s)) = Inr x"
      and data: "map_of (mapData (Data x)) (SecretKey ref) = Some d" and k: "AkvClient s = Some k" by blast
    have d: "sec ?key (SecretKey ref) = Some d" using sec x data by (auto simp: reads_cluster_def)
    let ?x = "\<lparr>sName = KVSecretName ref, sValue = d, sExpires = ex, sBundle = emptyBundle\<rparr>"
    let ?t = "\<lparr>trace = trace ?s1, world = world ?s1, kv = k\<lparr>kvSecret := Some ?x\<rparr>\<rparr>"
    obtain r1 t where check: "CheckKVSecretExistence ?t = (r1, t)" by fastforce
    obtain b where t: "kv t = k\<lparr>kvSecret := Some (?x\<lparr>sBundle := b\<rparr>)\<rparr>"
      "trace t = trace ?t @ [KvGetSecret (VaultUrl k) (vaultName ref)]"
      using CheckKV_any [OF check] by (auto simp: vaultName_def)
    let ?s2 = "?s1\<lparr>trace := trace t, world := world t, AkvClient := Some (kv t)\<rparr>"
    have s2: "syncing sec ns p t0 ?s2"
      by (rule syncing_step [OF s1, where es = "[KvGetSecret (VaultUrl k) (vaultName ref)]"]) (auto simp: t k)
    have run2: "s' = ?s2 \<or> (if RefType ref = ''crt'' then crtPush ref else if RefType ref = ''pem'' then pemPush ref else ret None) ?s2 = (r, s')"
      using run x data k check
      by (auto simp: syncRef_def kGetSecret_def secretKeyOf_def [symmetric] run_andThen [of "call e f" for e f] run_call
          run_andThen [of "onAkv m" for m] run_onAkv run_setKvSecret run_ret split: outcome.splits option.splits)
    have k2: "AkvClient ?s2 = Some (kv t)" "kvSecret (kv t) = Some (?x\<lparr>sBundle := b\<rparr>)" by (simp_all add: t)
    from s2 obtain c where c: "OpenSSLRunners ?s2 = Some c" "bundleFrom sec ns (eCertificateSecretRef p) (PemBundle c)"
      by (auto simp: syncing_def)
    have u: "VaultUrl k = eVaultUrl p" using s k by (simp add: syncing_def)
    let ?valued = "\<lambda>v. (kv t)\<lparr>kvSecret := Some (?x\<lparr>sBundle := b, sValue := v\<rparr>)\<rparr>"
    have s3: "syncing sec ns p t0 (?s2\<lparr>AkvClient := Some (?valued v)\<rparr>)" for v
      by (rule syncing_step [OF s2, where es = "[]"]) (auto simp: t)
    from run2 consider "s' = ?s2" | "RefType ref = ''crt''" "crtPush ref ?s2 = (r, s')"
      | "RefType ref = ''pem''" "pemPush ref ?s2 = (r, s')"
      by (auto simp: run_ret split: if_splits)
    then show ?thesis
    proof cases
      case 1
      with s2 show ?thesis by simp
    next
      case 2
      show ?thesis
      proof (rule pushUnlessEqual_sends [OF s3])
        show "pushUnlessEqual PushSecretToKeyVault (?s2\<lparr>AkvClient := Some (?valued (target ref d))\<rparr>) = (r, s')"
          using 2(2) template_run [OF k2] by simp
        fix ta r1 t'
        assume ta: "kv ta = ?valued (target ref d)" and push: "PushSecretToKeyVault ta = (r1, t')"
        have "kvSecret (kv ta) = Some (?x\<lparr>sBundle := b, sValue := target ref d\<rparr>)" by (simp add: ta)
        from push_sends(1) [OF this push] ref d 2(1) u t
        show "VaultUrl (kv t') = VaultUrl (?valued (target ref d)) \<and> (\<exists>e. trace t' = trace ta @ [e] \<and> sends sec ns p e)"
          by (auto simp: ta vaultName_def)
      qed (simp_all)
    next
      case 3
      show ?thesis
      proof (rule pushUnlessEqual_sends [OF s3])
        show "pushUnlessEqual PushCertificateToKeyVault (?s2\<lparr>AkvClient := Some (?valued (pemValue c ref d))\<rparr>) = (r, s')"
          using 3(2) pemPush_run [OF k2 c(1)] by simp
        fix ta r1 t'
        assume ta: "kv ta = ?valued (pemValue c ref d)" and push: "PushCertificateToKeyVault ta = (r1, t')"
        have "kvSecret (kv ta) = Some (?x\<lparr>sBundle := b, sValue := pemValue c ref d\<rparr>)" by (simp add: ta)
        from push_sends(2) [OF this push] ref d 3(1) u t c(2)
        show "VaultUrl (kv t') = VaultUrl (?valued (pemValue c ref d)) \<and> (\<exists>e. trace t' = trace ta @ [e] \<and> sends sec ns p e)"
          by (auto simp: ta vaultName_def)
      qed (simp_all)
    qed
  qed
qed

section \<open>All references\<close>

lemma keeps_syncing_request: "(\<And>a. sends sec ns p (e a)) \<Longrightarrow> keeps (syncing sec ns p t0) (call e f)"
  by (rule keeps_call) (rule syncing_step, assumption, auto)

lemma keeps_syncing_fields:
  "keeps (syncing sec ns p t0) theExport" "keeps (syncing sec ns p t0) theRunners"
  unfolding theExport_def theRunners_def by (intro go_keeps)+

lemma loadRef_sends:
  assumes sec: "reads_cluster (env_kube E) sec" and ref: "ref \<in> set (eCertificateSecretRef p)"
  shows "keeps (syncing sec ns p t0) (loadRef E ns ref)"
proof (rule keepsI)
  fix s :: "'a est" and r s'
  let ?key = "secretKeyOf ns ref"
  let ?s1 = "s\<lparr>trace := trace s @ [effect.GetSecret ?key], world := snd (get_secret (env_kube E) ?key (world s))\<rparr>"
  assume s: "syncing sec ns p t0 s" and run: "loadRef E ns ref s = (r, s')"
  have s1: "syncing sec ns p t0 ?s1" by (rule syncing_step [OF s, where es = "[effect.GetSecret ?key]"]) auto
  then obtain c where c: "OpenSSLRunners s = Some c" "bundleFrom sec ns (eCertificateSecretRef p) (PemBundle c)"
    by (auto simp: syncing_def)
  show "syncing sec ns p t0 s'"
  proof (cases "\<exists>x d. fst (get_secret (env_kube E) ?key (world s)) = Inr x \<and> map_of (mapData (Data x)) (SecretKey ref) = Some d")
    case False
    with run s1 show ?thesis
      by (auto simp: loadRef_def kGetSecret_def secretKeyOf_def run_andThen run_call run_ret split: sum.splits option.splits)
  next
    case True
    then obtain x d where x: "fst (get_secret (env_kube E) ?key (world s)) = Inr x"
      and data: "map_of (mapData (Data x)) (SecretKey ref) = Some d" by blast
    have "sec ?key (SecretKey ref) = Some d" using sec x data by (auto simp: reads_cluster_def)
    with ref c(2) have "bundleFrom sec ns (eCertificateSecretRef p) (PemBundle (storeCert (SecretKey ref) d c))"
      by (auto simp: storeCert_def bundleFrom_def)
    moreover have "s' = ?s1\<lparr>OpenSSLRunners := Some (storeCert (SecretKey ref) d c)\<rparr>"
      using run x data c(1)
      by (simp add: loadRef_def kGetSecret_def secretKeyOf_def [symmetric] run_andThen run_call run_theRunners run_setRunners run_ret)
    ultimately show ?thesis using s1 by (simp add: syncing_def sending_def holdsSpec_def told_def)
  qed
qed

lemma process_sends: "keeps (syncing sec ns p t0) (onRunners (ProcessCertificates (env_kube E) (env_os E) X))"
  unfolding onRunners_def
proof (rule keeps_zoom)
  fix s :: "'a est" and t r t'
  let ?P = "\<lambda>c. bundleFrom sec ns (eCertificateSecretRef p) (PemBundle c)"
  assume s: "syncing sec ns p t0 s" and run: "ProcessCertificates (env_kube E) (env_os E) X t = (r, t')"
    and t: "map_option (\<lambda>c. \<lparr>trace = trace s, world = world s, osr = c\<rparr>) (OpenSSLRunners s) = Some t"
  have "keeps (osgood (\<lambda>_. ()) () ?P) (ProcessCertificates (env_kube E) (env_os E) X)"
    by (intro keeps_ProcessCertificates stable_unit) (simp add: unprocessed_def)
  moreover have "osgood (\<lambda>_. ()) () ?P t" using s t by (auto simp: syncing_def osgood_def)
  ultimately have runner: "osgood (\<lambda>_. ()) () ?P t'" using run by (blast intro: keepsD)
  have "adds (sends sec ns p) (ProcessCertificates (env_kube E) (env_os E) X)" by (rule adds_process) simp_all
  from keepsD [OF keeps_told [OF this, of t0] _ run] have "told (sends sec ns p) t0 t'"
    using s t by (auto simp: syncing_def sending_def told_def)
  with s runner show "syncing sec ns p t0 (s\<lparr>trace := trace t', world := world t', OpenSSLRunners := Some (osr t')\<rparr>)"
    by (simp add: syncing_def sending_def holdsSpec_def osgood_def told_def)
qed

lemma SyncSecret_sends:
  assumes "reads_cluster (env_kube E) sec"
  shows "keeps (syncing sec ns p t0) (SyncSecret E ns (eCertificateSecretRef p))"
  unfolding SyncSecret_def Let_def by (intro go_keeps keeps_syncing_fields syncRef_sends assms)

text \<open>The client and the runner are made anew before anything is sent.\<close>

lemma vault_sends:
  assumes sec: "reads_cluster (env_kube E) sec"
  shows "keeps (sending sec ns p t0) (seq (setAkvClient E auth (eVaultUrl p)) (syncSecrets E ns))"
proof (rule keepsI)
  fix s :: "'a est" and r s'
  let ?refs = "eCertificateSecretRef p"
  let ?rest = "andThen (andThen (forEach ?refs (loadRef E ns)) (\<lambda>r. case r of
        Some e \<Rightarrow> ret (Some e)
      | None \<Rightarrow> andThen (onRunners (ProcessCertificates (env_kube E) (env_os E) (env_x509 E)))
          (\<lambda>err. case err of Some e \<Rightarrow> ret (Some e) | None \<Rightarrow> ret None)))
    (\<lambda>err. case err of
         Some e \<Rightarrow> ret (Some e)
       | None \<Rightarrow> andThen (SyncSecret E ns ?refs) (\<lambda>err. case err of
           Some e \<Rightarrow> ret (Some e) | None \<Rightarrow> ret None))"
  assume s: "sending sec ns p t0 s" and run: "seq (setAkvClient E auth (eVaultUrl p)) (syncSecrets E ns) s = (r, s')"
  show "sending sec ns p t0 s'"
  proof (cases auth)
    case None
    with run s show ?thesis by (auto simp: setAkvClient_def run_andThen deref_def run_nilDeref)
  next
    case (Some token)
    let ?s1 = "s\<lparr>AkvClient := Some \<lparr>Client = NewAzureKeyVaultClient (env_http E) token, VaultUrl = eVaultUrl p, kvSecret = None\<rparr>,
      OpenSSLRunners := Some NewOpenSSLRunners\<rparr>"
    obtain x where x: "ExportObj s = Some x" "eAzureKV x = p" using s by (auto simp: sending_def holdsSpec_def)
    have s1: "syncing sec ns p t0 ?s1"
      using s by (simp add: syncing_def sending_def holdsSpec_def told_def NewOpenSSLRunners_def bundleFrom_def)
    have "?rest ?s1 = (r, s')"
      using run x Some
      by (simp add: setAkvClient_def syncSecrets_def OpenSSLGenerator_def run_andThen run_deref run_modify run_theExport
          run_setRunners Let_def)
    moreover have "keeps (syncing sec ns p t0) ?rest"
      by (intro go_keeps loadRef_sends [OF sec] process_sends SyncSecret_sends [OF sec])
    ultimately have "syncing sec ns p t0 s'" using s1 by (blast intro: keepsD)
    then show ?thesis by (simp add: syncing_def)
  qed
qed

section \<open>A reconciliation\<close>

lemma keeps_hsf:
  "eAzureKV x = p \<Longrightarrow> keeps (holdsSpec p) (setExport x)" "keeps (holdsSpec p) (call e f)"
  "keeps (holdsSpec p) (onAkv m)" "keeps (holdsSpec p) theExport" "keeps (holdsSpec p) (setKubeClient E)"
proof -
  show "keeps (holdsSpec p) (call e f)" by (rule hsf.keeps_request) simp
  show "keeps (holdsSpec p) (setKubeClient E)"
    unfolding setKubeClient_def by (intro go_keeps hsf.keeps_kube stable_unit) (simp add: holdsSpec_def)
  show "keeps (holdsSpec p) (onAkv m)"
    unfolding onAkv_def by (rule keeps_zoom) (simp add: holdsSpec_def)
qed (auto simp: setExport_def theExport_def holdsSpec_def intro!: go_keeps)

lemma sending_requests:
  "keeps (sending sec ns p t0) (kGetExport K k)" "keeps (sending sec ns p t0) (kRecordEvent K k ty rs msg)"
  "keeps (sending sec ns p t0) (timeNow K)" "keeps (sending sec ns p t0) (kStatusExport K x)"
  "keeps (sending sec ns p t0) (kGetServiceAccount K k)" "keeps (sending sec ns p t0) (kUpdateExport K x)"
  "keeps (sending sec ns p t0) (setKubeClient E)"
  "keeps (sending sec ns p t0) (AuthorizerForWorkloadIdentity K M aza)"
  "eAzureKV y = p \<Longrightarrow> keeps (sending sec ns p t0) (setExport y)"
  unfolding call_defs setKubeClient_def SetKubeClient_def
  by (intro keeps_sending go_adds keeps_hsf keeps_hsf(5) [unfolded setKubeClient_def SetKubeClient_def]
    hsf.keeps_auth_requests stable_unit; simp add: setExport_def go_adds)+

lemma sending_finalizers: "keeps (sending sec ns p t0) (RemoveFinalizers K TExportCertificateSecret)"
  unfolding RemoveFinalizers_def removeItemE_def kListExports_def kUpdateExport_def
  by simp (intro keeps_sending go_adds go_keeps keeps_hsf; simp)

lemma sending_deletion: "keeps (sending sec ns p t0) (DeleteSecrets E (Some refs))"
proof (rule keeps_sending)
  have "adds (sends sec ns p) (deleteRef E cert)" for cert
    unfolding deleteRef_def deleteAndPurge_def DeleteSecretFromKeyVault_def DeleteCertificateFromKeyVault_def
      PurgeDeletedSecretFromKeyVault_def PurgeDeletedCertificateFromKeyVault_def purgeLoop_def purgeAttempt_def
      theSecret_def setKvSecret_def theExport_def kvCall_def logAndReturn_def timeSleep_def Let_def
    by (intro go_adds; simp)
  then show "adds (sends sec ns p) (DeleteSecrets E (Some refs))"
    unfolding DeleteSecrets_def by (simp) (intro go_adds adds_collectErrors)
  have "keeps (holdsSpec p) (deleteRef E cert)" for cert
    unfolding deleteRef_def deleteAndPurge_def by (intro go_keeps keeps_hsf)
  then have "keeps (holdsSpec p) (collectErrors refs (deleteRef E))"
    by (induction refs) (auto intro!: go_keeps)
  then show "keeps (holdsSpec p) (DeleteSecrets E (Some refs))"
    by (simp add: DeleteSecrets_def) (intro go_keeps)
qed

lemma sending_holds: "sending sec ns p t0 s \<Longrightarrow> holdsSpec p s"
  by (simp add: sending_def)

interpretation honest: reconcile_invariant E req p
    "\<lambda>s. returns_spec (env_kube E) \<and> reads_cluster (env_kube E) sec \<longrightarrow> sending sec (nn_Namespace req) p t0 s"
    for E req p sec t0
  by unfold_locales
    (auto simp: keeps_under intro!: keeps_at_spec [OF sending_holds] sending_requests keeps_status_spec vault_sends
      keeps_addFinalizer_spec [OF _ sending_holds] sending_finalizers sending_deletion)

lemma Reconcile_sends:
  assumes crd: "crd_installed (env_kube E)"
    and get: "\<forall>w x. fst (get_export (env_kube E) req w) = Inr x \<longrightarrow> eAzureKV x = p"
    and laws: "returns_spec (env_kube E)" "reads_cluster (env_kube E) sec" and run: "Reconcile E req s = (r, s')"
  shows "told (sends sec (nn_Namespace req) p) (trace s) s'"
proof -
  let ?told = "told (sends sec (nn_Namespace req) p) (trace s)"
  have pre: "keeps ?told (preChecks E req)"
    unfolding preChecks_def call_defs setExport_def by (intro keeps_told go_adds; simp)
  have start: "?told s" by (simp add: told_def)
  obtain r1 s1 where p1: "preChecks E req s = (r1, s1)" by fastforce
  note s1 = keepsD [OF pre start p1]
  show ?thesis
  proof (cases "r1 = Done None")
    case False
    with run p1 s1 show ?thesis
      by (auto simp: Reconcile_def run_andThen [of "preChecks E req"] ret_def split: outcome.splits option.splits)
  next
    case True
    from preChecks_finds [OF p1 [unfolded True] crd] get s1 have "sending sec (nn_Namespace req) p (trace s) s1"
      by (auto simp: sending_def holdsSpec_def)
    moreover have "keeps (sending sec (nn_Namespace req) p (trace s)) (afterChecks E req)"
      using honest.keeps_afterChecks [where E = E and sec = sec] laws by (simp add: keeps_under)
    moreover have "afterChecks E req s1 = (r, s')"
      using run by (simp add: Reconcile_afterChecks andThen_Done [where m = "preChecks E req" and s = s, OF p1 [unfolded True]])
    ultimately have "sending sec (nn_Namespace req) p (trace s) s'" by (blast intro: keepsD)
    then show ?thesis by (simp add: sending_def)
  qed
qed

section \<open>Property\<close>

text \<open>
  C6. However a reconciliation of the export controller ends, all that it has sent to a vault went
  to the vault of its resource, under the name of one of its references. For a reference of type
  \<open>crt\<close> the value is the cluster's data for that very reference, encoded where its template says so:
  the references share one Key Vault object, and still none is sent with the value of another. For
  one of type \<open>pem\<close> without a template it is the reference's own data; with one it is the encoding of a
  bundle, which is the data of some reference of the resource with the key \<open>tls-combined.pem\<close>, or of
  a PFX file, about which nothing is said here.
\<close>

theorem export_sends_own_data:
  assumes "crd_installed (env_kube E)" and "\<forall>w x. fst (get_export (env_kube E) req w) = Inr x \<longrightarrow> eAzureKV x = p"
    and "returns_spec (env_kube E)" and "reads_cluster (env_kube E) sec" and "Reconcile E req s = (r, s')"
  shows "\<exists>es. trace s' = trace s @ es
    \<and> (\<forall>u n v ex. KvSetSecret u n v ex \<in> set es \<longrightarrow> u = eVaultUrl p \<and> (\<exists>ref \<in> set (eCertificateSecretRef p). RefType ref = ''crt''
        \<and> n = vaultName ref \<and> (\<exists>d. sec (secretKeyOf (nn_Namespace req) ref) (SecretKey ref) = Some d \<and> v = target ref d)))
    \<and> (\<forall>u n v. KvImportCertificate u n v \<in> set es \<longrightarrow> u = eVaultUrl p \<and> (\<exists>ref \<in> set (eCertificateSecretRef p). RefType ref = ''pem''
        \<and> n = vaultName ref \<and> (\<exists>c d. sec (secretKeyOf (nn_Namespace req) ref) (SecretKey ref) = Some d \<and> v = pemValue c ref d
          \<and> bundleFrom sec (nn_Namespace req) (eCertificateSecretRef p) (PemBundle c))))"
proof -
  from Reconcile_sends [OF assms] obtain es where es: "trace s' = trace s @ es"
    "\<forall>e \<in> set es. sends sec (nn_Namespace req) p e" by (auto simp: told_def)
  from es(2) have "KvSetSecret u n v ex \<in> set es \<Longrightarrow> sends sec (nn_Namespace req) p (KvSetSecret u n v ex)"
    "KvImportCertificate u n v \<in> set es \<Longrightarrow> sends sec (nn_Namespace req) p (KvImportCertificate u n v)" for u n v ex by auto
  then show ?thesis by (intro exI [of _ es] conjI es(1)) auto
qed

text \<open>What the example's reconciliation sends is the certificate, once.\<close>

theorem export_sends_own_data_witness:
  "\<exists>r s'. Reconcile flowEnv \<lparr>nn_Namespace = ''prod'', nn_Name = ''web''\<rparr> (NewExportCertificateSecretReconciler Map.empty) = (r, s')
     \<and> (\<exists>u n ex. KvSetSecret u n ''-cert-'' ex \<in> set (trace s'))
     \<and> (\<forall>u n v ex. KvSetSecret u n v ex \<in> set (trace s') \<longrightarrow> v = ''-cert-'')"
proof -
  let ?req = "\<lparr>nn_Namespace = ''prod'', nn_Name = ''web''\<rparr>" and ?s = "NewExportCertificateSecretReconciler (Map.empty :: vault_view)"
  let ?p = "eAzureKV (exampleExport [caseRef ''tls.crt'' ''Web''])"
  obtain r s' where run: "Reconcile flowEnv ?req ?s = (r, s')" by fastforce
  have env: "crd_installed (env_kube flowEnv)"
    "\<forall>w x. fst (get_export (env_kube flowEnv) ?req w) = Inr x \<longrightarrow> eAzureKV x = ?p"
    by (simp_all add: crd_installed_def flowEnv_def)
  have sec: "reads_cluster (env_kube flowEnv) vaultSecrets"
    by (simp add: reads_cluster_def flowEnv_def vaultEnv_def emptySecret_def mapData_def vaultSecrets_def)
  have "\<exists>e \<in> set (trace (snd (Reconcile flowEnv ?req ?s))). case e of KvSetSecret u n v ex \<Rightarrow> v = ''-cert-'' | _ \<Rightarrow> False"
    by code_simp
  then obtain e where "e \<in> set (trace s')" "case e of KvSetSecret u n v ex \<Rightarrow> v = ''-cert-'' | _ \<Rightarrow> False" using run by auto
  then have sent: "\<exists>u n ex. KvSetSecret u n ''-cert-'' ex \<in> set (trace s')" by (cases e rule: effect.exhaust) auto
  have refs: "eCertificateSecretRef ?p = [caseRef ''tls.crt'' ''Web'']" by (simp add: exampleExport_def)
  have "target (caseRef ''tls.crt'' ''Web'') d = d" for d by (simp add: target_def BASE64EN_TEMPLATING_def)
  moreover obtain es where "trace s' = trace ?s @ es"
    "\<forall>u n v ex. KvSetSecret u n v ex \<in> set es \<longrightarrow> (\<exists>ref \<in> set (eCertificateSecretRef ?p). \<exists>d.
       vaultSecrets (secretKeyOf ''prod'' ref) (SecretKey ref) = Some d \<and> v = target ref d)"
    using export_sends_own_data [OF env flowEnv_laws(1) sec run] by auto
  moreover have "trace ?s = []" by (simp add: NewExportCertificateSecretReconciler_def)
  ultimately have "v = ''-cert-''" if "KvSetSecret u n v ex \<in> set (trace s')" for u n v ex
    using that by (fastforce simp: refs vaultSecrets_def split: if_splits)
  with run sent show ?thesis by blast
qed

end
