(* ===== verification/Import_Controller.thy ===== *)
theory Import_Controller
  imports Event_Handler Controller_State
begin

text \<open>
  \<open>internal/controllers/import/controller.go\<close>: one reconciliation for the import controller,
  which copies Key Vault secrets into Kubernetes secrets. Its requests name an
  \<open>ImportCertificateSecret\<close> or a secret that has been deleted.
\<close>

section \<open>The reconciler\<close>

record 'w ist = "'w cst" +
  ImportObj :: "ImportCertificateSecret option"

type_synonym ('w, 'a) imm = "('w ist, 'a) go"

definition SECRET_CHG_ANNOTATION :: string where
  "SECRET_CHG_ANNOTATION = ''external-certificate.io/secret-state-chg''"

definition emptyImport :: ImportCertificateSecret where
  "emptyImport = \<lparr>iMeta = emptyMeta,
     iAzureKV = \<lparr>iVaultUrl = [], iServiceAccountRef = \<lparr>sa_Name = [], Audiences = []\<rparr>,
       iCertificateSecretRef = [], SecretNamespace = [], ScanInterval = 0\<rparr>,
     iStatus = \<lparr>iConditions = [], iRetryCount = 0\<rparr>\<rparr>"

definition theImport :: "('w, ImportCertificateSecret) imm" where
  "theImport = andThen (gets ImportObj) deref"

definition setImport :: "ImportCertificateSecret \<Rightarrow> ('w, unit) imm" where
  "setImport x = modify (\<lambda>s. s\<lparr>ImportObj := Some x\<rparr>)"

definition importKey :: "ImportCertificateSecret \<Rightarrow> NamespacedName" where
  "importKey x = metaKey (iMeta x)"

definition setRetry :: "go_int \<Rightarrow> ImportCertificateSecret \<Rightarrow> ImportCertificateSecret" where
  "setRetry n x = x\<lparr>iStatus := (iStatus x)\<lparr>iRetryCount := n\<rparr>\<rparr>"

section \<open>Status and events\<close>

definition setCondition :: "Condition \<Rightarrow> Condition list \<Rightarrow> Condition list" where
  "setCondition c cs =
     (case FindCondition cs (CondType c) of
        Some i \<Rightarrow> cs[i := (cs ! i)\<lparr>CondStatus := CondStatus c, Reason := Reason c, Message := Message c,
                      LastTransitionTime := LastTransitionTime c\<rparr>]
      | None \<Rightarrow> cs @ [c])"

definition importEvent :: "ImportCertificateSecret \<Rightarrow> Condition \<Rightarrow> timestamp \<Rightarrow> timestamp \<Rightarrow> K8sEvent" where
  "importEvent x condition t1 t2 =
     \<lparr>GenerateName = Name (iMeta x) @ ''-'', evNamespace = Namespace (iMeta x),
      InvolvedKind = ''ImportCertificateSecret'', InvolvedNamespace = Namespace (iMeta x),
      InvolvedName = Name (iMeta x), InvolvedUID = UID (iMeta x),
      APIVersion = ''external-certificate.io/v1alpha1'', evReason = Reason condition,
      evMessage = Message condition, evType = CondStatus condition,
      SourceComponent = ''importcertificatesecret-controller'',
      FirstTimestamp = t1, LastTimestamp = t2, EventCount = 1\<rparr>"

text \<open>A failure to create the event is only logged.\<close>

definition createEvent :: "'w env \<Rightarrow> Condition \<Rightarrow> ('w, unit) imm" where
  "createEvent E condition =
     andThen theImport (\<lambda>x.
     andThen (timeNow (env_kube E)) (\<lambda>first.
     andThen (timeNow (env_kube E)) (\<lambda>last.
     seq (kCreateEvent (env_kube E) (importEvent x condition first last)) (ret ()))))"

definition condition :: "string \<Rightarrow> string \<Rightarrow> string \<Rightarrow> string \<Rightarrow> Condition" where
  "condition ty status reason msg =
     \<lparr>CondType = ty, CondStatus = status, Reason = reason, Message = msg, LastTransitionTime = 0\<rparr>"

definition withCondition :: "Condition \<Rightarrow> ImportCertificateSecret \<Rightarrow> ImportCertificateSecret" where
  "withCondition cond x = x\<lparr>iStatus := (iStatus x)\<lparr>iConditions := setCondition cond (iConditions (iStatus x))\<rparr>\<rparr>"

text \<open>
  When the status update fails, the resource is read again and written back as it was read:
  the condition is not part of it any more.
\<close>

definition retryStatus :: "'w env \<Rightarrow> ImportCertificateSecret \<Rightarrow> ('w, go_error option) imm" where
  "retryStatus E x =
     andThen (kGetImport (env_kube E) (importKey x)) (\<lambda>r. case r of
       Inl getErr \<Rightarrow> ret (Some getErr)
     | Inr y \<Rightarrow>
         seq (setImport y)
         (andThen (kStatusImport (env_kube E) y) (\<lambda>r. case r of
            Inl retryUpdateErr \<Rightarrow> ret (Some retryUpdateErr)
          | Inr z \<Rightarrow> seq (setImport z) (ret None))))"

definition finishStatus :: "'w env \<Rightarrow> Condition \<Rightarrow> ('w, Result \<times> go_error option) imm" where
  "finishStatus E cond =
     seq (createEvent E cond)
     (andThen theImport (\<lambda>x.
        ret (\<lparr>RequeueAfter = ScanInterval (iAzureKV x) * Minute\<rparr>, None)))"

definition updateStatusWithCondition :: "'w env \<Rightarrow> Condition \<Rightarrow> ('w, Result \<times> go_error option) imm" where
  "updateStatusWithCondition E cond =
     andThen (timeNow (env_kube E)) (\<lambda>now.
     let cond = cond\<lparr>LastTransitionTime := now\<rparr> in
     andThen theImport (\<lambda>x.
     let x' = withCondition cond x in
     seq (setImport x')
     (andThen (kStatusImport (env_kube E) x') (\<lambda>r. case r of
         Inr y \<Rightarrow> seq (setImport y) (finishStatus E cond)
       | Inl err \<Rightarrow> andThen (retryStatus E x') (\<lambda>failed. case failed of
           Some e \<Rightarrow> ret (emptyResult, Some e)
         | None \<Rightarrow> finishStatus E cond)))))"

section \<open>ProcessImportSecret\<close>

text \<open>A Go map of maps: for each Kubernetes secret the keys and the Key Vault names of their values.\<close>

type_synonym secret_groups = "(string \<times> (string \<times> string) list) list"

definition addToGroup :: "CertificateSecretRef \<Rightarrow> secret_groups \<Rightarrow> secret_groups" where
  "addToGroup certRef groups =
     (let keys = (case map_of groups (SecretName certRef) of None \<Rightarrow> [] | Some keys \<Rightarrow> keys) in
      AList.update (SecretName certRef) (AList.update (SecretKey certRef) (KVSecretName certRef) keys) groups)"

definition groupRefs :: "CertificateSecretRef list \<Rightarrow> secret_groups" where
  "groupRefs refs = fold addToGroup refs []"

text \<open>A loop that builds a value and may leave the function with an error.\<close>

fun forAcc :: "'x list \<Rightarrow> 'a \<Rightarrow> ('x \<Rightarrow> 'a \<Rightarrow> ('s, 'e + 'a) go) \<Rightarrow> ('s, 'e + 'a) go" where
  "forAcc [] acc body = ret (Inr acc)"
| "forAcc (x # xs) acc body =
     andThen (body x acc) (\<lambda>r. case r of Inl e \<Rightarrow> ret (Inl e) | Inr acc' \<Rightarrow> forAcc xs acc' body)"

text \<open>Reading one key: \<open>continue\<close> leaves the map as it is.\<close>

definition takeValue :: "string \<Rightarrow> (string \<times> bytes) list \<Rightarrow> ('w, go_error + (string \<times> bytes) list) imm" where
  "takeValue secretKey keysMap =
     andThen (onAkv theSecret) (\<lambda>sec. case bValue (sBundle sec) of
       None \<Rightarrow> ret (Inr keysMap)
     | Some v \<Rightarrow>
         (if IsBase64Encoded v
          then (case base64Decode v of
              None \<Rightarrow> ret (Inl (PlainError ''illegal base64 data''))
            | Some decodedValue \<Rightarrow>
                seq (onAkv (setBundle ((sBundle sec)\<lparr>bValue := Some decodedValue\<rparr>)))
                  (ret (Inr (AList.update secretKey decodedValue keysMap))))
          else ret (Inr (AList.update secretKey v keysMap))))"

definition fetchKey :: "(string \<times> string) list \<Rightarrow> string \<Rightarrow> (string \<times> bytes) list \<Rightarrow>
    ('w, go_error + (string \<times> bytes) list) imm" where
  "fetchKey keys secretKey keysMap =
     (case map_of keys secretKey of
        None \<Rightarrow> ret (Inr keysMap)
      | Some kvSecretName \<Rightarrow>
          seq (onAkv (setName kvSecretName))
          (andThen (onAkv CheckKVSecretExistence) (\<lambda>err. case err of
             Some e \<Rightarrow> ret (Inl e)
           | None \<Rightarrow> takeValue secretKey keysMap)))"

text \<open>\<open>if _, ok := keysMap[k]; !ok { keysMap[k] = []byte("") }\<close>\<close>

definition ensureKey :: "string \<Rightarrow> (string \<times> bytes) list \<Rightarrow> (string \<times> bytes) list" where
  "ensureKey k m = (if map_of m k = None then AList.update k [] m else m)"

definition createSecret :: "'w env \<Rightarrow> string \<Rightarrow> string \<Rightarrow> (string \<times> string) list \<Rightarrow>
    ('w, go_error option option) imm" where
  "createSecret E namespace secretName keys =
     andThen (rangeOrder (env_kube E) (map fst keys)) (\<lambda>order.
     andThen (forAcc order [] (fetchKey keys)) (\<lambda>r. case r of
       Inl e \<Rightarrow> ret (Some (Some e))
     | Inr keysMap \<Rightarrow>
         (let keysMap = ensureKey ''tls.crt'' (ensureKey ''tls.key'' keysMap) in
          andThen (CreateOrPatchK8sSecret (env_kube E) secretName keysMap namespace) (\<lambda>err. case err of
            Some e \<Rightarrow> ret (Some (Some e))
          | None \<Rightarrow> ret None))))"

text \<open>The deletion with its retries; \<open>Some ()\<close> is \<open>break\<close>.\<close>

definition deleteAttempt :: "'w env \<Rightarrow> K8sSecret \<Rightarrow> nat \<Rightarrow> ('w, unit option) imm" where
  "deleteAttempt E secretObject i =
     andThen (kDeleteSecret (env_kube E) secretObject) (\<lambda>err. case err of
       None \<Rightarrow> ret (Some ())
     | Some e \<Rightarrow>
         if IsNotFound e then ret (Some ())
         else seq (timeSleep (env_kube E) (floatBackoff (30 * Second) (2 * Second) i)) (ret None))"

definition deleteSecret :: "'w env \<Rightarrow> K8sSecret \<Rightarrow> ('w, go_error option option) imm" where
  "deleteSecret E secretObject =
     seq (forEach [0..<unat MaxRetries] (deleteAttempt E secretObject)) (ret None)"

definition processGroup :: "'w env \<Rightarrow> string \<Rightarrow> string \<Rightarrow> secret_groups \<Rightarrow> string \<Rightarrow> ('w, go_error option option) imm" where
  "processGroup E namespace action groups secretName =
     (case map_of groups secretName of
        None \<Rightarrow> ret None
      | Some keys \<Rightarrow>
          andThen (kGetSecret (env_kube E) \<lparr>nn_Namespace = namespace, nn_Name = secretName\<rparr>) (\<lambda>r.
          let secretObject = (case r of Inl err \<Rightarrow> emptySecret | Inr x \<Rightarrow> x) in
          if action = ''create'' then createSecret E namespace secretName keys
          else if action = ''delete'' then deleteSecret E secretObject
          else ret (Some (Some (PlainError (''unsupported action: '' @ action))))))"

definition ProcessImportSecret :: "'w env \<Rightarrow> string \<Rightarrow> string \<Rightarrow> ('w, go_error option) imm" where
  "ProcessImportSecret E namespace action =
     seq (onAkv (setKvSecret emptyKvSecret))
     (andThen theImport (\<lambda>x.
      let secretGroups = groupRefs (iCertificateSecretRef (iAzureKV x)) in
      andThen (rangeOrder (env_kube E) (map fst secretGroups)) (\<lambda>order.
      andThen (forEach order (processGroup E namespace action secretGroups)) (\<lambda>r. case r of
        Some result \<Rightarrow> ret result
      | None \<Rightarrow> ret None))))"

section \<open>Finalizers\<close>

definition writeImport :: "'w env \<Rightarrow> ImportCertificateSecret \<Rightarrow> ('w, go_error option) imm" where
  "writeImport E x =
     seq (setImport x)
     (andThen (kUpdateImport (env_kube E) x) (\<lambda>r. case r of
        Inl err \<Rightarrow> ret (Some err)
      | Inr y \<Rightarrow> seq (setImport y) (ret None)))"

definition removeFinalizer :: "'w env \<Rightarrow> ('w, go_error option) imm" where
  "removeFinalizer E =
     andThen theImport (\<lambda>x.
       writeImport E (x\<lparr>iMeta := (iMeta x)\<lparr>Finalizers := RemoveString (Finalizers (iMeta x)) FINALIZER\<rparr>\<rparr>))"

definition addImportFinalizer :: "'w env \<Rightarrow> ('w, go_error option) imm" where
  "addImportFinalizer E =
     andThen theImport (\<lambda>x.
       if \<not> ContainsString (Finalizers (iMeta x)) FINALIZER
       then writeImport E (x\<lparr>iMeta := (iMeta x)\<lparr>Finalizers := Finalizers (iMeta x) @ [FINALIZER]\<rparr>\<rparr>)
       else ret None)"

section \<open>Reconciling a secret\<close>

definition annotated :: "string \<Rightarrow> string \<Rightarrow> ImportCertificateSecret \<Rightarrow> ImportCertificateSecret" where
  "annotated key value x =
     (let annotations = (case Annotations (iMeta x) of None \<Rightarrow> [] | Some m \<Rightarrow> m) in
      x\<lparr>iMeta := (iMeta x)\<lparr>Annotations := Some (AList.update key value annotations)\<rparr>\<rparr>)"

definition AddAnnotationToImportCertificateSecret :: "'w env \<Rightarrow> string \<Rightarrow> string \<Rightarrow> string \<Rightarrow> string \<Rightarrow>
    ('w, go_error option) imm" where
  "AddAnnotationToImportCertificateSecret E namespace name key value =
     andThen (kGetImport (env_kube E) \<lparr>nn_Namespace = namespace, nn_Name = name\<rparr>) (\<lambda>r. case r of
       Inl err \<Rightarrow> ret (Some (WrappedError ''failed to get ImportCertificateSecret: '' err))
     | Inr x \<Rightarrow>
         andThen (kUpdateImport (env_kube E) (annotated key value x)) (\<lambda>r. case r of
           Inl err \<Rightarrow> ret (Some (WrappedError ''failed to update ImportCertificateSecret: '' err))
         | Inr _ \<Rightarrow> ret None))"

definition secretNamespaceOf :: "ImportCertificateSecret \<Rightarrow> string" where
  "secretNamespaceOf x =
     (if SecretNamespace (iAzureKV x) \<noteq> [] then SecretNamespace (iAzureKV x) else Namespace (iMeta x))"

definition related :: "NamespacedName \<Rightarrow> K8sSecret option \<Rightarrow> ImportCertificateSecret \<Rightarrow> bool" where
  "related req secret x =
     (case secret of
        Some sec \<Rightarrow>
          if Namespace (secMeta sec) = secretNamespaceOf x
          then list_ex (\<lambda>certRef. Name (secMeta sec) = SecretName certRef) (iCertificateSecretRef (iAzureKV x))
          else False
      | None \<Rightarrow>
          list_ex (\<lambda>certRef. nn_Name req = SecretName certRef \<and> secretNamespaceOf x = nn_Namespace req)
            (iCertificateSecretRef (iAzureKV x)))"

definition reconcileSecret :: "'w env \<Rightarrow> NamespacedName \<Rightarrow> K8sSecret option \<Rightarrow> ('w, Result \<times> go_error option) imm" where
  "reconcileSecret E req secret =
     andThen (kListImports (env_kube E) []) (\<lambda>r. case r of
       Inl err \<Rightarrow> ret (emptyResult, Some err)
     | Inr items \<Rightarrow>
         (case find (related req secret) items of
            None \<Rightarrow> ret (emptyResult, None)
          | Some x \<Rightarrow>
              andThen (timeStamp (env_kube E)) (\<lambda>now.
              andThen (AddAnnotationToImportCertificateSecret E (Namespace (iMeta x)) (Name (iMeta x))
                  SECRET_CHG_ANNOTATION now) (\<lambda>err. case err of
                Some e \<Rightarrow> ret (emptyResult, Some e)
              | None \<Rightarrow> ret (emptyResult, None)))))"

section \<open>Reconciling an import resource\<close>

text \<open>\<open>1 << n\<close> with a signed count panics when it is negative.\<close>

definition shiftSigned :: "go_int \<Rightarrow> ('s, duration) go" where
  "shiftSigned n = (if n <s 0 then panic ''negative shift amount'' else ret (shl1 n))"

text \<open>The three places that count a failure, report it and ask for a retry.\<close>

definition retryLater :: "'w env \<Rightarrow> duration \<Rightarrow> string \<Rightarrow> string \<Rightarrow> string \<Rightarrow> go_error \<Rightarrow> ('w, Result \<times> go_error option) imm" where
  "retryLater E base ty reason prefix err =
     andThen theImport (\<lambda>x.
     let n = iRetryCount (iStatus x) + 1 in
     seq (setImport (setRetry n x))
     (andThen (shiftSigned n) (\<lambda>shifted.
      let delay = base * shifted; delay = (if MaxDuration <s delay then MaxDuration else delay) in
      andThen (updateStatusWithCondition E (condition ty ConditionFalse reason
          (prefix @ fmt_int n @ '': '' @ errorText err @ ''. Next retry in '' @ fmt_duration delay))) (\<lambda>(_, updateErr).
      ret (\<lparr>RequeueAfter = delay\<rparr>, updateErr)))))"

definition terminalCondition :: Condition where
  "terminalCondition = condition ''Terminal'' ConditionTrue ''MaxRetriesReached''
     ''Maximum retry limit reached, stopping reconciliation''"

definition destinationNamespace :: "NamespacedName \<Rightarrow> ImportCertificateSecret \<Rightarrow> string" where
  "destinationNamespace req x =
     (if SecretNamespace (iAzureKV x) \<noteq> [] then SecretNamespace (iAzureKV x) else nn_Namespace req)"

text \<open>
  The resource is being deleted. The destination namespace is read before the finalizer is
  added, from the resource as it was fetched.
\<close>

definition finalize :: "'w env \<Rightarrow> string \<Rightarrow> ('w, Result \<times> go_error option) imm" where
  "finalize E namespace =
     andThen theImport (\<lambda>x.
       if ContainsString (Finalizers (iMeta x)) FINALIZER then
         (if MaxRetries \<le>s iRetryCount (iStatus x) then updateStatusWithCondition E terminalCondition
          else
            andThen (ProcessImportSecret E namespace ''delete'') (\<lambda>err. case err of
              Some e \<Rightarrow> retryLater E BaseDelayDelete ''Processed'' ''CertificateProcessingFailed''
                  ''Certificate secret sync failed this is retry '' e
            | None \<Rightarrow> andThen (removeFinalizer E) (\<lambda>err. case err of
                Some e \<Rightarrow> ret (emptyResult, Some e)
              | None \<Rightarrow> ret (emptyResult, None))))
       else ret (emptyResult, None))"

text \<open>The resource is not being deleted.\<close>

definition importSecrets :: "'w env \<Rightarrow> string \<Rightarrow> ('w, Result \<times> go_error option) imm" where
  "importSecrets E namespace =
     andThen (ProcessImportSecret E namespace ''create'') (\<lambda>err. case err of
       Some e \<Rightarrow> retryLater E BaseDelay ''Processed'' ''CertificateProcessingFailed''
           ''Certificate secret sync failed this is retry '' e
     | None \<Rightarrow>
         andThen theImport (\<lambda>x.
         seq (setImport (setRetry 0 x))
         (andThen (updateStatusWithCondition E (condition ''Processed'' ConditionTrue
             ''CertificateProcessingSucceeded'' ''Secret sync processed successfully'')) (\<lambda>(result, updateErr).
          case updateErr of Some e \<Rightarrow> ret (emptyResult, Some e) | None \<Rightarrow> ret (result, None)))))"

text \<open>\<open>Next retry in\<close> and the rest of the message are as in \<open>retryLater\<close>.\<close>

definition reconcileImportCertificateSecret :: "'w env \<Rightarrow> NamespacedName \<Rightarrow> ('w, Result \<times> go_error option) imm" where
  "reconcileImportCertificateSecret E req =
     andThen theImport (\<lambda>x.
     if ConditionExists (iConditions (iStatus x)) (condition ''Terminal'' ConditionTrue [] []) then ret (emptyResult, None)
     else if MaxRetries \<le>s iRetryCount (iStatus x) then updateStatusWithCondition E terminalCondition
     else
     andThen (setKubeClient E) (\<lambda>err. case err of
       Some e \<Rightarrow> ret (emptyResult, Some e)
     | None \<Rightarrow>
     andThen (kGetServiceAccount (env_kube E)
         \<lparr>nn_Namespace = nn_Namespace req, nn_Name = sa_Name (iServiceAccountRef (iAzureKV x))\<rparr>) (\<lambda>r. case r of
       Inl e \<Rightarrow> ret (emptyResult, Some e)
     | Inr serviceAccount \<Rightarrow>
     andThen (AuthorizerForWorkloadIdentity (env_kube E) (env_msal E)
         \<lparr>waServiceAccount = serviceAccount, SaAudiences = Audiences (iServiceAccountRef (iAzureKV x)),
          Authorizer = None\<rparr>) (\<lambda>(azureauth, err). case err of
       Some e \<Rightarrow> retryLater E BaseDelay ''MSALAuth'' ''MSALAuthFailed'' ''Retry '' e
     | None \<Rightarrow>
         seq (setAkvClient E (Authorizer azureauth) (iVaultUrl (iAzureKV x)))
         (let namespace = destinationNamespace req x in
          if DeletionTimestamp (iMeta x) = None
          then andThen (addImportFinalizer E) (\<lambda>err. case err of
              Some e \<Rightarrow> ret (emptyResult, Some e)
            | None \<Rightarrow> importSecrets E namespace)
          else finalize E namespace)))))"

definition ImportReconcile :: "'w env \<Rightarrow> NamespacedName \<Rightarrow> ('w, Result \<times> go_error option) imm" where
  "ImportReconcile E req =
     seq (setImport emptyImport)
     (andThen (kGetCRD (env_kube E) IMPORT_CERT_SECRET_CRD) (\<lambda>r. case r of
        Inl err \<Rightarrow> if IsNotFound err then ret (emptyResult, None) else ret (emptyResult, Some err)
      | Inr crd \<Rightarrow>
          if DeletionTimestamp (crdMeta crd) \<noteq> None
          then andThen (RemoveFinalizers (env_kube E) TImportCertificateSecretList) (\<lambda>err. ret (emptyResult, err))
          else
            andThen (kGetImport (env_kube E) req) (\<lambda>r. case r of
              Inr x \<Rightarrow> seq (setImport x) (reconcileImportCertificateSecret E req)
            | Inl _ \<Rightarrow>
                andThen (kGetSecret (env_kube E) req) (\<lambda>r. case r of
                  Inr secret \<Rightarrow> reconcileSecret E req (Some secret)
                | Inl err \<Rightarrow> if IsNotFound err then reconcileSecret E req None else ret (emptyResult, Some err)))))"

section \<open>Rules\<close>

lemma run_theImport [go_run]:
  "theImport s = (case ImportObj s of None \<Rightarrow> nilDeref s | Some x \<Rightarrow> (Done x, s))"
  by (simp add: theImport_def go_run split: option.split)

lemma run_setImport [go_run]: "setImport x s = (Done (), s\<lparr>ImportObj := Some x\<rparr>)"
  by (simp add: setImport_def go_run)

end
