(* ===== verification/Import_Sync.thy ===== *)
theory Import_Sync
  imports Import_Controller
begin

text \<open>
  What an import achieves: for every Kubernetes secret named by the references, the data that
  \<open>ProcessImportSecret\<close> writes when the secret is missing, and what it leaves of a secret that
  exists.
\<close>

section \<open>Grouping the references\<close>

text \<open>
  The Key Vault name behind a key of a secret: the last reference wins.
\<close>

definition wanted :: "CertificateSecretRef list \<Rightarrow> string \<Rightarrow> string \<rightharpoonup> string" where
  "wanted refs n = map_of (rev (map (\<lambda>r. (SecretKey r, KVSecretName r)) (filter (\<lambda>r. SecretName r = n) refs)))"

lemma wanted_snoc:
  "wanted (refs @ [r]) n = (if SecretName r = n then (wanted refs n)(SecretKey r \<mapsto> KVSecretName r) else wanted refs n)"
  by (simp add: wanted_def)

lemma wanted_SecretName: "wanted refs n k \<noteq> None \<Longrightarrow> n \<in> SecretName ` set refs"
  unfolding wanted_def by (cases "filter (\<lambda>r. SecretName r = n) refs") (auto simp: filter_eq_Cons_iff)

lemma groupRefs_snoc: "groupRefs (refs @ [r]) = addToGroup r (groupRefs refs)"
  by (simp add: groupRefs_def)

lemma groupRefs_keys:
  "distinct (map fst (groupRefs refs)) \<and> set (map fst (groupRefs refs)) = SecretName ` set refs"
proof (induction refs rule: rev_induct)
  case Nil
  show ?case by (simp add: groupRefs_def)
next
  case (snoc r refs)
  then show ?case
    by (auto simp: groupRefs_snoc addToGroup_def Let_def distinct_update update_keys split: option.split)
qed

lemma groupRefs_lookup:
  "case map_of (groupRefs refs) n of
     None \<Rightarrow> wanted refs n = Map.empty
   | Some keys \<Rightarrow> map_of keys = wanted refs n \<and> distinct (map fst keys)"
proof (induction refs rule: rev_induct)
  case Nil
  show ?case by (simp add: groupRefs_def wanted_def)
next
  case (snoc r refs)
  show ?case
  proof (cases "SecretName r = n")
    case True
    with snoc show ?thesis
      by (auto simp: groupRefs_snoc addToGroup_def Let_def wanted_snoc update_conv' fun_eq_iff distinct_update
          split: option.splits)
  next
    case False
    with snoc show ?thesis
      by (simp add: groupRefs_snoc addToGroup_def Let_def wanted_snoc update_conv' split: option.splits)
  qed
qed

section \<open>The data of an imported secret\<close>

text \<open>A value of the vault: decoded when it is the standard encoding of some bytes.\<close>

definition plain :: "bytes \<Rightarrow> bytes" where
  "plain v = (case base64Decode v of None \<Rightarrow> v | Some b \<Rightarrow> if IsBase64Encoded v then b else v)"

lemma plain_encoded: "plain (base64Encode b) = b"
  by (auto simp: plain_def base64_roundtrip IsBase64Encoded_iff)

lemma plain_same_iff: "plain v = v \<longleftrightarrow> \<not> IsBase64Encoded v \<or> v = []"
proof (cases "IsBase64Encoded v")
  case True
  then obtain b where v: "v = base64Encode b" by (auto simp: IsBase64Encoded_iff)
  then have "plain v = v \<longleftrightarrow> base64Encode b = b" by (auto simp: plain_encoded)
  with True show ?thesis using base64Encode_longer [of b] by (auto simp: v base64Encode_fixpoint)
qed (auto simp: plain_def split: option.split)

definition importedData :: "vault_view \<Rightarrow> string \<Rightarrow> (string \<rightharpoonup> string) \<Rightarrow> (string \<rightharpoonup> bytes)" where
  "importedData vault url keys k =
     (case keys k of None \<Rightarrow> None | Some n \<Rightarrow> map_option plain (vault (url, ToLower n)))"

definition withTlsKeys :: "(string \<rightharpoonup> bytes) \<Rightarrow> (string \<rightharpoonup> bytes)" where
  "withTlsKeys m = [''tls.key'' \<mapsto> [], ''tls.crt'' \<mapsto> []] ++ m"

lemma map_of_ensured:
  "map_of (ensureKey ''tls.crt'' (ensureKey ''tls.key'' m)) = withTlsKeys (map_of m)"
  by (auto simp: ensureKey_def withTlsKeys_def fun_eq_iff update_conv' map_add_def split: option.splits)

lemma distinct_ensureKey: "distinct (map fst m) \<Longrightarrow> distinct (map fst (ensureKey k m))"
  by (simp add: ensureKey_def distinct_update)

section \<open>Hypotheses\<close>

text \<open>
  The vault and the cluster's secrets are different things: requests to the one do not change
  the other, and reads and range loops change neither.
\<close>

definition apart :: "'w env \<Rightarrow> ('w \<Rightarrow> 'v) \<Rightarrow> ('w \<Rightarrow> 'c) \<Rightarrow> bool" where
  "apart E vault secrets \<longleftrightarrow>
     (\<forall>ks w. vault (snd (range_order (env_kube E) ks w)) = vault w \<and> secrets (snd (range_order (env_kube E) ks w)) = secrets w)
   \<and> (\<forall>k w. vault (snd (get_secret (env_kube E) k w)) = vault w \<and> secrets (snd (get_secret (env_kube E) k w)) = secrets w)
   \<and> (\<forall>r w. secrets (snd (env_http E r w)) = secrets w)
   \<and> (\<forall>ns n w. vault (snd (cs_get_secret (env_kube E) ns n w)) = vault w)
   \<and> (\<forall>ns x w. vault (snd (cs_create_secret (env_kube E) ns x w)) = vault w)
   \<and> (\<forall>ns n p w. vault (snd (cs_patch_secret (env_kube E) ns n p w)) = vault w)"

lemma apartD:
  assumes "apart E vault secrets"
  shows "vault (snd (range_order (env_kube E) ks w)) = vault w" "secrets (snd (range_order (env_kube E) ks w)) = secrets w"
    "vault (snd (get_secret (env_kube E) k w)) = vault w" "secrets (snd (get_secret (env_kube E) k w)) = secrets w"
    "secrets (snd (env_http E r w)) = secrets w"
    "vault (snd (cs_get_secret (env_kube E) ns n w)) = vault w"
    "vault (snd (cs_create_secret (env_kube E) ns x w)) = vault w"
    "vault (snd (cs_patch_secret (env_kube E) ns n p w)) = vault w"
  using assms unfolding apart_def by blast+

text \<open>The state during an import.\<close>

definition importing :: "'w env \<Rightarrow> ('w \<Rightarrow> 'v) \<Rightarrow> string \<Rightarrow> string \<Rightarrow> 'v \<Rightarrow> 'w ist \<Rightarrow> bool" where
  "importing E vault token url V s \<longleftrightarrow> vault (world s) = V
     \<and> (\<exists>k sec. AkvClient s = Some k \<and> kvSecret k = Some sec
          \<and> Client k = NewAzureKeyVaultClient (env_http E) token \<and> VaultUrl k = url)"

lemma importing_call:
  "importing E vault token url V s \<Longrightarrow> vault w = vault (world s) \<Longrightarrow>
   importing E vault token url V (s\<lparr>trace := tr, world := w\<rparr>)"
  by (simp add: importing_def)

section \<open>One key\<close>

lemma fetchKey_done:
  assumes I: "importing E vault token url V s"
    and law: "serves_vault (NewAzureKeyVaultClient (env_http E) token) vault" and ap: "apart E vault secrets"
    and n: "map_of keys key = Some n"
    and run: "fetchKey keys key m s = (Done (Inr m'), s')"
  shows "m' = (case V (url, ToLower n) of None \<Rightarrow> m | Some v \<Rightarrow> AList.update key (plain v) m)
    \<and> importing E vault token url V s' \<and> secrets (world s') = secrets (world s)"
proof -
  from I obtain k sec where k: "AkvClient s = Some k" "kvSecret k = Some sec"
    "Client k = NewAzureKeyVaultClient (env_http E) token" "VaultUrl k = url" and V: "vault (world s) = V"
    by (auto simp: importing_def)
  let ?k1 = "k\<lparr>kvSecret := Some (sec\<lparr>sName := n\<rparr>)\<rparr>"
  let ?t1 = "\<lparr>trace = trace s, world = world s, kv = ?k1\<rparr>"
  have "onAkv (setName n) s = (Done (), s\<lparr>AkvClient := Some ?k1\<rparr>)"
    using k by (simp add: run_onAkv setName_def run_andThen run_theSecret run_setKvSecret)
  note name = andThen_Done [where m = "onAkv (setName n)" and s = s, OF this]
  from run n k obtain t2 where c: "CheckKVSecretExistence ?t1 = (Done None, t2)"
    and rest: "takeValue key m (s\<lparr>trace := trace t2, world := world t2, AkvClient := Some (kv t2)\<rparr>) = (Done (Inr m'), s')"
    by (auto simp: fetchKey_def name run_andThen [of "onAkv CheckKVSecretExistence"]
        run_onAkv run_ret split: prod.splits outcome.splits option.splits)
  have "kvSecret (kv ?t1) = Some (sec\<lparr>sName := n\<rparr>)" "serves_vault (Client (kv ?t1)) vault"
    using k law by simp_all
  from CheckKV_done [OF this c] obtain b where b: "kv t2 = ?k1\<lparr>kvSecret := Some (sec\<lparr>sName := n, sBundle := b\<rparr>)\<rparr>"
    "bValue b = V (url, ToLower n)" "vault (world t2) = V"
    and w: "world t2 = snd (GetSecret (NewAzureKeyVaultClient (env_http E) token) url (ToLower n) [] (world s))"
    using k V by auto
  have sec: "secrets (world t2) = secrets (world s)"
    unfolding w by (rule client_worldly(7)) (rule apartD(5) [OF ap])
  have dec: "IsBase64Encoded v \<Longrightarrow> base64Decode v = Some d \<Longrightarrow> plain v = d" "\<not> IsBase64Encoded v \<Longrightarrow> plain v = v" for v d
    by (auto simp: plain_def split: option.split)
  show ?thesis
    using rest b sec k
    by (auto simp: takeValue_def run_andThen run_onAkv run_theSecret run_ret setBundle_def run_setKvSecret importing_def dec
        split: option.splits if_splits)
qed

lemma fetchKeys_done:
  assumes law: "serves_vault (NewAzureKeyVaultClient (env_http E) token) vault" and ap: "apart E vault secrets"
    and "importing E vault token url V s" and "set order \<subseteq> dom (map_of keys)" and "distinct (map fst m)"
    and "forAcc order m (fetchKey keys) s = (Done (Inr m'), s')"
  shows "importing E vault token url V s' \<and> secrets (world s') = secrets (world s) \<and> distinct (map fst m')
    \<and> map_of m' = map_of m ++ (importedData V url (map_of keys) |` set order)"
  using assms(3-6)
proof (induction order arbitrary: m s)
  case Nil
  then show ?case by (simp add: run_ret)
next
  case (Cons key order)
  from Cons.prems(2) obtain n where n: "map_of keys key = Some n" by auto
  from Cons.prems(4) obtain m1 s1 where one: "fetchKey keys key m s = (Done (Inr m1), s1)"
    and rest: "forAcc order m1 (fetchKey keys) s1 = (Done (Inr m'), s')"
    by (auto simp: run_andThen run_ret split: prod.splits outcome.splits sum.splits)
  note f = fetchKey_done [OF Cons.prems(1) law ap n one]
  have d1: "distinct (map fst m1)" using f Cons.prems(3) by (auto simp: distinct_update split: option.splits)
  have "set order \<subseteq> dom (map_of keys)" using Cons.prems(2) by simp
  from Cons.IH [OF _ this d1 rest] f have ih: "importing E vault token url V s'"
    "secrets (world s') = secrets (world s)" "distinct (map fst m')"
    "map_of m' = map_of m1 ++ (importedData V url (map_of keys) |` set order)" by auto
  have "map_of m1 ++ (importedData V url (map_of keys) |` set order)
      = map_of m ++ (importedData V url (map_of keys) |` set (key # order))"
    using f n by (auto simp: fun_eq_iff map_add_def restrict_map_def importedData_def update_conv' split: option.splits)
  with ih show ?case by simp
qed

section \<open>One secret\<close>

lemma rangeOrder_run:
  "rangeOrder K ks s = (Done (fst (range_order K ks (world s))),
     s\<lparr>trace := trace s @ [RangeMap ks], world := snd (range_order K ks (world s))\<rparr>)"
  by (simp add: rangeOrder_def run_call)

lemma keeps_importing_CreateOrPatch:
  assumes "apart E vault secrets"
  shows "keeps (importing E vault token url V) (CreateOrPatchK8sSecret (env_kube E) name data ns)"
proof -
  have c: "keeps (importing E vault token url V) (call e f)" if "\<And>w. vault (snd (f w)) = vault w" for e f
    by (rule keeps_call) (simp add: importing_call that)
  show ?thesis
    unfolding CreateOrPatchK8sSecret_def mergeData_def csGetSecret_def csCreateSecret_def csPatchSecret_def
    by (intro go_keeps c apartD [OF assms])
qed

text \<open>What \<open>CreateOrPatchK8sSecret\<close> makes of the stored data.\<close>

definition afterImport :: "(string \<rightharpoonup> bytes) \<Rightarrow> (string \<rightharpoonup> bytes) option \<Rightarrow> (string \<rightharpoonup> bytes)" where
  "afterImport data stored = (case stored of None \<Rightarrow> data | Some old \<Rightarrow> old |` dom data)"

lemma createSecret_done:
  assumes law: "serves_vault (NewAzureKeyVaultClient (env_http E) token) vault" and ap: "apart E vault secrets"
    and server: "serves_secrets (env_kube E) secrets" and all: "range_visits_all (env_kube E)"
    and I: "importing E vault token url V s" and keys: "distinct (map fst keys)"
    and run: "createSecret E ns name keys s = (Done None, s')"
  shows "importing E vault token url V s'
    \<and> secrets (world s') = (secrets (world s))((ns, name) \<mapsto>
        afterImport (withTlsKeys (importedData V url (map_of keys))) (secrets (world s) (ns, name)))"
proof -
  let ?order = "fst (range_order (env_kube E) (map fst keys) (world s))"
  let ?s1 = "s\<lparr>trace := trace s @ [RangeMap (map fst keys)], world := snd (range_order (env_kube E) (map fst keys) (world s))\<rparr>"
  have order: "set ?order = dom (map_of keys)"
    using all keys by (simp add: range_visits_all_def dom_map_of_conv_image_fst)
  have I1: "importing E vault token url V ?s1" and sec1: "secrets (world ?s1) = secrets (world s)"
    using I by (simp_all add: importing_call apartD [OF ap])
  from run obtain m s2 where loop: "forAcc ?order [] (fetchKey keys) ?s1 = (Done (Inr m), s2)"
    and put: "CreateOrPatchK8sSecret (env_kube E) name (ensureKey ''tls.crt'' (ensureKey ''tls.key'' m)) ns s2 = (Done None, s')"
    by (auto simp: createSecret_def run_andThen [of "rangeOrder K ks" for K ks] rangeOrder_run run_ret Let_def
        run_andThen [of "forAcc a b c" for a b c] run_andThen [of "CreateOrPatchK8sSecret a b c d" for a b c d]
        split: prod.splits outcome.splits sum.splits option.splits)
  from fetchKeys_done [OF law ap I1 _ _ loop] order
  have I2: "importing E vault token url V s2" and sec2: "secrets (world s2) = secrets (world s)"
    and d: "distinct (map fst m)" and m: "map_of m = importedData V url (map_of keys) |` dom (map_of keys)"
    using sec1 by auto
  have imp: "importedData V url (map_of keys) |` dom (map_of keys) = importedData V url (map_of keys)"
    by (rule restrict_map_all) (auto simp: importedData_def split: option.splits)
  let ?data = "ensureKey ''tls.crt'' (ensureKey ''tls.key'' m)"
  have data: "map_of ?data = withTlsKeys (importedData V url (map_of keys))"
    by (simp add: map_of_ensured m imp)
  have "distinct (map fst ?data)" by (intro distinct_ensureKey d)
  from CreateOrPatch_effect [OF server this put]
  have "secrets (world s') = (secrets (world s))((ns, name) \<mapsto> afterImport (map_of ?data) (secrets (world s) (ns, name)))"
    by (simp add: sec2 afterImport_def dom_map_of_fst split: option.split)
  with keepsD [OF keeps_importing_CreateOrPatch [OF ap] I2 put] show ?thesis by (simp add: data)
qed

section \<open>All secrets\<close>

lemma createSecret_result: "createSecret E ns name keys s = (Done (Some q), s') \<Longrightarrow> q \<noteq> None"
  by (auto simp: createSecret_def run_andThen run_ret Let_def
      split: prod.splits outcome.splits sum.splits option.splits)

lemma processGroup_create:
  assumes "map_of groups name = Some keys"
  shows "processGroup E ns ''create'' groups name s = createSecret E ns name keys
    (s\<lparr>trace := trace s @ [effect.GetSecret \<lparr>nn_Namespace = ns, nn_Name = name\<rparr>],
       world := snd (get_secret (env_kube E) \<lparr>nn_Namespace = ns, nn_Name = name\<rparr> (world s))\<rparr>)"
  by (simp add: processGroup_def assms kGetSecret_def run_andThen [of "call e f" for e f] run_call)

lemma processGroups_create:
  assumes law: "serves_vault (NewAzureKeyVaultClient (env_http E) token) vault" and ap: "apart E vault secrets"
    and server: "serves_secrets (env_kube E) secrets" and all: "range_visits_all (env_kube E)"
    and "importing E vault token url V s" and "distinct order" and "set order \<subseteq> SecretName ` set refs"
    and "forEach order (processGroup E ns ''create'' (groupRefs refs)) s = (Done r, s')" and "r = None \<or> r = Some None"
  shows "secrets (world s') = (\<lambda>(n, name). if n = ns \<and> name \<in> set order
    then Some (afterImport (withTlsKeys (importedData V url (wanted refs name))) (secrets (world s) (n, name)))
    else secrets (world s) (n, name))"
  using assms(5-9)
proof (induction order arbitrary: s)
  case Nil
  then show ?case by (auto simp: run_ret)
next
  case (Cons name order)
  have "map_of (groupRefs refs) name \<noteq> None"
    using Cons.prems(3) groupRefs_keys [of refs] by (auto simp: map_of_eq_None_iff)
  then obtain keys where g: "map_of (groupRefs refs) name = Some keys" by blast
  then have keys: "map_of keys = wanted refs name" "distinct (map fst keys)"
    using groupRefs_lookup [of refs name] by simp_all
  let ?key = "\<lparr>nn_Namespace = ns, nn_Name = name\<rparr>"
  let ?s0 = "s\<lparr>trace := trace s @ [effect.GetSecret ?key], world := snd (get_secret (env_kube E) ?key (world s))\<rparr>"
  have I0: "importing E vault token url V ?s0" using Cons.prems(1) by (simp add: importing_call apartD [OF ap])
  from Cons.prems(4,5) obtain s1 where one: "createSecret E ns name keys ?s0 = (Done None, s1)"
    and rest: "forEach order (processGroup E ns ''create'' (groupRefs refs)) s1 = (Done r, s')"
    using createSecret_result [of E ns name keys ?s0]
    by (auto simp: run_andThen [of "processGroup a b c d e" for a b c d e] processGroup_create [OF g] run_ret
        split: prod.splits outcome.splits option.splits)
  from createSecret_done [OF law ap server all I0 keys(2) one]
  have I1: "importing E vault token url V s1" and s1: "secrets (world s1) = (secrets (world s))((ns, name) \<mapsto>
      afterImport (withTlsKeys (importedData V url (wanted refs name))) (secrets (world s) (ns, name)))"
    by (simp_all add: keys(1) apartD [OF ap])
  have "distinct order" "set order \<subseteq> SecretName ` set refs" "name \<notin> set order" using Cons.prems(2,3) by auto
  with Cons.IH [OF I1 _ _ rest Cons.prems(5)] s1 show ?case by (auto simp: fun_eq_iff)
qed

lemma ProcessImportSecret_effect:
  assumes "serves_vault (NewAzureKeyVaultClient (env_http E) token) vault" and "apart E vault secrets"
    and "serves_secrets (env_kube E) secrets" and "range_visits_all (env_kube E)"
    and k: "AkvClient s = Some k" "Client k = NewAzureKeyVaultClient (env_http E) token" and x: "ImportObj s = Some x"
    and run: "ProcessImportSecret E ns ''create'' s = (Done None, s')"
  defines "refs \<equiv> iCertificateSecretRef (iAzureKV x)"
  shows "secrets (world s') = (\<lambda>(n, name). if n = ns \<and> name \<in> SecretName ` set refs
    then Some (afterImport (withTlsKeys (importedData (vault (world s)) (VaultUrl k) (wanted refs name)))
      (secrets (world s) (n, name)))
    else secrets (world s) (n, name))"
proof -
  let ?names = "map fst (groupRefs refs)"
  let ?s1 = "s\<lparr>AkvClient := Some (k\<lparr>kvSecret := Some emptyKvSecret\<rparr>),
    trace := trace s @ [RangeMap ?names], world := snd (range_order (env_kube E) ?names (world s))\<rparr>"
  let ?order = "fst (range_order (env_kube E) ?names (world s))"
  have order: "distinct ?order" "set ?order = SecretName ` set refs"
    using assms(4) groupRefs_keys [of refs] by (auto simp: range_visits_all_def)
  have "onAkv (setKvSecret emptyKvSecret) s = (Done (), s\<lparr>AkvClient := Some (k\<lparr>kvSecret := Some emptyKvSecret\<rparr>)\<rparr>)"
    using k by (simp add: run_onAkv run_setKvSecret)
  note start = andThen_Done [where m = "onAkv (setKvSecret emptyKvSecret)" and s = s, OF this]
  from run obtain r where loop: "forEach ?order (processGroup E ns ''create'' (groupRefs refs)) ?s1 = (Done r, s')"
    and r: "r = None \<or> r = Some None"
    using x
    by (auto simp: ProcessImportSecret_def start run_andThen [of theImport] run_theImport
        run_andThen [of "rangeOrder K ks" for K ks] rangeOrder_run run_andThen [of "forEach a b" for a b] run_ret
        refs_def [symmetric] Let_def split: prod.splits outcome.splits option.splits)
  have I: "importing E vault token (VaultUrl k) (vault (world s)) ?s1"
    using k by (simp add: importing_def apartD [OF assms(2)])
  have w: "secrets (world ?s1) = secrets (world s)" by (simp add: apartD [OF assms(2)])
  show ?thesis
    using processGroups_create [OF assms(1-4) I order(1) _ loop r] unfolding w order(2) by simp
qed

section \<open>An example\<close>

text \<open>A world of two parts: a vault in memory and the stored secrets of a cluster.\<close>

definition splitKube :: "(vault_view \<times> secret_store) kube" where
  "splitKube = offlineKube
     \<lparr>cs_get_secret := \<lambda>ns n w. (fst (cs_get_secret memSecretKube ns n (snd w)), w),
      cs_create_secret := \<lambda>ns x w. (None, fst w, snd (cs_create_secret memSecretKube ns x (snd w))),
      cs_patch_secret := \<lambda>ns n p w. (None, fst w, snd (cs_patch_secret memSecretKube ns n p (snd w)))\<rparr>"

definition splitHttp :: "(vault_view \<times> secret_store) http" where
  "splitHttp req w = (fst (memHttp req (fst w)), snd (memHttp req (fst w)), snd w)"

definition splitEnv :: "(vault_view \<times> secret_store) env" where
  "splitEnv = \<lparr>env_kube = splitKube, env_msal = exampleMsal, env_http = splitHttp, env_os = exampleOs,
     env_x509 = exampleX509\<rparr>"

definition storedSecrets :: "vault_view \<times> secret_store \<Rightarrow> string \<times> string \<Rightarrow> (string \<rightharpoonup> bytes) option" where
  "storedSecrets w key = map_option map_of (snd w key)"

lemma splitEnv_apart: "apart splitEnv fst storedSecrets"
  by (simp add: apart_def splitEnv_def splitKube_def splitHttp_def offlineKube_def storedSecrets_def fun_eq_iff)

lemma splitEnv_secrets: "serves_secrets (env_kube splitEnv) storedSecrets"
  by (auto simp: serves_secrets_def splitEnv_def splitKube_def storedSecrets_def memSecretKube_def fun_eq_iff mapData_def
      map_of_clearjunk map_of_patchAList option.map_comp o_def distinct_clearjunk split: option.splits)

lemma splitEnv_order: "range_visits_all (env_kube splitEnv)"
  by (simp add: range_visits_all_def splitEnv_def splitKube_def offlineKube_def)

lemma splitEnv_vault: "serves_vault (NewAzureKeyVaultClient (env_http splitEnv) token) fst"
  by (auto simp: serves_vault_def splitEnv_def splitHttp_def sdkGetSecret_def sdkSetSecret_def memHttp_def sdkCall_def
      answer_def emptyBundle_def split: option.split)

definition syncImport :: "CertificateSecretRef list \<Rightarrow> ImportCertificateSecret" where
  "syncImport refs = \<lparr>iMeta = emptyMeta\<lparr>Name := ''web'', Namespace := ''prod''\<rparr>,
     iAzureKV = \<lparr>iVaultUrl = ''u'', iServiceAccountRef = \<lparr>sa_Name = ''sa'', Audiences = []\<rparr>,
       iCertificateSecretRef = refs, SecretNamespace = [], ScanInterval = 10\<rparr>,
     iStatus = \<lparr>iConditions = [], iRetryCount = 0\<rparr>\<rparr>"

definition importState :: "vault_view \<Rightarrow> secret_store \<Rightarrow> CertificateSecretRef list \<Rightarrow> (vault_view \<times> secret_store) ist" where
  "importState vault secrets refs = \<lparr>trace = [], world = (vault, secrets),
     AkvClient = Some \<lparr>Client = NewAzureKeyVaultClient splitHttp ''t'', VaultUrl = ''u'', kvSecret = None\<rparr>,
     KubeClient = True, ImportObj = Some (syncImport refs)\<rparr>"

section \<open>Properties\<close>

text \<open>
  C11. What a successful import writes. For every secret named by the references that did not
  exist, the cluster then holds exactly the vault's values under the keys of the last
  reference to each key, decoded when they are base64, with \<open>tls.key\<close> and \<open>tls.crt\<close> empty when
  the vault has none. A secret that did exist keeps its old values, less the keys not imported,
  and no other secret changes.
\<close>

theorem import_writes:
  assumes "serves_vault (NewAzureKeyVaultClient (env_http E) token) vault" and "apart E vault secrets"
    and "serves_secrets (env_kube E) secrets" and "range_visits_all (env_kube E)"
    and k: "AkvClient s = Some k" "Client k = NewAzureKeyVaultClient (env_http E) token" and x: "ImportObj s = Some x"
    and run: "ProcessImportSecret E ns ''create'' s = (Done None, s')"
  defines "refs \<equiv> iCertificateSecretRef (iAzureKV x)"
  shows "secrets (world s') = (\<lambda>(n, name). if n = ns \<and> name \<in> SecretName ` set refs
    then Some (afterImport (withTlsKeys (importedData (vault (world s)) (VaultUrl k) (wanted refs name)))
      (secrets (world s) (n, name)))
    else secrets (world s) (n, name))"
  unfolding refs_def by (rule ProcessImportSecret_effect [OF assms(1-8)])

theorem import_writes_witness:
  "storedSecrets (world (snd (ProcessImportSecret splitEnv ''prod'' ''create''
      (importState [(''u'', ''web'') \<mapsto> base64Encode ''-cert-''] Map.empty [caseRef ''tls.crt'' ''Web'']))))
    (''prod'', ''web-tls'') = Some [''tls.key'' \<mapsto> [], ''tls.crt'' \<mapsto> ''-cert-'']"
proof -
  let ?s = "importState [(''u'', ''web'') \<mapsto> base64Encode ''-cert-''] Map.empty [caseRef ''tls.crt'' ''Web'']"
  have "fst (ProcessImportSecret splitEnv ''prod'' ''create'' ?s) = Done None"
    by code_simp
  then obtain s' where run: "ProcessImportSecret splitEnv ''prod'' ''create'' ?s = (Done None, s')"
    by (metis prod.collapse)
  have k: "AkvClient ?s = Some \<lparr>Client = NewAzureKeyVaultClient (env_http splitEnv) ''t'', VaultUrl = ''u'', kvSecret = None\<rparr>"
    and x: "ImportObj ?s = Some (syncImport [caseRef ''tls.crt'' ''Web''])"
    by (simp_all add: importState_def splitEnv_def)
  have "ToLower ''Web'' = ''web''" by code_simp
  moreover have "plain (base64Encode ''-cert-'') = ''-cert-''"
    by (rule plain_encoded)
  ultimately have "withTlsKeys (importedData [(''u'', ''web'') \<mapsto> base64Encode ''-cert-''] ''u'' (wanted [caseRef ''tls.crt'' ''Web''] ''web-tls''))
      = [''tls.key'' \<mapsto> [], ''tls.crt'' \<mapsto> ''-cert-'']"
    by (auto simp: withTlsKeys_def importedData_def wanted_def fun_eq_iff map_add_def split: option.split)
  with import_writes [OF splitEnv_vault splitEnv_apart splitEnv_secrets splitEnv_order k _ x run] run show ?thesis
    by (simp add: syncImport_def afterImport_def importState_def storedSecrets_def)
qed

end
