(* ===== verification/Import_Lifecycle.thy ===== *)
theory Import_Lifecycle
  imports Import_Controller
begin

text \<open>
  The life of an import resource: how outcomes are recorded in its status, what is left of it
  when its retries are used up, and how it ends.
\<close>

section \<open>The status\<close>

lemma setCondition_types:
  "map CondType (setCondition c cs) = (if CondType c \<in> CondType ` set cs then map CondType cs else map CondType cs @ [CondType c])"
proof (cases "FindCondition cs (CondType c)")
  case None
  then have "CondType c \<notin> CondType ` set cs" by (auto simp: FindCondition_None)
  then show ?thesis by (simp add: setCondition_def None)
next
  case (Some i)
  then have "i < length cs" "CondType (cs ! i) = CondType c" using FindCondition_Some by blast+
  moreover from this have "CondType c \<in> CondType ` set cs" by (metis image_eqI nth_mem)
  ultimately show ?thesis
    using Some by (simp add: setCondition_def map_update) (metis list_update_id length_map nth_map)
qed

lemma setCondition_in: "c \<in> set (setCondition c cs)"
proof (cases "FindCondition cs (CondType c)")
  case None
  then show ?thesis by (simp add: setCondition_def)
next
  case (Some i)
  then have i: "i < length cs" "CondType (cs ! i) = CondType c" using FindCondition_Some by blast+
  then have "(cs ! i)\<lparr>CondStatus := CondStatus c, Reason := Reason c, Message := Message c,
      LastTransitionTime := LastTransitionTime c\<rparr> = c" by simp
  then have "setCondition c cs = cs[i := c]" by (simp only: setCondition_def Some option.case)
  with i show ?thesis by (metis set_update_memI)
qed

lemma timeNow_run:
  "timeNow K s = (Done (fst (time_now K (world s))), s\<lparr>trace := trace s @ [Now], world := snd (time_now K (world s))\<rparr>)"
  by (simp add: timeNow_def run_call)

lemma finishStatus_run:
  assumes "ImportObj s = Some x"
  obtains a b w where "finishStatus E cond s = (Done (\<lparr>RequeueAfter = ScanInterval (iAzureKV x) * Minute\<rparr>, None),
      s\<lparr>trace := trace s @ [Now, Now, CreateEvent (importEvent x cond a b)], world := w\<rparr>)"
  by (simp add: finishStatus_def createEvent_def run_andThen run_theImport assms timeNow_run kCreateEvent_def
      run_call run_ret)

text \<open>The object whose status is sent first.\<close>

definition statusSent :: "'w env \<Rightarrow> Condition \<Rightarrow> ImportCertificateSecret \<Rightarrow> 'w \<Rightarrow> ImportCertificateSecret" where
  "statusSent E cond x w = withCondition (cond\<lparr>LastTransitionTime := fst (time_now (env_kube E) w)\<rparr>) x"

definition afterSent :: "'w env \<Rightarrow> Condition \<Rightarrow> ImportCertificateSecret \<Rightarrow> 'w \<Rightarrow> 'w" where
  "afterSent E cond x w = snd (status_import (env_kube E) (statusSent E cond x w) (snd (time_now (env_kube E) w)))"

lemma updateStatus_run:
  assumes "ImportObj s = Some x"
  shows "updateStatusWithCondition E cond s =
    (let y = statusSent E cond x (world s);
         s1 = s\<lparr>ImportObj := Some y, trace := trace s @ [Now, StatusImport y], world := afterSent E cond x (world s)\<rparr>;
         c = cond\<lparr>LastTransitionTime := fst (time_now (env_kube E) (world s))\<rparr>
     in case fst (status_import (env_kube E) y (snd (time_now (env_kube E) (world s)))) of
          Inr z \<Rightarrow> finishStatus E c (s1\<lparr>ImportObj := Some z\<rparr>)
        | Inl e \<Rightarrow> andThen (retryStatus E y) (\<lambda>failed. case failed of
            Some e \<Rightarrow> ret (emptyResult, Some e) | None \<Rightarrow> finishStatus E c) s1)"
  using assms
  by (simp add: updateStatusWithCondition_def run_andThen [of "timeNow K" for K] timeNow_run run_andThen [of theImport]
      run_theImport run_andThen [of "setImport y" for y] run_setImport kStatusImport_def run_andThen [of "call e f" for e f] run_call
      Let_def statusSent_def afterSent_def split: sum.split)

lemma retryStatus_run:
  "retryStatus E x s =
    (case fst (get_import (env_kube E) (importKey x) (world s)) of
       Inl e \<Rightarrow> (Done (Some e), s\<lparr>trace := trace s @ [GetImport (importKey x)],
          world := snd (get_import (env_kube E) (importKey x) (world s))\<rparr>)
     | Inr y \<Rightarrow>
         (let w = snd (get_import (env_kube E) (importKey x) (world s));
              s1 = s\<lparr>trace := trace s @ [GetImport (importKey x), StatusImport y], world := snd (status_import (env_kube E) y w)\<rparr>
          in case fst (status_import (env_kube E) y w) of
            Inl e \<Rightarrow> (Done (Some e), s1\<lparr>ImportObj := Some y\<rparr>)
          | Inr z \<Rightarrow> (Done None, s1\<lparr>ImportObj := Some z\<rparr>)))"
  by (simp add: retryStatus_def kGetImport_def kStatusImport_def run_andThen run_call run_setImport run_ret Let_def
      split: sum.split)

text \<open>Only these requests are made to record an outcome.\<close>

fun statusEffect :: "effect \<Rightarrow> bool" where
  "statusEffect Now = True"
| "statusEffect (StatusImport x) = True"
| "statusEffect (GetImport k) = True"
| "statusEffect (CreateEvent ev) = True"
| "statusEffect _ = False"

lemma adds_theImport: "adds P theImport" "adds P (setImport x)"
  by (auto simp: theImport_def setImport_def intro!: go_adds)

lemma adds_updateStatus: "adds statusEffect (updateStatusWithCondition E cond)"
  unfolding updateStatusWithCondition_def retryStatus_def finishStatus_def createEvent_def call_defs Let_def
  by (intro go_adds adds_theImport; simp)

lemma updateStatus_result:
  assumes x: "ImportObj s = Some x" and run: "updateStatusWithCondition E cond s = (Done (res, None), s')"
  shows "\<exists>z. ImportObj s' = Some z \<and> RequeueAfter res = ScanInterval (iAzureKV z) * Minute"
proof -
  have fin: "\<exists>z. ImportObj s' = Some z \<and> RequeueAfter res = ScanInterval (iAzureKV z) * Minute"
    if "finishStatus E c t = (Done (res, None), s')" and z: "ImportObj t = Some z" for c t z
  proof -
    obtain a b w where "finishStatus E c t = (Done (\<lparr>RequeueAfter = ScanInterval (iAzureKV z) * Minute\<rparr>, None),
        t\<lparr>trace := trace t @ [Now, Now, CreateEvent (importEvent z c a b)], world := w\<rparr>)"
      by (rule finishStatus_run [OF z])
    with that(1) z show ?thesis by auto
  qed
  let ?y = "statusSent E cond x (world s)"
  show ?thesis
  proof (cases "fst (status_import (env_kube E) ?y (snd (time_now (env_kube E) (world s))))")
    case (Inr z)
    with run show ?thesis by (auto simp: updateStatus_run [OF x] Let_def intro: fin)
  next
    case (Inl e)
    with run show ?thesis
      by (auto simp: updateStatus_run [OF x] Let_def run_andThen retryStatus_run run_ret intro!: fin
          split: sum.splits option.splits)
  qed
qed

section \<open>Reconciling a resource\<close>

definition afterCrd :: "'w env \<Rightarrow> 'w \<Rightarrow> 'w" where
  "afterCrd E w = snd (get_crd (env_kube E) IMPORT_CERT_SECRET_CRD w)"

text \<open>The reconciliation finds the CRD, not being deleted, and an import resource.\<close>

definition importFinds :: "'w env \<Rightarrow> NamespacedName \<Rightarrow> 'w \<Rightarrow> ImportCertificateSecret \<Rightarrow> bool" where
  "importFinds E req w x \<longleftrightarrow>
     (\<exists>crd. fst (get_crd (env_kube E) IMPORT_CERT_SECRET_CRD w) = Inr crd \<and> DeletionTimestamp (crdMeta crd) = None)
   \<and> fst (get_import (env_kube E) req (afterCrd E w)) = Inr x"

lemma ImportReconcile_found:
  assumes "importFinds E req (world s) x"
  shows "ImportReconcile E req s = reconcileImportCertificateSecret E req
    (s\<lparr>trace := trace s @ [GetCRD IMPORT_CERT_SECRET_CRD, GetImport req],
       world := snd (get_import (env_kube E) req (afterCrd E (world s))), ImportObj := Some x\<rparr>)"
  using assms
  by (auto simp: importFinds_def afterCrd_def ImportReconcile_def run_andThen [of "setImport y" for y] run_setImport
      kGetCRD_def kGetImport_def run_andThen [of "call e f" for e f] run_call)

lemma ConditionExists_reason:
  "\<forall>c \<in> set cs. Reason c \<noteq> [] \<Longrightarrow> \<not> ConditionExists cs (condition ty st [] [])"
  by (auto simp: ConditionExists_iff condition_def)

lemma reconcileImport_exhausted:
  assumes "ImportObj s = Some x" and "MaxRetries \<le>s iRetryCount (iStatus x)"
    and "\<forall>c \<in> set (iConditions (iStatus x)). Reason c \<noteq> []"
  shows "reconcileImportCertificateSecret E req s = updateStatusWithCondition E terminalCondition s"
  using assms
  by (simp add: reconcileImportCertificateSecret_def run_andThen [of theImport] run_theImport
      ConditionExists_reason [OF assms(3)])

section \<open>Retries\<close>

lemma shiftSigned_run: "0 \<le>s n \<Longrightarrow> shiftSigned n s = (Done (shl1 n), s)"
  by (simp add: shiftSigned_def ret_def word_sless_alt word_sle_eq)

definition retryDelay :: "duration \<Rightarrow> go_int \<Rightarrow> duration" where
  "retryDelay base n = (let delay = base * shl1 n in if MaxDuration <s delay then MaxDuration else delay)"

lemma retryLater_run:
  assumes "ImportObj s = Some x" and "0 \<le>s iRetryCount (iStatus x) + 1"
  defines "n \<equiv> iRetryCount (iStatus x) + 1"
  shows "retryLater E base ty reason prefix err s =
    (case updateStatusWithCondition E (condition ty ConditionFalse reason
        (prefix @ fmt_int n @ '': '' @ errorText err @ ''. Next retry in '' @ fmt_duration (retryDelay base n)))
        (s\<lparr>ImportObj := Some (setRetry n x)\<rparr>) of
       (Done (_, updateErr), s') \<Rightarrow> (Done (\<lparr>RequeueAfter = retryDelay base n\<rparr>, updateErr), s')
     | (Panicked p, s') \<Rightarrow> (Panicked p, s'))"
  using assms
  by (simp add: retryLater_def run_andThen run_theImport run_setImport shiftSigned_run Let_def retryDelay_def run_ret
      split: prod.split outcome.split)

lemma retryDelay_BaseDelay:
  assumes "n \<in> {0, 1, 2, 3, 4}"
  shows "retryDelay BaseDelay (n + 1) = (if n = 0 then 4 * Minute else if n = 1 then 8 * Minute
     else if n = 2 then 16 * Minute else 30 * Minute)"
  using assms by (auto simp: retryDelay_def shl1_small duration_defs Let_def)

section \<open>The end of a resource\<close>

lemma processGroup_delete:
  assumes "map_of groups name = Some keys"
  shows "processGroup E ns ''delete'' groups name s =
    (let key = \<lparr>nn_Namespace = ns, nn_Name = name\<rparr>;
         s1 = s\<lparr>trace := trace s @ [effect.GetSecret key], world := snd (get_secret (env_kube E) key (world s))\<rparr>
     in deleteSecret E (case fst (get_secret (env_kube E) key (world s)) of Inl _ \<Rightarrow> emptySecret | Inr x \<Rightarrow> x) s1)"
  by (simp add: processGroup_def assms kGetSecret_def run_andThen [of "call e f" for e f] run_call Let_def)

section \<open>The resource during a run\<close>

lemma keeps_obj_onAkv: "keeps (\<lambda>s. ImportObj s = v) (onAkv m)"
  unfolding onAkv_def by (rule keeps_zoom) simp

lemma keeps_obj_call: "keeps (\<lambda>s. ImportObj s = v) (call e f)"
  by (rule keeps_call) simp

lemma keeps_forAcc: "(\<And>x a. keeps I (body x a)) \<Longrightarrow> keeps I (forAcc xs a body)"
  by (induction xs arbitrary: a) (auto intro!: go_keeps)

lemma keeps_obj_process: "keeps (\<lambda>s. ImportObj s = v) (ProcessImportSecret E ns action)"
proof -
  have "keeps (\<lambda>s. ImportObj s = v) (createSecret E ns name keys)" for name keys
    unfolding createSecret_def fetchKey_def takeValue_def CreateOrPatchK8sSecret_def mergeData_def call_defs Let_def
    by (intro go_keeps keeps_forAcc keeps_obj_onAkv keeps_obj_call)
  moreover have "keeps (\<lambda>s. ImportObj s = v) (deleteSecret E x)" for x
    unfolding deleteSecret_def deleteAttempt_def call_defs by (intro go_keeps keeps_obj_call)
  ultimately show ?thesis
    unfolding ProcessImportSecret_def processGroup_def theImport_def call_defs Let_def
    by (intro go_keeps keeps_obj_onAkv keeps_obj_call)
qed

text \<open>How the trace of a status update begins.\<close>

lemma updateStatus_begins:
  assumes x: "ImportObj s = Some x" and run: "updateStatusWithCondition E cond s = (r, s')"
  obtains es where "trace s' = trace s @ Now # StatusImport (statusSent E cond x (world s)) # es"
    and "\<forall>e \<in> set es. statusEffect e"
proof -
  let ?y = "statusSent E cond x (world s)"
  have fin: "adds statusEffect (finishStatus E c)" for c
    unfolding finishStatus_def createEvent_def call_defs by (intro go_adds adds_theImport; simp)
  have retry: "adds statusEffect (andThen (retryStatus E ?y) (\<lambda>failed. case failed of
      Some e \<Rightarrow> ret (emptyResult, Some e) | None \<Rightarrow> finishStatus E c))" for c
    unfolding retryStatus_def call_defs by (intro go_adds adds_theImport fin; simp)
  let ?c = "cond\<lparr>LastTransitionTime := fst (time_now (env_kube E) (world s))\<rparr>"
  let ?s1 = "s\<lparr>ImportObj := Some ?y, trace := trace s @ [Now, StatusImport ?y], world := afterSent E cond x (world s)\<rparr>"
  show thesis
  proof (cases "fst (status_import (env_kube E) ?y (snd (time_now (env_kube E) (world s))))")
    case (Inr z)
    with run have "finishStatus E ?c (?s1\<lparr>ImportObj := Some z\<rparr>) = (r, s')" by (simp add: updateStatus_run [OF x] Let_def)
    with fin show thesis by (rule addsE) (auto intro: that)
  next
    case (Inl e)
    with run have "andThen (retryStatus E ?y) (\<lambda>failed. case failed of
        Some e \<Rightarrow> ret (emptyResult, Some e) | None \<Rightarrow> finishStatus E ?c) ?s1 = (r, s')"
      by (simp add: updateStatus_run [OF x] Let_def)
    with retry show thesis by (rule addsE) (auto intro: that)
  qed
qed

lemma statusSent_simps [simp]:
  "iRetryCount (iStatus (statusSent E cond x w)) = iRetryCount (iStatus x)"
  "iMeta (statusSent E cond x w) = iMeta x" "iAzureKV (statusSent E cond x w) = iAzureKV x"
  by (simp_all add: statusSent_def withCondition_def)

lemma statusSent_condition:
  "\<exists>c \<in> set (iConditions (iStatus (statusSent E cond x w))). CondType c = CondType cond \<and> CondStatus c = CondStatus cond
     \<and> Reason c = Reason cond \<and> Message c = Message cond"
proof -
  let ?c = "cond\<lparr>LastTransitionTime := fst (time_now (env_kube E) w)\<rparr>"
  have "?c \<in> set (iConditions (iStatus (statusSent E cond x w)))"
    by (simp add: statusSent_def withCondition_def setCondition_in)
  then show ?thesis by (rule bexI [rotated]) simp
qed

section \<open>An example\<close>

text \<open>
  A cluster with one import resource. It refuses a status with a condition as long as the
  stored one has none, as if the resource had been changed meanwhile.
\<close>

definition importKube :: "bool \<Rightarrow> ImportCertificateSecret kube" where
  "importKube conflict = offlineKube
     \<lparr>get_crd := \<lambda>_ w. (Inr \<lparr>crdMeta = emptyMeta\<rparr>, w),
      get_import := \<lambda>k w. (if k = importKey w then Inr w else Inl (NotFoundError ''not found''), w),
      list_imports := \<lambda>_ w. (Inr [w], w),
      update_import := \<lambda>x w. (Inr x, x),
      status_import := \<lambda>x w. (if conflict \<and> iConditions (iStatus x) \<noteq> [] then (Inl (PlainError ''conflict''), w) else (Inr x, x))\<rparr>"

definition importEnv :: "bool \<Rightarrow> ImportCertificateSecret env" where
  "importEnv conflict = \<lparr>env_kube = importKube conflict, env_msal = exampleMsal, env_http = \<lambda>_ w. (answer 404 None, w),
     env_os = exampleOs, env_x509 = exampleX509\<rparr>"

definition exampleImport :: "go_int \<Rightarrow> CertificateSecretRef list \<Rightarrow> ImportCertificateSecret" where
  "exampleImport n refs = \<lparr>iMeta = emptyMeta\<lparr>Name := ''web'', Namespace := ''prod'', Finalizers := [FINALIZER]\<rparr>,
     iAzureKV = \<lparr>iVaultUrl = ''u'', iServiceAccountRef = \<lparr>sa_Name = ''sa'', Audiences = []\<rparr>,
       iCertificateSecretRef = refs, SecretNamespace = [], ScanInterval = 10\<rparr>,
     iStatus = \<lparr>iConditions = [], iRetryCount = n\<rparr>\<rparr>"

definition exampleIst :: "ImportCertificateSecret \<Rightarrow> ImportCertificateSecret ist" where
  "exampleIst x = \<lparr>trace = [], world = x,
     AkvClient = Some \<lparr>Client = NewAzureKeyVaultClient (\<lambda>_ w. (answer 404 None, w)) ''t'', VaultUrl = ''u'', kvSecret = None\<rparr>,
     KubeClient = True, ImportObj = Some x\<rparr>"

lemma exampleIst_simps [simp]:
  "ImportObj (exampleIst x) = Some x" "trace (exampleIst x) = []" "world (exampleIst x) = x"
  by (simp_all add: exampleIst_def)

lemma exampleImport_simps [simp]:
  "iRetryCount (iStatus (exampleImport n refs)) = n" "iConditions (iStatus (exampleImport n refs)) = []"
  "Finalizers (iMeta (exampleImport n refs)) = [FINALIZER]"
  "iCertificateSecretRef (iAzureKV (exampleImport n refs)) = refs" "SecretNamespace (iAzureKV (exampleImport n refs)) = []"
  by (simp_all add: exampleImport_def)

text \<open>Attempts that fail: each is followed by its delay.\<close>

definition failedAttempts :: "K8sSecret \<Rightarrow> nat list \<Rightarrow> effect list" where
  "failedAttempts x is = concat (map (\<lambda>i. [DeleteK8sSecret x, Sleep (floatBackoff (30 * Second) (2 * Second) i)]) is)"

lemma deleteAttempts_fail:
  assumes "\<forall>w. \<exists>e. fst (delete_secret (env_kube E) x w) = Some e \<and> \<not> IsNotFound e"
  shows "\<exists>w. forEach is (deleteAttempt E x) s = (Done None, s\<lparr>trace := trace s @ failedAttempts x is, world := w\<rparr>)"
proof (induction "is" arbitrary: s)
  case Nil
  show ?case by (simp add: run_ret failedAttempts_def) (rule exI [of _ "world s"], simp)
next
  case (Cons i js)
  from assms [rule_format, of "world s"] obtain w where "deleteAttempt E x i s = (Done None, s\<lparr>trace := trace s @
      [DeleteK8sSecret x, Sleep (floatBackoff (30 * Second) (2 * Second) i)], world := w\<rparr>)"
    by (auto simp: deleteAttempt_def kDeleteSecret_def timeSleep_def run_andThen run_call run_ret)
  with Cons.IH [of "s\<lparr>trace := trace s @
      [DeleteK8sSecret x, Sleep (floatBackoff (30 * Second) (2 * Second) i)], world := w\<rparr>"]
  show ?case by (auto simp: run_andThen failedAttempts_def)
qed

lemma failedAttempts_five:
  "failedAttempts x [0..<unat MaxRetries] = concat (map (\<lambda>d. [DeleteK8sSecret x, Sleep (d * Second)]) [2, 4, 8, 16, 30])"
  by (simp add: failedAttempts_def MaxRetries_def upt_rec floatBackoff_def Second_def)

section \<open>Properties\<close>

text \<open>
  The status keeps one condition for each type: recording a condition keeps the types
  distinct, puts the condition itself into the list and leaves those of other types alone.
\<close>

theorem setCondition_exact:
  "c \<in> set (setCondition c cs)
   \<and> (distinct (map CondType cs) \<longrightarrow> distinct (map CondType (setCondition c cs)))
   \<and> filter (\<lambda>d. CondType d \<noteq> CondType c) (setCondition c cs) = filter (\<lambda>d. CondType d \<noteq> CondType c) cs"
proof (intro conjI impI)
  show "c \<in> set (setCondition c cs)" by (rule setCondition_in)
  show "distinct (map CondType (setCondition c cs))" if "distinct (map CondType cs)"
    using that by (auto simp: setCondition_types)
  show "filter (\<lambda>d. CondType d \<noteq> CondType c) (setCondition c cs) = filter (\<lambda>d. CondType d \<noteq> CondType c) cs"
  proof (cases "FindCondition cs (CondType c)")
    case None
    then show ?thesis by (simp add: setCondition_def)
  next
    case (Some i)
    then have i: "i < length cs" "CondType (cs ! i) = CondType c" using FindCondition_Some by blast+
    define d where "d = (cs ! i)\<lparr>CondStatus := CondStatus c, Reason := Reason c, Message := Message c,
      LastTransitionTime := LastTransitionTime c\<rparr>"
    have "CondType d = CondType c" using i by (simp add: d_def)
    moreover have "setCondition c cs = take i cs @ d # drop (Suc i) cs"
      using Some i by (simp add: setCondition_def d_def [symmetric] upd_conv_take_nth_drop)
    moreover have "filter P cs = filter P (take i cs) @ filter P [cs ! i] @ filter P (drop (Suc i) cs)" for P
      by (metis append_Cons append_Nil filter_append i(1) id_take_nth_drop)
    ultimately show ?thesis using i by simp
  qed
qed

theorem setCondition_exact_witness:
  "distinct (map CondType (setCondition terminalCondition [condition ''Processed'' ''True'' ''r'' ''m'']))"
proof -
  have "distinct (map CondType [condition ''Processed'' ''True'' ''r'' ''m''])" by simp
  with setCondition_exact [of terminalCondition "[condition ''Processed'' ''True'' ''r'' ''m'']"] show ?thesis by blast
qed

text \<open>
  C15. When an import resource has used up its retries, a reconciliation only reads it, records
  the terminal condition and creates an event, and does so again and again: the recorded
  condition does not stop the next reconciliation, since the check compares its reason with the
  empty one, and the result asks for another reconciliation after the scan interval. As nothing
  else is written, a resource that is being deleted keeps its finalizer.
\<close>

theorem import_exhausted:
  assumes "importFinds E req (world s) x" and "MaxRetries \<le>s iRetryCount (iStatus x)"
    and "\<forall>c \<in> set (iConditions (iStatus x)). Reason c \<noteq> []"
    and "ImportReconcile E req s = (r, s')"
  shows "(\<exists>es. trace s' = trace s @ es \<and> (\<forall>e \<in> set es. e = GetCRD IMPORT_CERT_SECRET_CRD \<or> statusEffect e))
    \<and> (\<forall>res. r = Done (res, None) \<longrightarrow> (\<exists>y. ImportObj s' = Some y \<and> RequeueAfter res = ScanInterval (iAzureKV y) * Minute))"
proof -
  let ?s1 = "s\<lparr>trace := trace s @ [GetCRD IMPORT_CERT_SECRET_CRD, GetImport req],
       world := snd (get_import (env_kube E) req (afterCrd E (world s))), ImportObj := Some x\<rparr>"
  have x1: "ImportObj ?s1 = Some x" by simp
  from assms(4) have run: "updateStatusWithCondition E terminalCondition ?s1 = (r, s')"
    by (simp add: ImportReconcile_found [OF assms(1)] reconcileImport_exhausted [OF x1 assms(2,3)])
  with adds_updateStatus obtain es where "trace s' = trace ?s1 @ es" "\<forall>e \<in> set es. statusEffect e"
    by (rule addsE)
  then have "\<exists>es. trace s' = trace s @ es \<and> (\<forall>e \<in> set es. e = GetCRD IMPORT_CERT_SECRET_CRD \<or> statusEffect e)"
    by (intro exI [of _ "[GetCRD IMPORT_CERT_SECRET_CRD, GetImport req] @ es"]) auto
  moreover have "\<exists>y. ImportObj s' = Some y \<and> RequeueAfter res = ScanInterval (iAzureKV y) * Minute" if "r = Done (res, None)" for res
    using updateStatus_result [OF x1] run that by blast
  ultimately show ?thesis by blast
qed

theorem import_exhausted_witness:
  "\<exists>r s' es. ImportReconcile (importEnv False) (importKey (exampleImport 5 [])) (exampleIst (exampleImport 5 [])) = (r, s')
     \<and> trace s' = es \<and> (\<forall>e \<in> set es. e = GetCRD IMPORT_CERT_SECRET_CRD \<or> statusEffect e)"
proof -
  let ?x = "exampleImport 5 []"
  obtain r s' where run: "ImportReconcile (importEnv False) (importKey ?x) (exampleIst ?x) = (r, s')" by fastforce
  have "importFinds (importEnv False) (importKey ?x) (world (exampleIst ?x)) ?x"
    by (simp add: importFinds_def afterCrd_def importEnv_def importKube_def emptyMeta_def)
  moreover have "MaxRetries \<le>s iRetryCount (iStatus ?x)" by (simp add: MaxRetries_def)
  ultimately show ?thesis using import_exhausted [OF _ _ _ run] run by fastforce
qed

text \<open>
  C36. A secret that cannot be read is deleted all the same, as an empty object. The API server
  refuses that, so all five attempts are made, with 2, 4, 8, 16 and 30 seconds of sleep.
\<close>

theorem missing_secret_is_deleted:
  assumes "map_of groups name = Some keys"
    and "fst (get_secret (env_kube E) \<lparr>nn_Namespace = ns, nn_Name = name\<rparr> (world s)) = Inl err"
    and "\<forall>w. \<exists>e. fst (delete_secret (env_kube E) emptySecret w) = Some e \<and> \<not> IsNotFound e"
  shows "\<exists>s'. processGroup E ns ''delete'' groups name s = (Done None, s')
    \<and> trace s' = trace s @ effect.GetSecret \<lparr>nn_Namespace = ns, nn_Name = name\<rparr>
        # concat (map (\<lambda>d. [DeleteK8sSecret emptySecret, Sleep (d * Second)]) [2, 4, 8, 16, 30])"
proof -
  let ?s1 = "s\<lparr>trace := trace s @ [effect.GetSecret \<lparr>nn_Namespace = ns, nn_Name = name\<rparr>],
      world := snd (get_secret (env_kube E) \<lparr>nn_Namespace = ns, nn_Name = name\<rparr> (world s))\<rparr>"
  from deleteAttempts_fail [OF assms(3)] obtain w where
    "forEach [0..<unat MaxRetries] (deleteAttempt E emptySecret) ?s1 =
      (Done None, ?s1\<lparr>trace := trace ?s1 @ failedAttempts emptySecret [0..<unat MaxRetries], world := w\<rparr>)" by blast
  then have "processGroup E ns ''delete'' groups name s =
      (Done None, ?s1\<lparr>trace := trace ?s1 @ failedAttempts emptySecret [0..<unat MaxRetries], world := w\<rparr>)"
    by (simp add: processGroup_delete [OF assms(1)] assms(2) deleteSecret_def run_andThen run_ret)
  then show ?thesis by (simp only: failedAttempts_five) simp
qed

theorem missing_secret_is_deleted_witness:
  "trace (snd (processGroup (importEnv False) ''prod'' ''delete'' [(''web-tls'', [])] ''web-tls'' (exampleIst (exampleImport 0 []))))
   = effect.GetSecret \<lparr>nn_Namespace = ''prod'', nn_Name = ''web-tls''\<rparr>
        # concat (map (\<lambda>d. [DeleteK8sSecret emptySecret, Sleep (d * Second)]) [2, 4, 8, 16, 30])"
proof -
  have "fst (get_secret (env_kube (importEnv False)) \<lparr>nn_Namespace = ''prod'', nn_Name = ''web-tls''\<rparr>
      (world (exampleIst (exampleImport 0 [])))) = Inl refused"
    and "\<forall>w. \<exists>e. fst (delete_secret (env_kube (importEnv False)) emptySecret w) = Some e \<and> \<not> IsNotFound e"
    by (simp_all add: importEnv_def importKube_def offlineKube_def refused_def)
  with missing_secret_is_deleted [of "[(''web-tls'', [])]" "''web-tls''" "[]" "importEnv False" "''prod''" "exampleIst (exampleImport 0 [])"]
  show ?thesis by fastforce
qed

text \<open>
  C20. While the CRD is being deleted every reconciliation of an import resource fails: the
  helper that strips the finalizers does not know the list type it is given, so it strips none.
\<close>

theorem import_crd_deletion_fails:
  assumes "fst (get_crd (env_kube E) IMPORT_CERT_SECRET_CRD (world s)) = Inr crd" and "DeletionTimestamp (crdMeta crd) \<noteq> None"
  shows "\<exists>s'. ImportReconcile E req s = (Done (emptyResult, Some (PlainError ''unsupported resource type'')), s')
    \<and> trace s' = trace s @ [GetCRD IMPORT_CERT_SECRET_CRD]"
  using assms
  by (auto simp: ImportReconcile_def run_andThen run_setImport kGetCRD_def run_call RemoveFinalizers_def run_ret)

theorem import_crd_deletion_fails_witness:
  "fst (ImportReconcile \<lparr>env_kube = offlineKube\<lparr>get_crd := \<lambda>_ w. (Inr \<lparr>crdMeta = emptyMeta\<lparr>DeletionTimestamp := Some 1\<rparr>\<rparr>, w)\<rparr>,
       env_msal = exampleMsal, env_http = \<lambda>_ w. (answer 404 None, w), env_os = exampleOs, env_x509 = exampleX509\<rparr>
     \<lparr>nn_Namespace = ''prod'', nn_Name = ''web''\<rparr> (exampleIst (exampleImport 0 [])))
   = Done (emptyResult, Some (PlainError ''unsupported resource type''))" (is "fst (ImportReconcile ?E ?req ?s) = _")
proof -
  have "fst (get_crd (env_kube ?E) IMPORT_CERT_SECRET_CRD (world ?s)) = Inr \<lparr>crdMeta = emptyMeta\<lparr>DeletionTimestamp := Some 1\<rparr>\<rparr>"
    by simp
  from import_crd_deletion_fails [OF this, of ?req] show ?thesis by auto
qed

text \<open>
  C21. A failed import is retried after 4, 8, 16, 30 and 30 minutes, and what is sent as the
  new status holds the count increased by one and a \<open>False\<close> condition with the error in its
  message. (The documentation says that the first retry is after two minutes.)
\<close>

theorem import_failure_schedule:
  assumes "ImportObj s = Some x" and n: "0 \<le>s iRetryCount (iStatus x)" "\<not> MaxRetries \<le>s iRetryCount (iStatus x)"
    and run: "retryLater E BaseDelay ty reason prefix err s = (r, s')"
  defines "count \<equiv> iRetryCount (iStatus x)"
  shows "(\<exists>y es. trace s' = trace s @ Now # StatusImport y # es \<and> iRetryCount (iStatus y) = count + 1
      \<and> (\<exists>c \<in> set (iConditions (iStatus y)). CondType c = ty \<and> CondStatus c = ConditionFalse \<and> Reason c = reason
           \<and> (\<exists>rest. Message c = prefix @ fmt_int (count + 1) @ '': '' @ errorText err @ rest)))
    \<and> (\<forall>res e. r = Done (res, e) \<longrightarrow> RequeueAfter res =
        (if count = 0 then 4 * Minute else if count = 1 then 8 * Minute else if count = 2 then 16 * Minute else 30 * Minute))"
proof -
  have set: "count \<in> {0, 1, 2, 3, 4}" using small_count [OF n] by (auto simp: count_def)
  then have pos: "0 \<le>s iRetryCount (iStatus x) + 1" by (auto simp: count_def word_sle_eq)
  let ?n = "count + 1"
  let ?c = "condition ty ConditionFalse reason
      (prefix @ fmt_int ?n @ '': '' @ errorText err @ ''. Next retry in '' @ fmt_duration (retryDelay BaseDelay ?n))"
  let ?s1 = "s\<lparr>ImportObj := Some (setRetry ?n x)\<rparr>"
  obtain q s2 where upd: "updateStatusWithCondition E ?c ?s1 = (q, s2)" by fastforce
  with run have r: "s' = s2" "\<And>res e. r = Done (res, e) \<Longrightarrow> RequeueAfter res = retryDelay BaseDelay ?n"
    by (auto simp: retryLater_run [OF assms(1) pos] count_def split: outcome.splits)
  have x1: "ImportObj ?s1 = Some (setRetry ?n x)" by simp
  let ?y = "statusSent E ?c (setRetry ?n x) (world s)"
  from upd obtain es where "trace s' = trace s @ Now # StatusImport ?y # es"
    by (rule updateStatus_begins [OF x1]) (auto simp: r)
  moreover have "iRetryCount (iStatus ?y) = ?n" by (simp add: setRetry_def)
  moreover have "\<exists>c \<in> set (iConditions (iStatus ?y)). CondType c = ty \<and> CondStatus c = ConditionFalse \<and> Reason c = reason
           \<and> (\<exists>rest. Message c = prefix @ fmt_int ?n @ '': '' @ errorText err @ rest)"
    using statusSent_condition [of E ?c "setRetry ?n x" "world s"] by (auto simp: condition_def)
  ultimately show ?thesis
    using r(2) by (simp only: retryDelay_BaseDelay [OF set]) blast
qed

theorem import_failure_schedule_witness:
  "\<exists>y es. trace (snd (retryLater (importEnv False) BaseDelay ''Processed'' ''r'' ''p '' refused (exampleIst (exampleImport 0 []))))
     = Now # StatusImport y # es \<and> iRetryCount (iStatus y) = 1"
proof -
  let ?x = "exampleImport 0 []"
  obtain r s' where run: "retryLater (importEnv False) BaseDelay ''Processed'' ''r'' ''p '' refused (exampleIst ?x) = (r, s')"
    by fastforce
  have "0 \<le>s iRetryCount (iStatus ?x)" "\<not> MaxRetries \<le>s iRetryCount (iStatus ?x)"
    by (simp_all add: MaxRetries_def word_sle_eq)
  with import_failure_schedule [OF exampleIst_simps(1) _ _ run] run show ?thesis by fastforce
qed

text \<open>
  C22. After an import that succeeded, the status that is sent has a retry count of zero and a
  \<open>True\<close> condition of type \<open>Processed\<close>, and the next import is asked for after the scan
  interval of the stored resource.
\<close>

theorem import_success_resets:
  assumes "ImportObj s = Some x" and "ProcessImportSecret E ns ''create'' s = (Done None, s1)"
    and run: "importSecrets E ns s = (r, s')"
  shows "(\<exists>y es. trace s' = trace s1 @ Now # StatusImport y # es \<and> iRetryCount (iStatus y) = 0 \<and> iAzureKV y = iAzureKV x
      \<and> (\<exists>c \<in> set (iConditions (iStatus y)). CondType c = ''Processed'' \<and> CondStatus c = ConditionTrue))
    \<and> (\<forall>res. r = Done (res, None) \<longrightarrow> (\<exists>z. ImportObj s' = Some z \<and> RequeueAfter res = ScanInterval (iAzureKV z) * Minute))"
proof -
  have x1: "ImportObj s1 = Some x" using keepsD [OF keeps_obj_process assms(1,2)] .
  let ?c = "condition ''Processed'' ConditionTrue ''CertificateProcessingSucceeded'' ''Secret sync processed successfully''"
  let ?s2 = "s1\<lparr>ImportObj := Some (setRetry 0 x)\<rparr>"
  obtain q s3 where upd: "updateStatusWithCondition E ?c ?s2 = (q, s3)" by fastforce
  have r: "s' = s3" and res: "\<And>res. r = Done (res, None) \<Longrightarrow> q = Done (res, None)"
    using run assms(1,2) x1 upd
    by (auto simp: importSecrets_def run_andThen [of theImport] run_theImport run_andThen [of "ProcessImportSecret a b c" for a b c]
        run_andThen [of "setImport y" for y] run_setImport run_andThen [of "updateStatusWithCondition a b" for a b] run_ret
        split: outcome.splits option.splits)
  have x2: "ImportObj ?s2 = Some (setRetry 0 x)" by simp
  let ?y = "statusSent E ?c (setRetry 0 x) (world s1)"
  from upd obtain es where "trace s' = trace s1 @ Now # StatusImport ?y # es"
    by (rule updateStatus_begins [OF x2]) (auto simp: r)
  moreover have "iRetryCount (iStatus ?y) = 0" "iAzureKV ?y = iAzureKV x" by (simp_all add: setRetry_def)
  moreover have "\<exists>c \<in> set (iConditions (iStatus ?y)). CondType c = ''Processed'' \<and> CondStatus c = ConditionTrue"
    using statusSent_condition [of E ?c "setRetry 0 x" "world s1"] by (auto simp: condition_def)
  moreover have "\<exists>z. ImportObj s' = Some z \<and> RequeueAfter res = ScanInterval (iAzureKV z) * Minute" if "r = Done (res, None)" for res
    using updateStatus_result [OF x2] upd res [OF that] r by blast
  ultimately show ?thesis by blast
qed

theorem import_success_resets_witness:
  "\<exists>y. StatusImport y \<in> set (trace (snd (importSecrets (importEnv False) ''n'' (exampleIst (exampleImport 3 [])))))
     \<and> iRetryCount (iStatus y) = 0"
proof -
  let ?x = "exampleImport 3 []" and ?E = "importEnv False"
  have "fst (ProcessImportSecret ?E ''n'' ''create'' (exampleIst ?x)) = Done None"
    by code_simp
  then obtain s1 where p: "ProcessImportSecret ?E ''n'' ''create'' (exampleIst ?x) = (Done None, s1)"
    by (metis prod.collapse)
  obtain r s' where run: "importSecrets ?E ''n'' (exampleIst ?x) = (r, s')" by fastforce
  from import_success_resets [OF exampleIst_simps(1) p run] run show ?thesis by fastforce
qed

text \<open>
  C23. When the update of the status is refused because the resource has changed, the outcome
  is lost: the resource is read again and written back as it was read, without the condition
  and without the new retry count, while the event and the result report the outcome.
\<close>

theorem status_conflict_loses_outcome:
  assumes x: "ImportObj s = Some x"
    and "fst (status_import (env_kube E) (statusSent E cond x (world s)) (snd (time_now (env_kube E) (world s)))) = Inl e"
    and "fst (get_import (env_kube E) (importKey x) (afterSent E cond x (world s))) = Inr y"
    and "fst (status_import (env_kube E) y (snd (get_import (env_kube E) (importKey x) (afterSent E cond x (world s))))) = Inr z"
  shows "\<exists>a b c s'. updateStatusWithCondition E cond s = (Done (\<lparr>RequeueAfter = ScanInterval (iAzureKV z) * Minute\<rparr>, None), s')
    \<and> Reason c = Reason cond \<and> Message c = Message cond
    \<and> trace s' = trace s @ [Now, StatusImport (statusSent E cond x (world s)), GetImport (importKey x), StatusImport y,
        Now, Now, CreateEvent (importEvent z c a b)]"
proof -
  let ?y = "statusSent E cond x (world s)"
  let ?c = "cond\<lparr>LastTransitionTime := fst (time_now (env_kube E) (world s))\<rparr>"
  let ?s1 = "s\<lparr>ImportObj := Some ?y, trace := trace s @ [Now, StatusImport ?y], world := afterSent E cond x (world s)\<rparr>"
  have key: "importKey ?y = importKey x" by (simp add: importKey_def)
  obtain s2 where s2: "retryStatus E ?y ?s1 = (Done None, s2)" and z: "ImportObj s2 = Some z"
    and tr: "trace s2 = trace s @ [Now, StatusImport ?y, GetImport (importKey x), StatusImport y]"
    using assms(3,4) by (simp add: retryStatus_run key)
  obtain a b w where fin: "finishStatus E ?c s2 = (Done (\<lparr>RequeueAfter = ScanInterval (iAzureKV z) * Minute\<rparr>, None),
      s2\<lparr>trace := trace s2 @ [Now, Now, CreateEvent (importEvent z ?c a b)], world := w\<rparr>)"
    by (rule finishStatus_run [OF z])
  have "updateStatusWithCondition E cond s = finishStatus E ?c s2"
    by (simp add: updateStatus_run [OF x] assms(2) run_andThen [of "retryStatus a b" for a b] s2)
  with fin tr show ?thesis by (intro exI [of _ a] exI [of _ b] exI [of _ ?c]) auto
qed

theorem status_conflict_loses_outcome_witness:
  "\<exists>a b c s'. updateStatusWithCondition (importEnv True) terminalCondition (exampleIst (exampleImport 5 []))
     = (Done (\<lparr>RequeueAfter = 10 * Minute\<rparr>, None), s') \<and> iConditions (iStatus (world s')) = []
     \<and> CreateEvent (importEvent (exampleImport 5 []) c a b) \<in> set (trace s') \<and> Reason c = ''MaxRetriesReached''"
proof -
  let ?x = "exampleImport 5 []" and ?E = "importEnv True"
  have first: "fst (status_import (env_kube ?E) (statusSent ?E terminalCondition ?x (world (exampleIst ?x)))
      (snd (time_now (env_kube ?E) (world (exampleIst ?x))))) = Inl (PlainError ''conflict'')"
    and w: "afterSent ?E terminalCondition ?x (world (exampleIst ?x)) = ?x"
    by (simp_all add: importEnv_def importKube_def statusSent_def withCondition_def setCondition_def afterSent_def offlineKube_def)
  have get: "fst (get_import (env_kube ?E) (importKey ?x) ?x) = Inr ?x" "snd (get_import (env_kube ?E) (importKey ?x) ?x) = ?x"
    and put: "fst (status_import (env_kube ?E) ?x ?x) = Inr ?x"
    by (simp_all add: importEnv_def importKube_def)
  have "iConditions (iStatus (world (snd (updateStatusWithCondition ?E terminalCondition (exampleIst ?x))))) = []"
    by code_simp
  with status_conflict_loses_outcome [OF exampleIst_simps(1) first, unfolded w, OF get(1), unfolded get(2), OF put]
  show ?thesis by (fastforce simp: exampleImport_def terminalCondition_def condition_def)
qed

end
