(* ===== verification/Import_Safety.thy ===== *)
theory Import_Safety
  imports Import_Sync Import_Lifecycle
begin

text \<open>
  What no reconciliation of the import controller does, whatever its outcome: a Kubernetes
  secret that exists never gets a new value or a new key. The invariant is carried through
  every path, those that end in an error or a panic included.
\<close>

section \<open>Hypotheses\<close>

text \<open>
  The stored secrets of the cluster are changed by requests that write secrets only; a
  deletion deletes the secret it names, or nothing.
\<close>

definition secKey :: "K8sSecret \<Rightarrow> string \<times> string" where
  "secKey x = (Namespace (secMeta x), Name (secMeta x))"

definition guards_secrets :: "'w env \<Rightarrow> ('w \<Rightarrow> string \<times> string \<Rightarrow> (string \<rightharpoonup> bytes) option) \<Rightarrow> bool" where
  "guards_secrets E secrets \<longleftrightarrow> stable_env E secrets \<and> serves_secrets (env_kube E) secrets
   \<and> (\<forall>n w. secrets (snd (list_imports (env_kube E) n w)) = secrets w)
   \<and> (\<forall>k w. secrets (snd (get_import (env_kube E) k w)) = secrets w)
   \<and> (\<forall>x w. secrets (snd (update_import (env_kube E) x w)) = secrets w)
   \<and> (\<forall>x w. secrets (snd (status_import (env_kube E) x w)) = secrets w)
   \<and> (\<forall>x w. secrets (snd (create_event (env_kube E) x w)) = secrets w)
   \<and> (\<forall>w. secrets (snd (time_stamp (env_kube E) w)) = secrets w)
   \<and> (\<forall>ks w. secrets (snd (range_order (env_kube E) ks w)) = secrets w)
   \<and> (\<forall>x w. secrets (snd (delete_secret (env_kube E) x w)) = secrets w
        \<or> secrets (snd (delete_secret (env_kube E) x w)) = (secrets w)(secKey x := None))"

lemma guardsD:
  assumes "guards_secrets E secrets"
  shows "stable_env E secrets" "stable_kube (env_kube E) secrets" "serves_secrets (env_kube E) secrets"
    "secrets (snd (list_imports (env_kube E) n w)) = secrets w" "secrets (snd (get_import (env_kube E) k w)) = secrets w"
    "secrets (snd (update_import (env_kube E) x w)) = secrets w" "secrets (snd (status_import (env_kube E) x w)) = secrets w"
    "secrets (snd (create_event (env_kube E) ev w)) = secrets w" "secrets (snd (time_stamp (env_kube E) w)) = secrets w"
    "secrets (snd (range_order (env_kube E) ks w)) = secrets w"
    "secrets (snd (delete_secret (env_kube E) y w)) = secrets w
      \<or> secrets (snd (delete_secret (env_kube E) y w)) = (secrets w)(secKey y := None)"
  using assms stableD(1) unfolding guards_secrets_def by blast+

section \<open>The invariant\<close>

text \<open>
  The secret \<open>key\<close> holds some of the values \<open>old\<close> and nothing else; with \<open>gone\<close> it may also
  have been deleted.
\<close>

definition within :: "'w env \<Rightarrow> ('w \<Rightarrow> string \<times> string \<Rightarrow> (string \<rightharpoonup> bytes) option) \<Rightarrow> string \<times> string \<Rightarrow>
    (string \<rightharpoonup> bytes) \<Rightarrow> bool \<Rightarrow> ('w, 'z) cst_scheme \<Rightarrow> bool" where
  "within E secrets key old gone s \<longleftrightarrow>
     (case secrets (world s) key of None \<Rightarrow> gone | Some new \<Rightarrow> new \<subseteq>\<^sub>m old)
   \<and> (\<forall>k. AkvClient s = Some k \<longrightarrow> (\<exists>token. Client k = NewAzureKeyVaultClient (env_http E) token))"

interpretation wif: framed_invariant secrets "within E secrets key old gone" for E secrets key old gone
  by unfold_locales (simp add: within_def)

lemma within_gone: "within E secrets key old gone s \<Longrightarrow> within E secrets key old True s"
  by (auto simp: within_def split: option.splits)

lemma keeps_within_onAkv:
  assumes "\<And>v. keeps (kvgood E secrets v) m"
  shows "keeps (within E secrets key old gone) (onAkv m)"
  unfolding onAkv_def
proof (rule keeps_zoom)
  fix s :: "('a, 'd) cst_scheme" and t r t'
  assume s: "within E secrets key old gone s"
    and t: "map_option (\<lambda>k. \<lparr>trace = trace s, world = world s, kv = k\<rparr>) (AkvClient s) = Some t" and run: "m t = (r, t')"
  from s t have "kvgood E secrets (secrets (world s)) t" by (auto simp: within_def kvgood_def)
  from keepsD [OF assms this run] s show "within E secrets key old gone (s\<lparr>trace := trace t', world := world t', AkvClient := Some (kv t')\<rparr>)"
    by (simp add: within_def kvgood_def)
qed

lemma keeps_within_set:
  "keeps (within E secrets key old gone) theImport" "keeps (within E secrets key old gone) (setImport x)"
  "keeps (within E secrets key old gone) (setAkvClient E auth url)"
  "stable_env E secrets \<Longrightarrow> keeps (within E secrets key old gone) (setKubeClient E)"
  by (auto simp: theImport_def setImport_def setAkvClient_def setKubeClient_def within_def
      intro!: go_keeps wif.keeps_kube stableD)

lemma keeps_within_calls:
  assumes "guards_secrets E secrets"
  shows "keeps (within E secrets key old gone) (kListImports (env_kube E) n)"
    "keeps (within E secrets key old gone) (kGetImport (env_kube E) k)"
    "keeps (within E secrets key old gone) (kUpdateImport (env_kube E) x)"
    "keeps (within E secrets key old gone) (kStatusImport (env_kube E) x)"
    "keeps (within E secrets key old gone) (kCreateEvent (env_kube E) ev)"
    "keeps (within E secrets key old gone) (timeStamp (env_kube E))"
    "keeps (within E secrets key old gone) (rangeOrder (env_kube E) ks)"
  unfolding call_defs by (intro wif.keeps_request guardsD [OF assms])+

lemma keeps_within_delete:
  assumes "guards_secrets E secrets"
  shows "keeps (within E secrets key old True) (kDeleteSecret (env_kube E) x)"
  unfolding kDeleteSecret_def
proof (rule keeps_call)
  fix s :: "('a, 'd) cst_scheme"
  assume "within E secrets key old True s"
  with guardsD(11) [OF assms, of x "world s"]
  show "within E secrets key old True (s\<lparr>trace := trace s @ [DeleteK8sSecret x], world := snd (delete_secret (env_kube E) x (world s))\<rparr>)"
    by (auto simp: within_def split: if_splits)
qed

section \<open>Creating and patching\<close>

text \<open>
  \<open>CreateOrPatchK8sSecret\<close> on every outcome: an existing secret is not created again, and the
  patch holds nulls only.
\<close>

lemma keeps_akv_CreateOrPatch: "keeps (\<lambda>s. AkvClient s = v) (CreateOrPatchK8sSecret K name data ns)"
proof -
  have c: "keeps (\<lambda>s. AkvClient s = v) (call e f)" for e f by (rule keeps_call) simp
  show ?thesis
    unfolding CreateOrPatchK8sSecret_def mergeData_def csGetSecret_def csCreateSecret_def csPatchSecret_def
    by (intro go_keeps c)
qed

lemma keeps_within_CreateOrPatch:
  assumes server: "serves_secrets (env_kube E) secrets" and data: "distinct (map fst data)"
  shows "keeps (within E secrets key old False) (CreateOrPatchK8sSecret (env_kube E) name data ns)"
proof (rule keepsI)
  fix s r s'
  assume s: "within E secrets key old False s"
    and run: "CreateOrPatchK8sSecret (env_kube E) name data ns s = (r, s')"
  from s obtain m where m: "secrets (world s) key = Some m" "m \<subseteq>\<^sub>m old" by (auto simp: within_def split: option.splits)
  have akv: "AkvClient s' = AkvClient s"
    using keepsD [OF keeps_akv_CreateOrPatch _ run] by blast
  obtain q w where get: "cs_get_secret (env_kube E) ns name (world s) = (q, w)" by fastforce
  with server have w: "secrets w = secrets (world s)" by (rule serves_getD)
  have "\<exists>m'. secrets (world s') key = Some m' \<and> m' \<subseteq>\<^sub>m old"
  proof (cases q)
    case (Inl e)
    show ?thesis
    proof (cases "IsNotFound e")
      case True
      have "secrets (world s) (ns, name) = None"
        by (rule serves_getD(2) [OF server get Inl True])
      with m have ne: "key \<noteq> (ns, name)" by auto
      obtain q2 w2 where cr: "cs_create_secret (env_kube E) ns (tlsSecret name ns data) w = (q2, w2)" by fastforce
      with run get Inl True have "world s' = w2" by (auto simp: CreateOrPatch_absent)
      with serves_createD [OF server cr] ne m w show ?thesis by (auto simp: tlsSecret_def split: if_splits)
    next
      case False
      with run get Inl have "world s' = w" by (auto simp: CreateOrPatchK8sSecret_def call_defs go_run)
      with m w show ?thesis by simp
    qed
  next
    case (Inr x)
    from serves_getD(3) [OF server get Inr]
    have stored: "secrets (world s) (ns, name) = Some (map_of (mapData (Data x)))" and d: "distinct (map fst (mapData (Data x)))"
      by blast+
    show ?thesis
    proof (cases "Data x")
      case None
      with run get Inr have "world s' = w"
        by (cases "data = []") (auto simp: CreateOrPatchK8sSecret_def mergeData_def call_defs go_run equalData_def mapData_def)
      then show ?thesis using m w by auto
    next
      case (Some d')
      let ?p = "CreateTwoWayMergePatch (mergedData d' data) data"
      obtain q2 w2 where pt: "cs_patch_secret (env_kube E) ns name ?p w = (q2, w2)" by fastforce
      have "world s' = w \<or> world s' = w2"
        using run CreateOrPatch_existing [OF _ Some _ data, of "env_kube E" ns name s w] get Inr d Some pt
        by (auto simp: mapData_def Let_def split: if_splits)
      moreover have "\<exists>m'. secrets w2 key = Some m' \<and> m' \<subseteq>\<^sub>m old"
      proof (cases "q2 = None \<and> key = (ns, name)")
        case True
        with serves_patchD [OF server pt] w stored Some
        have "secrets w2 key = Some (map_of d' |` (fst ` set data))"
          by (simp add: mapData_def apply_patch_of_merged [OF data])
        moreover have "map_of d' = m" using True m(1) stored Some by (simp add: mapData_def)
        ultimately show ?thesis using m(2) by (auto simp: map_le_def restrict_map_def split: if_splits)
      next
        case False
        with serves_patchD [OF server pt] w m show ?thesis by (auto split: if_splits)
      qed
      ultimately show ?thesis using m w by auto
    qed
  qed
  then show "within E secrets key old False s'" using s akv by (auto simp: within_def)
qed

section \<open>A whole reconciliation\<close>

lemma fetchKey_distinct:
  "distinct (map fst m) \<Longrightarrow> fetchKey keys key m s = (Done (Inr m'), s') \<Longrightarrow> distinct (map fst m')"
  by (auto simp: fetchKey_def takeValue_def run_andThen run_ret distinct_update
      split: option.splits prod.splits outcome.splits if_splits)

lemma fetchKeys_distinct:
  "distinct (map fst m) \<Longrightarrow> forAcc order m (fetchKey keys) s = (Done (Inr m'), s') \<Longrightarrow> distinct (map fst m')"
proof (induction order arbitrary: m s)
  case (Cons key order)
  from Cons.prems(2) obtain m1 s1 where "fetchKey keys key m s = (Done (Inr m1), s1)"
    and rest: "forAcc order m1 (fetchKey keys) s1 = (Done (Inr m'), s')"
    by (auto simp: run_andThen run_ret split: prod.splits outcome.splits sum.splits)
  with fetchKey_distinct Cons.prems(1) have "distinct (map fst m1)" by blast
  from Cons.IH [OF this rest] show ?case .
qed (simp add: run_ret)

lemma keeps_within_fetchKey:
  assumes "guards_secrets E secrets"
  shows "keeps (within E secrets key old gone) (fetchKey keys k m)"
  unfolding fetchKey_def takeValue_def
  by (intro go_keeps keeps_within_onAkv keeps_kvgood_ops keeps_kvgood_secret guardsD(1) [OF assms])

lemma keeps_within_createSecret:
  assumes g: "guards_secrets E secrets"
  shows "keeps (within E secrets key old False) (createSecret E ns name keys)"
proof (rule keepsI)
  fix s :: "'a ist" and r s'
  let ?I = "within E secrets key old False :: 'a ist \<Rightarrow> bool" and ?m = "forAcc (fst (range_order (env_kube E) (map fst keys) (world s))) [] (fetchKey keys)"
  assume s: "?I s" and run: "createSecret E ns name keys s = (r, s')"
  let ?s1 = "s\<lparr>trace := trace s @ [RangeMap (map fst keys)], world := snd (range_order (env_kube E) (map fst keys) (world s))\<rparr>"
  have s1: "?I ?s1" using keepsD [OF keeps_within_calls(7) [OF g] s rangeOrder_run] .
  obtain q s2 where loop: "?m ?s1 = (q, s2)" by fastforce
  have s2: "?I s2" using keepsD [OF keeps_forAcc [OF keeps_within_fetchKey [OF g]] s1 loop] .
  note start = run_andThen [of "rangeOrder K ks" for K ks] rangeOrder_run run_andThen [of "forAcc a b c" for a b c]
  show "?I s'"
  proof (cases "\<exists>m. q = Done (Inr m)")
    case True
    then obtain m where q: "q = Done (Inr m)" by blast
    let ?data = "ensureKey ''tls.crt'' (ensureKey ''tls.key'' m)"
    have "distinct (map fst m)" by (rule fetchKeys_distinct [OF _ loop [unfolded q]]) simp
    then have d: "distinct (map fst ?data)" by (intro distinct_ensureKey)
    obtain p s3 where put: "CreateOrPatchK8sSecret (env_kube E) name ?data ns s2 = (p, s3)" by fastforce
    have "s' = s3"
      using run loop q put
      by (auto simp: createSecret_def start run_andThen [of "CreateOrPatchK8sSecret a b c d" for a b c d] run_ret
          Let_def split: outcome.splits option.splits)
    with keepsD [OF keeps_within_CreateOrPatch [OF guardsD(3) [OF g] d] s2 put] show ?thesis by simp
  next
    case False
    with run loop have "s' = s2"
      by (auto simp: createSecret_def start run_ret Let_def split: outcome.splits sum.splits)
    with s2 show ?thesis by simp
  qed
qed

lemma keeps_within_processing:
  assumes g: "guards_secrets E secrets"
  shows "keeps (within E secrets key old False) (ProcessImportSecret E ns ''create'')"
    "keeps (within E secrets key old True) (ProcessImportSecret E ns ''delete'')"
proof -
  have del: "keeps (within E secrets key old True) (deleteSecret E x)" for x
    unfolding deleteSecret_def deleteAttempt_def
    by (intro go_keeps keeps_within_delete [OF g] wif.keeps_kube guardsD(2) [OF g])
  show "keeps (within E secrets key old False) (ProcessImportSecret E ns ''create'')"
    unfolding ProcessImportSecret_def processGroup_def Let_def
    by (auto intro!: go_keeps keeps_within_onAkv keeps_kvgood_secret keeps_within_set keeps_within_calls [OF g]
        wif.keeps_kube guardsD(2) [OF g] keeps_within_createSecret [OF g] split: option.split)
  show "keeps (within E secrets key old True) (ProcessImportSecret E ns ''delete'')"
    unfolding ProcessImportSecret_def processGroup_def Let_def
    by (auto intro!: go_keeps keeps_within_onAkv keeps_kvgood_secret keeps_within_set keeps_within_calls [OF g]
        wif.keeps_kube guardsD(2) [OF g] del split: option.split)
qed

lemma keeps_within_status:
  assumes g: "guards_secrets E secrets"
  shows "keeps (within E secrets key old gone) (updateStatusWithCondition E cond)"
    "keeps (within E secrets key old gone) (retryLater E base ty reason prefix err)"
    "keeps (within E secrets key old gone) (addImportFinalizer E)" "keeps (within E secrets key old gone) (removeFinalizer E)"
proof -
  show status: "keeps (within E secrets key old gone) (updateStatusWithCondition E cond)" for cond
    unfolding updateStatusWithCondition_def retryStatus_def finishStatus_def createEvent_def Let_def
    by (intro go_keeps keeps_within_set keeps_within_calls [OF g] wif.keeps_kube guardsD(2) [OF g])
  show "keeps (within E secrets key old gone) (retryLater E base ty reason prefix err)"
    unfolding retryLater_def shiftSigned_def Let_def
    by (intro go_keeps keeps_within_set status)
  show "keeps (within E secrets key old gone) (addImportFinalizer E)" "keeps (within E secrets key old gone) (removeFinalizer E)"
    unfolding addImportFinalizer_def removeFinalizer_def writeImport_def
    by (intro go_keeps keeps_within_set keeps_within_calls [OF g])+
qed

lemma keeps_within_branches:
  assumes g: "guards_secrets E secrets"
  shows "keeps (within E secrets key old False) (importSecrets E ns)" "keeps (within E secrets key old True) (finalize E ns)"
  unfolding importSecrets_def finalize_def
  by (intro go_keeps keeps_within_set keeps_within_status [OF g] keeps_within_processing [OF g])+

lemma within_reconcileImport:
  assumes g: "guards_secrets E secrets" and s: "within E secrets key old False s" and x: "ImportObj s = Some x"
    and run: "reconcileImportCertificateSecret E req s = (r, s')"
  shows "within E secrets key old (DeletionTimestamp (iMeta x) \<noteq> None) s'"
proof -
  let ?gone = "DeletionTimestamp (iMeta x) \<noteq> None"
  have s0: "within E secrets key old ?gone s" using s by (cases ?gone) (auto dest: within_gone)
  have branches: "?gone = False \<Longrightarrow> keeps (within E secrets key old ?gone) (importSecrets E ns)"
    "?gone = True \<Longrightarrow> keeps (within E secrets key old ?gone) (finalize E ns)" for ns
    by (simp_all only: keeps_within_branches [OF g])
  note rules = go_keeps keeps_within_set keeps_within_status [OF g] wif.keeps_kube wif.keeps_auth guardsD [OF g]
  from run [unfolded reconcileImportCertificateSecret_def Let_def] x show ?thesis
    apply (simp only: run_andThen [of theImport] run_theImport option.case outcome.case prod.case)
    apply (erule keepsD [rotated 2, where I = "within E secrets key old ?gone"])
     apply (intro rules branches; simp)
    apply (rule s0)
    done
qed

lemma keeps_within_reconcileSecret:
  assumes g: "guards_secrets E secrets"
  shows "keeps (within E secrets key old gone) (reconcileSecret E req sec)"
  unfolding reconcileSecret_def AddAnnotationToImportCertificateSecret_def
  by (intro go_keeps keeps_within_calls [OF g])

lemma ImportReconcile_else:
  assumes "\<nexists>x. importFinds E req (world s) x"
  obtains m where "ImportReconcile E req s = m s"
    and "guards_secrets E secrets \<Longrightarrow> keeps (within E secrets key old False) m"
proof
  let ?m = "seq (setImport emptyImport)
     (andThen (kGetCRD (env_kube E) IMPORT_CERT_SECRET_CRD) (\<lambda>r. case r of
        Inl err \<Rightarrow> if IsNotFound err then ret (emptyResult, None) else ret (emptyResult, Some err)
      | Inr crd \<Rightarrow>
          if DeletionTimestamp (crdMeta crd) \<noteq> None
          then andThen (RemoveFinalizers (env_kube E) TImportCertificateSecretList) (\<lambda>err. ret (emptyResult, err))
          else
            andThen (kGetImport (env_kube E) req) (\<lambda>r.
                andThen (kGetSecret (env_kube E) req) (\<lambda>r. case r of
                  Inr secret \<Rightarrow> reconcileSecret E req (Some secret)
                | Inl err \<Rightarrow> if IsNotFound err then reconcileSecret E req None else ret (emptyResult, Some err)))))"
  show "ImportReconcile E req s = ?m s"
    using assms
    by (auto simp: importFinds_def afterCrd_def ImportReconcile_def run_andThen [of "setImport y" for y] run_setImport
        kGetCRD_def kGetImport_def run_andThen [of "call e f" for e f] run_call split: sum.split)
  show "keeps (within E secrets key old False) ?m" if g: "guards_secrets E secrets"
    by (auto simp: RemoveFinalizers_def intro!: go_keeps keeps_within_set keeps_within_calls [OF g] wif.keeps_kube guardsD(2) [OF g]
        keeps_within_reconcileSecret [OF g])
qed

section \<open>An example\<close>

text \<open>The world of two parts again, with the requests of a whole reconciliation.\<close>

definition liveKube :: "(vault_view \<times> secret_store) kube" where
  "liveKube = splitKube
     \<lparr>get_crd := \<lambda>_ w. (Inr \<lparr>crdMeta = emptyMeta\<rparr>, w),
      get_import := \<lambda>_ w. (Inr (syncImport [caseRef ''tls.crt'' ''Web'']), w),
      update_import := \<lambda>x w. (Inr x, w), status_import := \<lambda>x w. (Inr x, w),
      get_service_account := \<lambda>_ w. (Inr exampleServiceAccount, w),
      cs_create_token := \<lambda>_ _ _ w. (Inr ''jwt'', w)\<rparr>"

definition liveEnv :: "(vault_view \<times> secret_store) env" where
  "liveEnv = splitEnv\<lparr>env_kube := liveKube\<rparr>"

definition liveState :: "vault_view \<Rightarrow> secret_store \<Rightarrow> (vault_view \<times> secret_store) ist" where
  "liveState vault secrets = \<lparr>trace = [], world = (vault, secrets), AkvClient = None, KubeClient = False, ImportObj = None\<rparr>"

lemma liveEnv_guards: "guards_secrets liveEnv storedSecrets"
proof -
  have "serves_secrets liveKube storedSecrets"
    using splitEnv_secrets by (simp add: serves_secrets_def splitEnv_def liveKube_def)
  moreover have "stable_env liveEnv storedSecrets"
    by (simp add: stable_env_def stable_kube_def stable_os_def liveEnv_def liveKube_def splitEnv_def splitKube_def offlineKube_def
        splitHttp_def storedSecrets_def exampleOs_def exampleMsal_def fun_eq_iff)
  ultimately show ?thesis
    by (simp add: guards_secrets_def liveEnv_def liveKube_def splitKube_def offlineKube_def)
qed

lemma liveEnv_import: "importFinds liveEnv req w x \<Longrightarrow> DeletionTimestamp (iMeta x) = None"
  by (auto simp: importFinds_def liveEnv_def liveKube_def syncImport_def emptyMeta_def)

section \<open>Properties\<close>

text \<open>
  C3. No reconciliation of the import controller, whatever its outcome, gives a Kubernetes
  secret that exists a new value or a new key: afterwards it holds some of the values it held,
  or it is gone, and that only if the reconciled resource is being deleted. So a certificate
  that is renewed in the vault does not reach a cluster that has imported it before.
\<close>

theorem import_never_updates:
  assumes "guards_secrets E secrets" and "secrets (world s) key = Some old"
    and "\<forall>k. AkvClient s = Some k \<longrightarrow> (\<exists>token. Client k = NewAzureKeyVaultClient (env_http E) token)"
    and run: "ImportReconcile E req s = (r, s')"
  shows "case secrets (world s') key of
      Some new \<Rightarrow> new \<subseteq>\<^sub>m old
    | None \<Rightarrow> \<exists>x. importFinds E req (world s) x \<and> DeletionTimestamp (iMeta x) \<noteq> None"
proof (cases "\<exists>x. importFinds E req (world s) x")
  case True
  then obtain x where x: "importFinds E req (world s) x" by blast
  let ?s1 = "s\<lparr>trace := trace s @ [GetCRD IMPORT_CERT_SECRET_CRD, GetImport req],
       world := snd (get_import (env_kube E) req (afterCrd E (world s))), ImportObj := Some x\<rparr>"
  have "secrets (world ?s1) = secrets (world s)"
    using guardsD(2,5) [OF assms(1)] by (simp add: afterCrd_def stable_kube_def)
  with assms(2,3) have "within E secrets key old False ?s1" by (simp add: within_def)
  from within_reconcileImport [OF assms(1) this _ run [unfolded ImportReconcile_found [OF x]]]
  have "within E secrets key old (DeletionTimestamp (iMeta x) \<noteq> None) s'" by simp
  with x show ?thesis by (auto simp: within_def split: option.splits)
next
  case False
  obtain m where eq: "ImportReconcile E req s = m s" and m: "keeps (within E secrets key old False) m"
    by (rule ImportReconcile_else [OF False]) (use assms(1) in blast)
  have "within E secrets key old False s" using assms(2,3) by (simp add: within_def)
  from keepsD [OF m this] run eq have "within E secrets key old False s'" by simp
  then show ?thesis by (simp add: within_def split: option.splits)
qed

theorem import_never_updates_witness:
  "\<exists>new. storedSecrets (world (snd (ImportReconcile liveEnv (importKey (syncImport []))
      (liveState [(''u'', ''web'') \<mapsto> ''-renewed-''] [(''prod'', ''web-tls'') \<mapsto> [(''tls.crt'', ''-old-'')]]))))
    (''prod'', ''web-tls'') = Some new \<and> new \<subseteq>\<^sub>m [''tls.crt'' \<mapsto> ''-old-'']"
proof -
  let ?s = "liveState [(''u'', ''web'') \<mapsto> ''-renewed-''] [(''prod'', ''web-tls'') \<mapsto> [(''tls.crt'', ''-old-'')]]"
  obtain r s' where run: "ImportReconcile liveEnv (importKey (syncImport [])) ?s = (r, s')" by fastforce
  have "storedSecrets (world ?s) (''prod'', ''web-tls'') = Some [''tls.crt'' \<mapsto> ''-old-'']" "AkvClient ?s = None"
    by (simp_all add: liveState_def storedSecrets_def)
  with import_never_updates [OF liveEnv_guards _ _ run]
  have "case storedSecrets (world s') (''prod'', ''web-tls'') of Some new \<Rightarrow> new \<subseteq>\<^sub>m [''tls.crt'' \<mapsto> ''-old-'']
    | None \<Rightarrow> \<exists>x. importFinds liveEnv (importKey (syncImport [])) (world ?s) x \<and> DeletionTimestamp (iMeta x) \<noteq> None"
    by simp
  then show ?thesis unfolding run snd_conv by (auto dest: liveEnv_import split: option.splits)
qed

end
