(* ===== verification/Import_Flow.thy ===== *)
theory Import_Flow
  imports Import_Safety
begin

text \<open>
  Whole reconciliations of the import controller: when the event that a reconciliation records
  says that the import has succeeded, the secrets of the cluster are what the vault and the
  references determine.
\<close>

section \<open>Requests that report or write\<close>

text \<open>The event of a success, and the creation of a secret.\<close>

fun reportsSuccess :: "effect \<Rightarrow> bool" where
  "reportsSuccess (CreateEvent ev) = (evReason ev = ''CertificateProcessingSucceeded'')"
| "reportsSuccess _ = False"

lemma reportsSuccessE:
  assumes "reportsSuccess e"
  obtains ev where "e = CreateEvent ev" and "evReason ev = ''CertificateProcessingSucceeded''"
  using assms by (cases e) auto

fun createsSecret :: "effect \<Rightarrow> bool" where
  "createsSecret (ClientsetCreateSecret ns x) = True"
| "createsSecret _ = False"

text \<open>All other requests; a method is \<open>silent\<close> when it makes no other.\<close>

definition tame :: "effect \<Rightarrow> bool" where
  "tame e \<longleftrightarrow> \<not> reportsSuccess e \<and> \<not> createsSecret e"

abbreviation silent :: "(('w, 'z) st_scheme, 'a) go \<Rightarrow> bool" where
  "silent \<equiv> adds tame"

lemma silent_status: "Reason cond \<noteq> ''CertificateProcessingSucceeded'' \<Longrightarrow> silent (updateStatusWithCondition E cond)"
  unfolding updateStatusWithCondition_def retryStatus_def finishStatus_def createEvent_def call_defs Let_def
  by (intro go_adds adds_theImport; simp add: importEvent_def tame_def)

lemma silent_retryLater: "reason \<noteq> ''CertificateProcessingSucceeded'' \<Longrightarrow> silent (retryLater E base ty reason prefix err)"
  unfolding retryLater_def shiftSigned_def Let_def
  by (intro go_adds adds_theImport silent_status; simp add: condition_def)

lemma adds_forAcc: "(\<And>x a. adds P (body x a)) \<Longrightarrow> adds P (forAcc xs a body)"
  by (induction xs arbitrary: a) (auto intro!: go_adds)

lemma silent_fetchKey: "silent (fetchKey keys k m)"
  unfolding fetchKey_def takeValue_def CheckKVSecretExistence_def setName_def setBundle_def theSecret_def setKvSecret_def
    kvCall_def logAndReturn_def Let_def
  by (intro go_adds; simp add: tame_def)

text \<open>The parts that \<open>ProcessImportSecret\<close> is made of, for requests that include the creations.\<close>

lemma adds_CreateOrPatch:
  assumes "\<And>e. tame e \<Longrightarrow> P e" and "P (ClientsetCreateSecret ns (tlsSecret n ns d))"
  shows "adds P (CreateOrPatchK8sSecret K n d ns)"
  unfolding CreateOrPatchK8sSecret_def mergeData_def call_defs Let_def
  by (intro go_adds; simp add: assms tame_def)

lemma adds_process_import:
  assumes tame: "\<And>e. tame e \<Longrightarrow> P e" and new: "\<And>n keys. action = ''create'' \<Longrightarrow> adds P (createSecret E ns n keys)"
  shows "adds P (ProcessImportSecret E ns action)"
  unfolding ProcessImportSecret_def processGroup_def deleteSecret_def deleteAttempt_def theSecret_def setKvSecret_def
    call_defs Let_def
  by (intro go_adds adds_theImport new; simp add: tame tame_def)

lemma reports_process: "adds (\<lambda>e. \<not> reportsSuccess e) (ProcessImportSecret E ns action)"
  unfolding createSecret_def Let_def
  by (intro adds_process_import)
    (auto simp: createSecret_def rangeOrder_def tame_def Let_def
      intro!: go_adds adds_forAcc adds_CreateOrPatch adds_mono [OF silent_fetchKey])

lemma silent_delete: "silent (ProcessImportSecret E ns ''delete'')"
  by (rule adds_process_import) simp_all

lemma silent_calls:
  "silent (setKubeClient E)" "silent (kGetServiceAccount K k)" "silent (AuthorizerForWorkloadIdentity K M aza)"
  "silent (addImportFinalizer E)" "silent (removeFinalizer E)" "silent (setImport x)" "silent (setAkvClient E auth url)"
  unfolding setKubeClient_def SetKubeClient_def addImportFinalizer_def removeFinalizer_def writeImport_def setAkvClient_def
    call_defs Let_def
  by (intro go_adds adds_theImport; simp add: tame_def)+

lemma silent_finalize: "silent (finalize E ns)"
  unfolding finalize_def
  by (intro go_adds adds_theImport silent_delete silent_calls silent_retryLater silent_status)
    (simp_all add: terminalCondition_def condition_def)

section \<open>Hypotheses\<close>

text \<open>The vault and the API server behind an import, and what does not change them.\<close>

definition import_laws :: "'w env \<Rightarrow> ('w \<Rightarrow> vault_view) \<Rightarrow> ('w \<Rightarrow> string \<times> string \<Rightarrow> (string \<rightharpoonup> bytes) option) \<Rightarrow> bool" where
  "import_laws E vault secrets \<longleftrightarrow> guards_secrets E secrets \<and> apart E vault secrets \<and> range_visits_all (env_kube E)
     \<and> (\<forall>token. serves_vault (NewAzureKeyVaultClient (env_http E) token) vault) \<and> stable_kube (env_kube E) vault
     \<and> (\<forall>k w. vault (snd (get_import (env_kube E) k w)) = vault w)
     \<and> (\<forall>x w. vault (snd (update_import (env_kube E) x w)) = vault w)
     \<and> (\<forall>a c t sc w. vault (snd (AcquireTokenByCredential (env_msal E) a c t sc w)) = vault w)
     \<and> (\<forall>x w y. fst (update_import (env_kube E) x w) = Inr y \<longrightarrow> iAzureKV y = iAzureKV x)"

lemma import_lawsD:
  assumes "import_laws E vault secrets"
  shows "guards_secrets E secrets" "apart E vault secrets" "range_visits_all (env_kube E)"
    "serves_vault (NewAzureKeyVaultClient (env_http E) token) vault" "stable_kube (env_kube E) vault"
    "vault (snd (get_import (env_kube E) k w)) = vault w" "vault (snd (update_import (env_kube E) x w)) = vault w"
    "vault (snd (AcquireTokenByCredential (env_msal E) a c t sc w)) = vault w"
    "fst (update_import (env_kube E) x w) = Inr y \<Longrightarrow> iAzureKV y = iAzureKV x"
  using assms by (auto simp: import_laws_def)

section \<open>Honest methods\<close>

text \<open>
  From a state with \<open>I\<close> that was reached by requests in \<open>P\<close>, a method ends in such a state,
  or \<open>Q\<close> holds.
\<close>

definition honest :: "(effect \<Rightarrow> bool) \<Rightarrow> effect list \<Rightarrow> (('w, 'z) st_scheme \<Rightarrow> bool) \<Rightarrow> (('w, 'z) st_scheme, 'a) go \<Rightarrow>
    (('w, 'z) st_scheme \<Rightarrow> bool) \<Rightarrow> bool" where
  "honest P t0 I m Q \<longleftrightarrow> holds (\<lambda>s. I s \<and> told P t0 s) m (\<lambda>_ s'. told P t0 s' \<or> Q s')"

lemma honestI: "(\<And>s r s'. I s \<Longrightarrow> told P t0 s \<Longrightarrow> m s = (r, s') \<Longrightarrow> told P t0 s' \<or> Q s') \<Longrightarrow> honest P t0 I m Q"
  unfolding honest_def by (rule holdsI) blast

lemma honestD: "honest P t0 I m Q \<Longrightarrow> I s \<Longrightarrow> told P t0 s \<Longrightarrow> m s = (r, s') \<Longrightarrow> told P t0 s' \<or> Q s'"
  unfolding honest_def by (drule holdsD) auto

lemma honest_adds: "adds P m \<Longrightarrow> honest P t0 I m Q"
  by (rule honestI) (auto dest: keepsD [OF keeps_told])

text \<open>The requests of the first of two are in \<open>P\<close>; what holds between them may be more than before.\<close>

lemma honest_after:
  assumes "adds P m" and "\<And>s a s'. I s \<Longrightarrow> m s = (Done a, s') \<Longrightarrow> J s'" and "\<And>a. honest P t0 J (f a) Q"
  shows "honest P t0 I (andThen m f) Q"
proof (rule honestI)
  fix s r s'
  assume I: "I s" and q: "told P t0 s" and run: "andThen m f s = (r, s')"
  obtain r1 s1 where m: "m s = (r1, s1)" by fastforce
  from run m keepsD [OF keeps_told [OF assms(1)] q m] assms(2) [OF I] honestD [OF assms(3)] show "told P t0 s' \<or> Q s'"
    by (cases r1) (auto simp: run_andThen)
qed

lemma honest_andThen: "adds P m \<Longrightarrow> keeps I m \<Longrightarrow> (\<And>a. honest P t0 I (f a) Q) \<Longrightarrow> honest P t0 I (andThen m f) Q"
  by (rule honest_after [where J = I]) (auto dest: keepsD)

lemma honest_cases:
  "(b \<Longrightarrow> honest P t0 I m Q) \<Longrightarrow> (\<not> b \<Longrightarrow> honest P t0 I m' Q) \<Longrightarrow> honest P t0 I (if b then m else m') Q"
  "honest P t0 I m Q \<Longrightarrow> (\<And>a. honest P t0 I (f a) Q) \<Longrightarrow> honest P t0 I (case x of None \<Rightarrow> m | Some a \<Rightarrow> f a) Q"
  "(\<And>e. honest P t0 I (g e) Q) \<Longrightarrow> (\<And>a. honest P t0 I (f a) Q) \<Longrightarrow> honest P t0 I (case y of Inl e \<Rightarrow> g e | Inr a \<Rightarrow> f a) Q"
  "(\<And>a b. honest P t0 I (h a b) Q) \<Longrightarrow> honest P t0 I (case z of (a, b) \<Rightarrow> h a b) Q"
  by (simp, cases x, simp_all, cases y, simp_all, cases z, simp)

section \<open>From the resource to the secrets\<close>

text \<open>Before the secrets are processed nothing has changed; then the client is that of the resource.\<close>

definition waits :: "('w \<Rightarrow> vault_view) \<Rightarrow> ('w \<Rightarrow> 'c) \<Rightarrow> vault_view \<Rightarrow> 'c \<Rightarrow> ImportAzureKVProvider \<Rightarrow> 'w ist \<Rightarrow> bool" where
  "waits vault secrets v c p s \<longleftrightarrow> vault (world s) = v \<and> secrets (world s) = c \<and> (\<exists>y. ImportObj s = Some y \<and> iAzureKV y = p)"

definition connected :: "'w env \<Rightarrow> ('w \<Rightarrow> vault_view) \<Rightarrow> ('w \<Rightarrow> 'c) \<Rightarrow> vault_view \<Rightarrow> 'c \<Rightarrow> ImportAzureKVProvider \<Rightarrow> 'w ist \<Rightarrow> bool" where
  "connected E vault secrets v c p s \<longleftrightarrow> waits vault secrets v c p s
     \<and> (\<exists>k token. AkvClient s = Some k \<and> Client k = NewAzureKeyVaultClient (env_http E) token \<and> VaultUrl k = iVaultUrl p)"

interpretation wtf: framed_invariant "\<lambda>w. (vault w, secrets w)" "waits vault secrets v c p" for vault secrets v c p
  by unfold_locales (simp add: waits_def)

lemma keeps_waits:
  assumes "import_laws E vault secrets"
  shows "keeps (waits vault secrets v c p) (setKubeClient E)" "keeps (waits vault secrets v c p) (kGetServiceAccount (env_kube E) k)"
    "keeps (waits vault secrets v c p) (AuthorizerForWorkloadIdentity (env_kube E) (env_msal E) aza)"
proof -
  note laws = import_lawsD [OF assms]
  have kube: "stable_kube (env_kube E) (\<lambda>w. (vault w, secrets w))"
    using laws(5) guardsD(2) [OF laws(1)] by (simp add: stable_kube_def)
  note rules = wtf.keeps_kube [OF kube]
  show "keeps (waits vault secrets v c p) (setKubeClient E)"
    unfolding setKubeClient_def by (intro go_keeps rules) (simp add: waits_def)
  show "keeps (waits vault secrets v c p) (kGetServiceAccount (env_kube E) k)" by (rule rules)
  show "keeps (waits vault secrets v c p) (AuthorizerForWorkloadIdentity (env_kube E) (env_msal E) aza)"
    using laws(8) stableD(4) [OF guardsD(1) [OF laws(1)]] by (intro wtf.keeps_auth_requests kube) simp
qed

lemma keeps_connected_finalizer:
  assumes "import_laws E vault secrets"
  shows "keeps (connected E vault secrets v c p) (addImportFinalizer E)"
proof (rule keepsI)
  fix s r s'
  assume s: "connected E vault secrets v c p s" and run: "addImportFinalizer E s = (r, s')"
  note laws = import_lawsD [OF assms]
  from s obtain y where y: "ImportObj s = Some y" "iAzureKV y = p" by (auto simp: connected_def waits_def)
  with run s laws(7,9) guardsD(6) [OF laws(1)] show "connected E vault secrets v c p s'"
    by (auto simp: addImportFinalizer_def writeImport_def kUpdateImport_def run_andThen run_theImport run_setImport run_call run_ret
        connected_def waits_def split: sum.splits if_splits)
qed

section \<open>The interface\<close>

text \<open>
  What has to be shown of \<open>importSecrets\<close>, started with a client for the resource's vault, for it to
  hold of a reconciliation. The requests in \<open>P\<close> include all the tame ones. The laws are part of what
  is shown, so that an interpretation has no hypotheses.
\<close>

locale import_requests =
  fixes E :: "'w env" and vault :: "'w \<Rightarrow> vault_view" and secrets :: "'w \<Rightarrow> string \<times> string \<Rightarrow> (string \<rightharpoonup> bytes) option"
    and v c p ns P Q
  assumes tame_requests: "tame e \<Longrightarrow> P e"
    and importing: "import_laws E vault secrets \<longrightarrow> honest P t0 (connected E vault secrets v c p) (importSecrets E ns) Q"
begin

lemma adds_silent: "silent m \<Longrightarrow> adds P m"
  by (erule adds_mono) (rule tame_requests)

lemma honest_connected:
  assumes "import_laws E vault secrets"
  shows "honest P t0 (connected E vault secrets v c p) (andThen (addImportFinalizer E) (\<lambda>err. case err of
      Some e \<Rightarrow> ret (emptyResult, Some e) | None \<Rightarrow> importSecrets E ns)) Q"
  by (intro honest_andThen [OF adds_silent [OF silent_calls(4)] keeps_connected_finalizer [OF assms]] honest_cases(2)
      importing [rule_format] assms honest_adds adds_ret)

text \<open>The whole reconciliation of a resource, being deleted or not.\<close>

lemma honest_reconcile:
  assumes laws: "import_laws E vault secrets" and x: "ImportObj s = Some x" "iAzureKV x = p" "destinationNamespace req x = ns"
    and s: "vault (world s) = v" "secrets (world s) = c" "told P t0 s"
    and run: "reconcileImportCertificateSecret E req s = (r, s')"
  shows "told P t0 s' \<or> Q s'"
proof -
  have I: "waits vault secrets v c p s" using x s by (simp add: waits_def)
  have connect: "connected E vault secrets v c p t'"
    if "waits vault secrets v c p t" "setAkvClient E auth (iVaultUrl p) t = (Done a, t')" for auth t a t'
    using that by (cases auth) (auto simp: setAkvClient_def go_run connected_def waits_def)
  note step = honest_andThen [OF adds_silent [OF silent_calls(1)] keeps_waits(1) [OF laws]]
    honest_andThen [OF adds_silent [OF silent_calls(2)] keeps_waits(2) [OF laws]]
    honest_andThen [OF adds_silent [OF silent_calls(3)] keeps_waits(3) [OF laws]]
  have sync: "honest P t0 (waits vault secrets v c p) (seq (setAkvClient E auth (iVaultUrl p))
      (if DeletionTimestamp (iMeta x) = None then andThen (addImportFinalizer E) (\<lambda>err. case err of Some e \<Rightarrow> ret (emptyResult, Some e)
        | None \<Rightarrow> importSecrets E ns) else finalize E ns)) Q" for auth
    by (rule honest_after [OF adds_silent [OF silent_calls(7)] connect], assumption, assumption,
        rule honest_cases(1), rule honest_connected [OF laws], rule honest_adds, rule adds_silent, rule silent_finalize)
  let ?rest = "(if ConditionExists (iConditions (iStatus x)) (condition ''Terminal'' ConditionTrue [] []) then ret (emptyResult, None)
     else if MaxRetries \<le>s iRetryCount (iStatus x) then updateStatusWithCondition E terminalCondition
     else andThen (setKubeClient E) (\<lambda>err. case err of
       Some e \<Rightarrow> ret (emptyResult, Some e)
     | None \<Rightarrow>
     andThen (kGetServiceAccount (env_kube E)
         \<lparr>nn_Namespace = nn_Namespace req, nn_Name = sa_Name (iServiceAccountRef p)\<rparr>) (\<lambda>r. case r of
       Inl e \<Rightarrow> ret (emptyResult, Some e)
     | Inr serviceAccount \<Rightarrow>
     andThen (AuthorizerForWorkloadIdentity (env_kube E) (env_msal E)
         \<lparr>waServiceAccount = serviceAccount, SaAudiences = Audiences (iServiceAccountRef p),
          Authorizer = None\<rparr>) (\<lambda>(azureauth, err). case err of
       Some e \<Rightarrow> retryLater E BaseDelay ''MSALAuth'' ''MSALAuthFailed'' ''Retry '' e
     | None \<Rightarrow>
         seq (setAkvClient E (Authorizer azureauth) (iVaultUrl p))
         (if DeletionTimestamp (iMeta x) = None
          then andThen (addImportFinalizer E) (\<lambda>err. case err of
              Some e \<Rightarrow> ret (emptyResult, Some e)
            | None \<Rightarrow> importSecrets E ns)
          else finalize E ns)))))"
  have "honest P t0 (waits vault secrets v c p) ?rest Q"
    by (intro step sync honest_cases honest_adds adds_silent silent_status silent_retryLater adds_ret)
      (simp_all add: terminalCondition_def condition_def)
  moreover have "?rest s = (r, s')"
    using run by (simp only: reconcileImportCertificateSecret_def run_andThen [of theImport] run_theImport x option.case
        outcome.case prod.case Let_def)
  ultimately show ?thesis using honestD [where I = "waits vault secrets v c p" and Q = Q] I s(3) by blast
qed

lemma honest_ImportReconcile:
  assumes laws: "import_laws E vault secrets" and x: "importFinds E req (world s) x" "iAzureKV x = p" "destinationNamespace req x = ns"
    and s: "vault (world s) = v" "secrets (world s) = c" and run: "ImportReconcile E req s = (r, s')"
  shows "told P (trace s) s' \<or> Q s'"
proof -
  note L = import_lawsD [OF laws]
  have w: "vault (snd (get_import (env_kube E) req (afterCrd E (world s)))) = vault (world s)"
    "secrets (snd (get_import (env_kube E) req (afterCrd E (world s)))) = secrets (world s)"
    using L(5,6) guardsD(2,5) [OF L(1)] by (simp_all add: afterCrd_def stable_kube_def)
  have "P (GetCRD IMPORT_CERT_SECRET_CRD)" "P (GetImport req)" by (simp_all add: tame_requests tame_def)
  then have "told P (trace s) (s\<lparr>trace := trace s @ [GetCRD IMPORT_CERT_SECRET_CRD, GetImport req],
       world := snd (get_import (env_kube E) req (afterCrd E (world s))), ImportObj := Some x\<rparr>)"
    by (simp add: told_def)
  from honest_reconcile [OF laws _ x(2,3) _ _ this run [unfolded ImportReconcile_found [OF x(1)]]] s w show ?thesis by simp
qed

end

section \<open>Reports\<close>

text \<open>What the cluster's secrets are after an import.\<close>

definition importedSecrets :: "string \<Rightarrow> ImportAzureKVProvider \<Rightarrow> vault_view \<Rightarrow> (string \<times> string \<Rightarrow> (string \<rightharpoonup> bytes) option) \<Rightarrow>
    string \<times> string \<Rightarrow> (string \<rightharpoonup> bytes) option" where
  "importedSecrets ns p v c = (\<lambda>(n, name). if n = ns \<and> name \<in> SecretName ` set (iCertificateSecretRef p)
    then Some (afterImport (withTlsKeys (importedData v (iVaultUrl p) (wanted (iCertificateSecretRef p) name))) (c (n, name)))
    else c (n, name))"

lemma honest_importSecrets:
  assumes "import_laws E vault secrets"
  shows "honest (\<lambda>e. \<not> reportsSuccess e) t0 (connected E vault secrets v c p) (importSecrets E ns)
    (\<lambda>s. secrets (world s) = importedSecrets ns p v c)"
proof (rule honestI)
  fix s r s'
  note laws = import_lawsD [OF assms]
  let ?process = "ProcessImportSecret E ns ''create''" and ?told = "told (\<lambda>e. \<not> reportsSuccess e) t0"
  assume s: "connected E vault secrets v c p s" and q: "?told s" and run: "importSecrets E ns s = (r, s')"
  obtain r1 s1 where p1: "?process s = (r1, s1)" by fastforce
  have q1: "?told s1" by (rule keepsD [OF keeps_told [OF reports_process] q p1])
  show "?told s' \<or> secrets (world s') = importedSecrets ns p v c"
  proof (cases r1)
    case (Panicked a)
    with run p1 q1 show ?thesis by (auto simp: importSecrets_def run_andThen [of ?process])
  next
    case (Done err)
    show ?thesis
    proof (cases err)
      case (Some e)
      with run p1 Done have "retryLater E BaseDelay ''Processed'' ''CertificateProcessingFailed''
           ''Certificate secret sync failed this is retry '' e s1 = (r, s')"
        by (simp add: importSecrets_def run_andThen [of ?process])
      from keepsD [OF keeps_told [OF adds_mono [OF silent_retryLater]] q1 this] show ?thesis by (simp add: tame_def)
    next
      case None
      from s obtain y k token where y: "ImportObj s = Some y" "iAzureKV y = p" and k: "AkvClient s = Some k"
        "Client k = NewAzureKeyVaultClient (env_http E) token" "VaultUrl k = iVaultUrl p"
        and v: "vault (world s) = v" "secrets (world s) = c" by (auto simp: connected_def waits_def)
      have "?process s = (Done None, s1)" using p1 Done None by simp
      from ProcessImportSecret_effect [OF laws(4,2) guardsD(3) [OF laws(1)] laws(3) k(1,2) y(1) this]
      have "secrets (world s1) = importedSecrets ns p v c" by (simp only: importedSecrets_def y(2) v k(3))
      moreover have "keeps (\<lambda>t. secrets (world t) = secrets (world s1)) (andThen theImport (\<lambda>x.
         seq (setImport (setRetry 0 x))
         (andThen (updateStatusWithCondition E (condition ''Processed'' ConditionTrue
             ''CertificateProcessingSucceeded'' ''Secret sync processed successfully'')) (\<lambda>(result, updateErr).
          case updateErr of Some e \<Rightarrow> ret (emptyResult, Some e) | None \<Rightarrow> ret (result, None)))))"
        unfolding updateStatusWithCondition_def retryStatus_def finishStatus_def createEvent_def theImport_def setImport_def
          kStatusImport_def kCreateEvent_def kGetImport_def Let_def
        by (intro go_keeps vf.keeps_kube vf.keeps_request guardsD [OF laws(1)]) simp_all
      from keepsD [OF this, of s1 r s'] have "secrets (world s') = secrets (world s1)"
        using run p1 Done None by (simp add: importSecrets_def run_andThen [of ?process])
      ultimately show ?thesis by simp
    qed
  qed
qed

interpretation reports: import_requests E vault secrets v c p ns "\<lambda>e. \<not> reportsSuccess e"
    "\<lambda>s. secrets (world s) = importedSecrets ns p v c" for E vault secrets v c p ns
  by unfold_locales (simp_all add: tame_def honest_importSecrets)

lemma ImportReconcile_reports:
  assumes laws: "import_laws E vault secrets" and x: "importFinds E req (world s) x"
    and run: "ImportReconcile E req s = (r, s')" and e: "trace s' = trace s @ es" "e \<in> set es" "reportsSuccess e"
  shows "secrets (world s') = importedSecrets (destinationNamespace req x) (iAzureKV x) (vault (world s)) (secrets (world s))"
proof -
  have "\<not> told (\<lambda>e. \<not> reportsSuccess e) (trace s) s'" using e by (auto simp: told_def)
  with reports.honest_ImportReconcile [OF laws x refl refl refl refl run] show ?thesis by blast
qed

section \<open>Properties\<close>


lemma liveEnv_laws: "import_laws liveEnv fst storedSecrets"
proof -
  have env: "env_http liveEnv = env_http splitEnv" "env_kube liveEnv = liveKube" "env_msal liveEnv = exampleMsal"
    by (simp_all add: liveEnv_def splitEnv_def)
  have "apart liveEnv fst storedSecrets"
    using splitEnv_apart by (simp add: apart_def env) (simp add: splitEnv_def liveKube_def)
  moreover have "range_visits_all (env_kube liveEnv)"
    using splitEnv_order by (simp add: range_visits_all_def env liveKube_def splitEnv_def)
  moreover have "stable_kube (env_kube liveEnv) fst"
    by (simp add: stable_kube_def env liveKube_def splitKube_def offlineKube_def)
  ultimately show ?thesis
    using liveEnv_guards splitEnv_vault by (simp add: import_laws_def env exampleMsal_def) (simp add: liveKube_def)
qed

text \<open>Concrete reconciliations that import one secret.\<close>

lemma liveEnv_reports:
  "\<exists>r s' es ev. ImportReconcile liveEnv (importKey (syncImport [])) (liveState [(''u'', ''web'') \<mapsto> ''-cert-''] Map.empty) = (r, s')
     \<and> trace s' = es \<and> CreateEvent ev \<in> set es \<and> evReason ev = ''CertificateProcessingSucceeded''"
proof -
  have "list_ex reportsSuccess (trace (snd (ImportReconcile liveEnv (importKey (syncImport [])) (liveState [(''u'', ''web'') \<mapsto> ''-cert-''] Map.empty))))"
    by code_simp
  moreover obtain r s' where run: "ImportReconcile liveEnv (importKey (syncImport [])) (liveState [(''u'', ''web'') \<mapsto> ''-cert-''] Map.empty) = (r, s')"
    by fastforce
  ultimately obtain ev where "CreateEvent ev \<in> set (trace s')" "evReason ev = ''CertificateProcessingSucceeded''"
    by (auto simp: list_ex_iff elim: reportsSuccessE)
  with run show ?thesis by blast
qed


end
