(* ===== verification/Import_Setup.thy ===== *)
theory Import_Setup
  imports Import_Controller Export_Setup
begin

text \<open>
  \<open>internal/controllers/import/setup.go\<close>: which events of the cluster start a reconciliation of
  the import controller, with the two vendored predicates it combines, and what becomes of a
  secret that is deleted.
\<close>

section \<open>The filter on all events\<close>

text \<open>\<open>GenerationChangedPredicate\<close> and \<open>AnnotationChangedPredicate\<close> restrict updates only.\<close>

definition metaOf :: "watched \<Rightarrow> ObjectMeta option" where
  "metaOf obj = (case obj of WExport x \<Rightarrow> Some (eMeta x) | WImport x \<Rightarrow> Some (iMeta x) | WSecret x \<Rightarrow> Some (secMeta x) | WOther \<Rightarrow> None)"

definition generationChanged :: "ObjectMeta \<Rightarrow> ObjectMeta \<Rightarrow> bool" where
  "generationChanged objectOld objectNew = (Generation objectNew \<noteq> Generation objectOld)"

definition annotationChanged :: "ObjectMeta \<Rightarrow> ObjectMeta \<Rightarrow> bool" where
  "annotationChanged objectOld objectNew =
     (\<not> sameMap (Some (mapData (Annotations objectNew))) (Some (mapData (Annotations objectOld))))"

definition importUpdateFilter :: "ObjectMeta \<Rightarrow> ObjectMeta \<Rightarrow> bool" where
  "importUpdateFilter objectOld objectNew =
     (generationChanged objectOld objectNew \<or> annotationChanged objectOld objectNew)"

section \<open>The predicate on secrets\<close>

fun anyRef :: "CertificateSecretRef list \<Rightarrow> K8sSecret \<Rightarrow> string \<Rightarrow> bool" where
  "anyRef [] secret secretNamespace = False"
| "anyRef (certRef # rest) secret secretNamespace =
     (if Name (secMeta secret) = SecretName certRef \<and> Namespace (secMeta secret) = secretNamespace then True
      else anyRef rest secret secretNamespace)"

fun anyImport :: "ImportCertificateSecret list \<Rightarrow> K8sSecret \<Rightarrow> bool" where
  "anyImport [] secret = False"
| "anyImport (importCertSecret # rest) secret =
     (let secretNamespace = (if SecretNamespace (iAzureKV importCertSecret) \<noteq> []
          then SecretNamespace (iAzureKV importCertSecret) else Namespace (iMeta importCertSecret)) in
      if anyRef (iCertificateSecretRef (iAzureKV importCertSecret)) secret secretNamespace then True
      else anyImport rest secret)"

definition shouldReconcile :: "'w kube \<Rightarrow> watched \<Rightarrow> (('w, 'z) st_scheme, bool) go" where
  "shouldReconcile K obj =
     (case obj of
        WSecret secret \<Rightarrow>
          andThen (kListImports K []) (\<lambda>r. case r of
            Inl err \<Rightarrow> ret False
          | Inr items \<Rightarrow> ret (anyImport items secret))
      | _ \<Rightarrow> ret False)"

definition importCreateFunc :: "watched \<Rightarrow> bool" where "importCreateFunc e = False"
definition importUpdateFunc :: "watched \<Rightarrow> watched \<Rightarrow> bool" where "importUpdateFunc objectOld objectNew = False"
definition importGenericFunc :: "watched \<Rightarrow> bool" where "importGenericFunc e = False"

definition importDeleteFunc :: "'w kube \<Rightarrow> watched \<Rightarrow> (('w, 'z) st_scheme, bool) go" where
  "importDeleteFunc K e = shouldReconcile K e"

section \<open>Lemmas\<close>

lemma anyRef_iff:
  "anyRef refs secret ns \<longleftrightarrow> Name (secMeta secret) \<in> SecretName ` set refs \<and> Namespace (secMeta secret) = ns"
  by (induction refs) auto

lemma anyImport_related:
  "anyImport items secret \<longleftrightarrow> (\<exists>x \<in> set items. related (metaKey (secMeta secret)) (Some secret) x)"
  by (induction items) (auto simp: anyRef_iff related_def secretNamespaceOf_def list_ex_iff Let_def)

text \<open>The deleted secret and the secret itself are looked up alike.\<close>

lemma related_deleted:
  "related (metaKey (secMeta secret)) None = related (metaKey (secMeta secret)) (Some secret)"
  by (auto simp: fun_eq_iff related_def metaKey_def list_ex_iff)

lemma find_related: "(\<exists>y. find P xs = Some y) \<longleftrightarrow> Bex (set xs) P"
  by (induction xs) auto

lemma reconcileSecret_run:
  assumes "fst (list_imports (env_kube E) [] (world s)) = Inr items"
  shows "reconcileSecret E req secret s =
    (let s1 = s\<lparr>trace := trace s @ [ListImports []], world := snd (list_imports (env_kube E) [] (world s))\<rparr>
     in case find (related req secret) items of
          None \<Rightarrow> (Done (emptyResult, None), s1)
        | Some x \<Rightarrow> andThen (timeStamp (env_kube E)) (\<lambda>now.
              andThen (AddAnnotationToImportCertificateSecret E (Namespace (iMeta x)) (Name (iMeta x))
                  SECRET_CHG_ANNOTATION now) (\<lambda>err. case err of
                Some e \<Rightarrow> ret (emptyResult, Some e)
              | None \<Rightarrow> ret (emptyResult, None))) s1)"
  using assms
  by (simp add: reconcileSecret_def kListImports_def run_andThen [of "call e f" for e f] run_call run_ret Let_def
      split: option.split)

text \<open>The requests of \<open>AddAnnotationToImportCertificateSecret\<close>.\<close>

lemma AddAnnotation_run:
  "AddAnnotationToImportCertificateSecret E ns n key value s =
    (let k = \<lparr>nn_Namespace = ns, nn_Name = n\<rparr>;
         w = snd (get_import (env_kube E) k (world s));
         s1 = s\<lparr>trace := trace s @ [GetImport k], world := w\<rparr>
     in case fst (get_import (env_kube E) k (world s)) of
          Inl e \<Rightarrow> (Done (Some (WrappedError ''failed to get ImportCertificateSecret: '' e)), s1)
        | Inr x \<Rightarrow> (Done (case fst (update_import (env_kube E) (annotated key value x) w) of
               Inl e \<Rightarrow> Some (WrappedError ''failed to update ImportCertificateSecret: '' e) | Inr _ \<Rightarrow> None),
            s1\<lparr>trace := trace s1 @ [UpdateImport (annotated key value x)],
               world := snd (update_import (env_kube E) (annotated key value x) w)\<rparr>))"
  by (simp add: AddAnnotationToImportCertificateSecret_def kGetImport_def kUpdateImport_def run_andThen run_call run_ret Let_def
      split: sum.split)

lemma annotation_changes:
  "annotationChanged (iMeta x) (iMeta (annotated key value x)) \<longleftrightarrow> map_of (mapData (Annotations (iMeta x))) key \<noteq> Some value"
  by (auto simp: annotationChanged_def sameMap_iff annotated_def mapData_def update_conv' fun_eq_iff Let_def
      split: option.splits)

section \<open>Properties\<close>

text \<open>
  The filter on deleted secrets and the reconciliation they start agree: the event passes
  exactly when the reconciliation, reading the same list, finds a resource to annotate.
\<close>

theorem deleted_secret_filter_agrees:
  assumes "fst (list_imports K [] (world s)) = Inr items"
  shows "fst (importDeleteFunc K (WSecret secret) s) = Done (find (related (metaKey (secMeta secret)) None) items \<noteq> None)"
  using assms
  by (simp add: importDeleteFunc_def shouldReconcile_def kListImports_def run_andThen run_call run_ret
      anyImport_related related_deleted find_related)

theorem deleted_secret_filter_agrees_witness:
  "fst (importDeleteFunc (offlineKube\<lparr>list_imports := \<lambda>_ w. (Inr [], w)\<rparr>) (WSecret emptySecret) \<lparr>trace = [], world = ()\<rparr>) = Done False"
proof -
  have "fst (list_imports (offlineKube\<lparr>list_imports := \<lambda>_ w. (Inr [], w)\<rparr>) [] (world \<lparr>trace = [], world = ()\<rparr>)) = Inr []"
    by simp
  from deleted_secret_filter_agrees [OF this] show ?thesis by simp
qed

text \<open>
  C37. A deleted secret is imported again through one resource only: the reconciliation writes
  an annotation to the first listed resource that names the secret and to no other, whoever
  else does.
\<close>

theorem deleted_secret_annotates_one:
  assumes "fst (list_imports (env_kube E) [] (world s)) = Inr items"
    and "reconcileSecret E req None s = (Done (emptyResult, None), s')"
  defines "w \<equiv> snd (list_imports (env_kube E) [] (world s))"
  shows "case find (related req None) items of
      None \<Rightarrow> trace s' = trace s @ [ListImports []]
    | Some x \<Rightarrow> \<exists>y. fst (get_import (env_kube E) (importKey x) (snd (time_stamp (env_kube E) w))) = Inr y
        \<and> trace s' = trace s @ [ListImports [], Now, GetImport (importKey x),
            UpdateImport (annotated SECRET_CHG_ANNOTATION (fst (time_stamp (env_kube E) w)) y)]"
  using assms(2)
  by (auto simp: w_def reconcileSecret_run [OF assms(1)] Let_def timeStamp_def run_andThen run_call AddAnnotation_run run_ret
      importKey_def metaKey_def split: option.splits sum.splits)

text \<open>Two imports that write keys to one secret, which has been deleted.\<close>

definition sharingImport :: "string \<Rightarrow> ImportCertificateSecret" where
  "sharingImport name = emptyImport\<lparr>iMeta := emptyMeta\<lparr>Name := name, Namespace := ''prod''\<rparr>,
     iAzureKV := (iAzureKV emptyImport)\<lparr>iCertificateSecretRef := [caseRef ''tls.crt'' name]\<rparr>\<rparr>"

definition sharingEnv :: "unit env" where
  "sharingEnv = \<lparr>env_kube = offlineKube\<lparr>list_imports := \<lambda>_ w. (Inr [sharingImport ''a'', sharingImport ''b''], w),
       get_import := \<lambda>k w. (Inr (sharingImport (nn_Name k)), w), update_import := \<lambda>x w. (Inr x, w)\<rparr>,
     env_msal = exampleMsal, env_http = \<lambda>_ w. (answer 404 None, w), env_os = exampleOs, env_x509 = exampleX509\<rparr>"

theorem deleted_secret_annotates_one_witness:
  "let req = \<lparr>nn_Namespace = ''prod'', nn_Name = ''web-tls''\<rparr>;
       s' = snd (reconcileSecret sharingEnv req None \<lparr>trace = [], world = (), AkvClient = None, KubeClient = False, ImportObj = None\<rparr>)
   in related req None (sharingImport ''a'') \<and> related req None (sharingImport ''b'')
     \<and> trace s' = [ListImports [], Now, GetImport \<lparr>nn_Namespace = ''prod'', nn_Name = ''a''\<rparr>,
         UpdateImport (annotated SECRET_CHG_ANNOTATION ''1970-01-01T00:00:00'' (sharingImport ''a''))]"
proof -
  let ?req = "\<lparr>nn_Namespace = ''prod'', nn_Name = ''web-tls''\<rparr>"
  let ?s = "\<lparr>trace = [], world = (), AkvClient = None, KubeClient = False, ImportObj = None\<rparr> :: unit ist"
  have items: "fst (list_imports (env_kube sharingEnv) [] (world ?s)) = Inr [sharingImport ''a'', sharingImport ''b'']"
    by (simp add: sharingEnv_def)
  have key: "importKey (sharingImport n) = \<lparr>nn_Namespace = ''prod'', nn_Name = n\<rparr>" for n
    by (simp add: sharingImport_def importKey_def metaKey_def)
  have rel: "related ?req None (sharingImport n)" for n
    by (simp add: related_def secretNamespaceOf_def sharingImport_def emptyImport_def)
  have "fst (reconcileSecret sharingEnv ?req None ?s) = Done (emptyResult, None)"
    by code_simp
  then obtain s' where run: "reconcileSecret sharingEnv ?req None ?s = (Done (emptyResult, None), s')"
    by (metis prod.collapse)
  from deleted_secret_annotates_one [OF items run] run rel show ?thesis
    by (simp add: key Let_def) (simp add: sharingEnv_def offlineKube_def)
qed

text \<open>
  The annotation starts an import only if it changes the resource: a deletion within the
  same second as the one recorded in the annotation before leaves the resource as it is, so
  the event is dropped. Status and finalizer writes are dropped as well.
\<close>

theorem annotation_event_passes:
  "(importUpdateFilter (iMeta x) (iMeta (annotated SECRET_CHG_ANNOTATION now x))
     \<longleftrightarrow> map_of (mapData (Annotations (iMeta x))) SECRET_CHG_ANNOTATION \<noteq> Some now)
   \<and> \<not> importUpdateFilter (iMeta x) (iMeta (dropFinalizerI x))
   \<and> \<not> importUpdateFilter (iMeta x) (iMeta (withCondition c (setRetry n x)))"
proof -
  have "\<not> generationChanged (iMeta x) (iMeta (annotated SECRET_CHG_ANNOTATION now x))"
    by (simp add: generationChanged_def annotated_def Let_def)
  then have "importUpdateFilter (iMeta x) (iMeta (annotated SECRET_CHG_ANNOTATION now x))
     \<longleftrightarrow> map_of (mapData (Annotations (iMeta x))) SECRET_CHG_ANNOTATION \<noteq> Some now"
    by (simp add: importUpdateFilter_def annotation_changes)
  then show ?thesis
    by (simp add: importUpdateFilter_def generationChanged_def annotationChanged_def sameMap_iff
        dropFinalizerI_def withCondition_def setRetry_def)
qed

end
