(* ===== verification/Import_System.thy ===== *)
theory Import_System
  imports Import_Flow Import_Setup
begin

text \<open>
  The import controller at work: users change the resources, secrets are deleted, the watches of
  \<open>import/setup.go\<close> turn this into requests, and the manager runs them when they are due. A resource
  that is not being deleted is scanned for ever.
\<close>

section \<open>Delays\<close>

text \<open>The scan interval is positive and at most \<open>lim\<close> minutes.\<close>

definition polls :: "go_int \<Rightarrow> ImportCertificateSecret \<Rightarrow> bool" where
  "polls lim x \<longleftrightarrow> 0 <s ScanInterval (iAzureKV x) \<and> ScanInterval (iAzureKV x) \<le>s lim"

text \<open>So many minutes are a duration of less than \<open>2^63\<close> nanoseconds.\<close>

definition maxInterval :: go_int where "maxInterval = 153722867"

definition latest :: "go_int \<Rightarrow> duration" where
  "latest lim = (if MaxDuration <s lim * Minute then lim * Minute else MaxDuration)"

definition inTime :: "go_int \<Rightarrow> duration \<Rightarrow> bool" where
  "inTime lim d \<longleftrightarrow> 0 <s d \<and> d \<le>s latest lim"

lemma sint_minutes:
  assumes "0 <s n" and "n \<le>s maxInterval"
  shows "sint (n * Minute) = sint n * 60000000000"
proof -
  have "0 < sint n" "sint n \<le> 153722867" using assms by (simp_all add: word_sless_alt word_sle_eq maxInterval_def)
  then show ?thesis
    by (simp add: Minute_def sint_word_ariths signed_take_bit_int_eq_self)
qed

lemma interval_inTime:
  assumes "polls lim x" and "lim \<le>s maxInterval"
  shows "inTime lim (ScanInterval (iAzureKV x) * Minute)"
proof -
  let ?n = "ScanInterval (iAzureKV x)"
  have n: "0 < sint ?n" "sint ?n \<le> sint lim" "sint lim \<le> 153722867"
    using assms by (simp_all add: polls_def word_sless_alt word_sle_eq maxInterval_def)
  then have "sint (?n * Minute) = sint ?n * 60000000000" "sint (lim * Minute) = sint lim * 60000000000"
    by (simp_all add: sint_minutes word_sless_alt word_sle_eq maxInterval_def)
  with n show ?thesis by (auto simp: inTime_def latest_def word_sless_alt word_sle_eq)
qed

lemma retry_inTime:
  assumes "n \<in> {0, 1, 2, 3, 4, 5}"
  shows "inTime lim (retryDelay BaseDelay n)"
proof -
  have "0 <s retryDelay BaseDelay n" "retryDelay BaseDelay n \<le>s MaxDuration"
    using assms by (auto simp: retryDelay_def shl1_small duration_defs Let_def word_sless_alt word_sle_eq)
  moreover have "MaxDuration \<le>s latest lim" by (simp add: latest_def word_sless_alt word_sle_eq)
  ultimately show ?thesis by (simp add: inTime_def word_sle_eq)
qed

text \<open>A reconciliation ends with an error or asks for another in time.\<close>

definition promptly :: "go_int \<Rightarrow> Result \<times> go_error option \<Rightarrow> bool" where
  "promptly lim out \<longleftrightarrow> snd out \<noteq> None \<or> inTime lim (RequeueAfter (fst out))"

lemma promptly_error [simp]: "promptly lim (res, Some e)"
  by (simp add: promptly_def)

section \<open>One reconciliation\<close>

text \<open>
  The API server stores only resources whose interval is in range, and an update is answered with
  the object that was sent, less what belongs to the other subresource.
\<close>

definition import_replies :: "go_int \<Rightarrow> 'w kube \<Rightarrow> bool" where
  "import_replies lim K \<longleftrightarrow> (\<forall>k w y. fst (get_import K k w) = Inr y \<longrightarrow> polls lim y)
     \<and> (\<forall>x w y. fst (update_import K x w) = Inr y \<longrightarrow> iAzureKV y = iAzureKV x \<and> iStatus y = iStatus x)
     \<and> (\<forall>x w y. fst (status_import K x w) = Inr y \<longrightarrow> iAzureKV y = iAzureKV x)"

lemma import_repliesD:
  assumes "import_replies lim K"
  shows "fst (get_import K k w) = Inr y \<Longrightarrow> polls lim y"
    "fst (update_import K x w) = Inr y \<Longrightarrow> iAzureKV y = iAzureKV x \<and> iStatus y = iStatus x"
    "fst (status_import K x w) = Inr y \<Longrightarrow> iAzureKV y = iAzureKV x"
  using assms by (auto simp: import_replies_def)

definition polled :: "go_int \<Rightarrow> 'w ist \<Rightarrow> bool" where
  "polled lim s \<longleftrightarrow> (\<exists>x. ImportObj s = Some x \<and> polls lim x)"

text \<open>The resource in hand has retries left.\<close>

definition ready :: "go_int \<Rightarrow> 'w ist \<Rightarrow> bool" where
  "ready lim s \<longleftrightarrow> (\<exists>x. ImportObj s = Some x \<and> polls lim x \<and> \<not> MaxRetries \<le>s iRetryCount (iStatus x))"

lemma keeps_ready: "(\<And>v. keeps (\<lambda>s. ImportObj s = v) m) \<Longrightarrow> keeps (ready lim) m"
  by (rule keepsI) (auto simp: ready_def dest: keepsD)

lemma polls_cong: "iAzureKV x = iAzureKV y \<Longrightarrow> polls lim x = polls lim y"
  by (simp add: polls_def)

lemma updateStatus_polled:
  assumes K: "import_replies lim (env_kube E)" and x: "ImportObj s = Some x" "polls lim x"
    and run: "updateStatusWithCondition E cond s = (Done out, s')"
  shows "snd out \<noteq> None \<or> polled lim s'"
proof -
  let ?y = "statusSent E cond x (world s)"
  have fin: "polled lim s'" if "finishStatus E c t = (Done out, s')" and z: "ImportObj t = Some z" "polls lim z" for c t z
  proof -
    obtain a b w where "finishStatus E c t = (Done (\<lparr>RequeueAfter = ScanInterval (iAzureKV z) * Minute\<rparr>, None),
        t\<lparr>trace := trace t @ [Now, Now, CreateEvent (importEvent z c a b)], world := w\<rparr>)"
      by (rule finishStatus_run [OF z(1)])
    with that(1) z show ?thesis by (auto simp: polled_def)
  qed
  note reply = import_repliesD [OF K]
  show ?thesis
  proof (cases "fst (status_import (env_kube E) ?y (snd (time_now (env_kube E) (world s))))")
    case (Inr z)
    have "iAzureKV z = iAzureKV x" using reply(3) [OF Inr] by (simp add: statusSent_def withCondition_def)
    then have "polls lim z" using x(2) by (simp add: polls_def)
    with run Inr show ?thesis by (auto simp: updateStatus_run [OF x(1)] Let_def intro: fin)
  next
    case (Inl e)
    have "polls lim z" if "fst (get_import (env_kube E) k w) = Inr y" "fst (status_import (env_kube E) y w') = Inr z" for k w w' y z
      using reply(1) [OF that(1)] reply(3) [OF that(2)] by (simp add: polls_def)
    with run Inl show ?thesis
      by (auto simp: updateStatus_run [OF x(1)] Let_def run_andThen retryStatus_run run_ret intro!: fin
          split: sum.splits option.splits)
  qed
qed

lemma answers_updateStatus:
  assumes K: "import_replies lim (env_kube E)" and lim: "lim \<le>s maxInterval"
  shows "answers (polled lim) (updateStatusWithCondition E cond) (\<lambda>out _. promptly lim out)"
proof (rule answersI)
  fix s out s'
  assume "polled lim s" and run: "updateStatusWithCondition E cond s = (Done out, s')"
  then obtain x where x: "ImportObj s = Some x" "polls lim x" by (auto simp: polled_def)
  obtain res err where out: "out = (res, err)" by fastforce
  show "promptly lim out"
  proof (cases err)
    case (Some e)
    with out show ?thesis by simp
  next
    case None
    with updateStatus_polled [OF K x run] updateStatus_result [OF x(1), of E cond res s'] run out interval_inTime [OF _ lim]
    show ?thesis by (auto simp: promptly_def polled_def)
  qed
qed

lemma small_retry:
  assumes "\<not> MaxRetries \<le>s n" and "0 \<le>s n + 1"
  shows "n + 1 \<in> {0, 1, 2, 3, 4, 5}"
proof -
  have "sint n < 5" using assms(1) by (simp add: MaxRetries_def word_sle_eq)
  moreover have "0 \<le> sint (n + 1)" using assms(2) by (simp add: word_sle_eq)
  moreover have "- (2 ^ 63) \<le> sint n" using sint_ge [of n] by simp
  moreover have "sint (n + 1) = sint n + 1"
    using calculation by (simp add: sint_word_ariths signed_take_bit_int_eq_self)
  ultimately have "sint (n + 1) \<in> {0, 1, 2, 3, 4, 5}" by auto
  then have "(of_int (sint (n + 1)) :: go_int) \<in> of_int ` {0, 1, 2, 3, 4, 5}" by (rule imageI)
  then show ?thesis by simp
qed

lemma answers_retryLater:
  assumes K: "import_replies lim (env_kube E)" and lim: "lim \<le>s maxInterval"
  shows "answers (ready lim) (retryLater E BaseDelay ty reason prefix err) (\<lambda>out _. promptly lim out)"
proof (rule answersI)
  fix s out s'
  assume "ready lim s" and run: "retryLater E BaseDelay ty reason prefix err s = (Done out, s')"
  then obtain x where x: "ImportObj s = Some x" "\<not> MaxRetries \<le>s iRetryCount (iStatus x)" by (auto simp: ready_def)
  let ?n = "iRetryCount (iStatus x) + 1"
  have pos: "0 \<le>s ?n"
  proof (rule ccontr)
    assume "\<not> 0 \<le>s ?n"
    then have "?n <s 0" by (simp add: word_sless_alt word_sle_eq)
    with run x(1) show False
      by (simp add: retryLater_def run_andThen run_theImport run_setImport shiftSigned_def run_panic Let_def)
  qed
  obtain res e where out: "out = (res, e)" by fastforce
  have "RequeueAfter res = retryDelay BaseDelay ?n"
    using run by (auto simp: retryLater_run [OF x(1) pos] out split: prod.splits outcome.splits)
  with retry_inTime [OF small_retry [OF x(2) pos]] show "promptly lim out" by (simp add: promptly_def out)
qed

lemma ready_polled: "ready lim s \<Longrightarrow> polled lim s"
  by (auto simp: ready_def polled_def)

lemma answers_pre: "answers P m Q \<Longrightarrow> (\<And>s. P' s \<Longrightarrow> P s) \<Longrightarrow> answers P' m Q"
  by (rule answersI) (blast dest: answersD)

lemma keeps_ready_calls:
  "keeps (ready lim) (setKubeClient E)" "keeps (ready lim) (kGetServiceAccount K k)"
  "keeps (ready lim) (AuthorizerForWorkloadIdentity K M aza)" "keeps (ready lim) (setAkvClient E auth url)"
  "keeps (ready lim) (ProcessImportSecret E ns action)" "keeps (ready lim) theImport"
  unfolding setKubeClient_def SetKubeClient_def AuthorizerForWorkloadIdentity_def FetchSAToken_def NewTokenProvider_def
    setAkvClient_def theImport_def call_defs Let_def
  by (rule keeps_ready, rule keeps_obj_process | (rule keeps_ready, intro go_keeps keeps_obj_call, simp?))+

lemma keeps_ready_finalizer:
  assumes "import_replies lim (env_kube E)"
  shows "keeps (ready lim) (addImportFinalizer E)"
proof (rule keepsI)
  fix s r s'
  assume "ready lim s" and run: "addImportFinalizer E s = (r, s')"
  then obtain x where x: "ImportObj s = Some x" "polls lim x" "\<not> MaxRetries \<le>s iRetryCount (iStatus x)" by (auto simp: ready_def)
  with run import_repliesD(2) [OF assms] show "ready lim s'"
    by (fastforce simp: addImportFinalizer_def writeImport_def kUpdateImport_def run_andThen run_theImport run_setImport run_call run_ret
        ready_def polls_def split: sum.splits if_splits)
qed

lemma answers_importSecrets:
  assumes K: "import_replies lim (env_kube E)" and lim: "lim \<le>s maxInterval"
  shows "answers (ready lim) (importSecrets E ns) (\<lambda>out _. promptly lim out)"
proof -
  let ?Q = "\<lambda>out (_ :: 'a ist). promptly lim out"
  have send: "answers (polled lim) (andThen (updateStatusWithCondition E c) (\<lambda>(result, updateErr).
      case updateErr of Some e \<Rightarrow> ret (emptyResult, Some e) | None \<Rightarrow> ret (result, None))) ?Q" for c
    by (rule answersI)
      (auto simp: run_andThen run_ret split: prod.splits outcome.splits option.splits dest: answersD [OF answers_updateStatus [OF K lim]])
  have "answers (polled lim) (andThen theImport (\<lambda>x. seq (setImport (setRetry 0 x)) (andThen (updateStatusWithCondition E c) (\<lambda>(result, updateErr).
      case updateErr of Some e \<Rightarrow> ret (emptyResult, Some e) | None \<Rightarrow> ret (result, None))))) ?Q" for c
  proof (rule answersI)
    fix s out s'
    assume "polled lim s" and run: "andThen theImport (\<lambda>x. seq (setImport (setRetry 0 x)) (andThen (updateStatusWithCondition E c)
      (\<lambda>(result, updateErr). case updateErr of Some e \<Rightarrow> ret (emptyResult, Some e) | None \<Rightarrow> ret (result, None)))) s = (Done out, s')"
    then obtain x where x: "ImportObj s = Some x" "polls lim x" by (auto simp: polled_def)
    have "polled lim (s\<lparr>ImportObj := Some (setRetry 0 x)\<rparr>)" using x by (simp add: polled_def polls_def setRetry_def)
    from answersD [OF send this] run x(1) show "promptly lim out"
      by (simp add: run_andThen [of theImport] run_theImport run_andThen [of "setImport y" for y] run_setImport)
  qed
  note success = answers_pre [OF this ready_polled]
  show ?thesis
    unfolding importSecrets_def
    by (rule answers_andThen [OF keeps_ready_calls(5)], rule answers_option, rule success, assumption,
        rule answers_retryLater [OF K lim])
qed

lemma reconcileImport_promptly:
  assumes K: "import_replies lim (env_kube E)" and lim: "lim \<le>s maxInterval"
    and x: "ImportObj s = Some x" "polls lim x" "DeletionTimestamp (iMeta x) = None" "\<forall>c \<in> set (iConditions (iStatus x)). Reason c \<noteq> []"
    and run: "reconcileImportCertificateSecret E req s = (Done out, s')"
  shows "promptly lim out"
proof (cases "MaxRetries \<le>s iRetryCount (iStatus x)")
  case True
  have "polled lim s" using x by (simp add: polled_def)
  from answersD [OF answers_updateStatus [OF K lim] this] run show ?thesis
    by (simp add: reconcileImport_exhausted [OF x(1) True x(4)])
next
  case False
  then have "ready lim s" using x by (simp add: ready_def)
  have failed: "answers (ready lim) (ret (res, Some e)) (\<lambda>out _. promptly lim out)" for res e
    by (rule answersI) (auto simp: run_ret)
  let ?rest = "andThen (setKubeClient E) (\<lambda>err. case err of
       Some e \<Rightarrow> ret (emptyResult, Some e)
     | None \<Rightarrow>
     andThen (kGetServiceAccount (env_kube E)
         \<lparr>nn_Namespace = nn_Namespace req, nn_Name = sa_Name (iServiceAccountRef (iAzureKV x))\<rparr>) (\<lambda>r. case r of
       Inl e \<Rightarrow> ret (emptyResult, Some e)
     | Inr serviceAccount \<Rightarrow>
     andThen (AuthorizerForWorkloadIdentity (env_kube E) (env_msal E)
         \<lparr>waServiceAccount = serviceAccount, SaAudiences = Audiences (iServiceAccountRef (iAzureKV x)),
          Authorizer = None\<rparr>) (\<lambda>(azureauth, err). case err of
       Some e \<Rightarrow> retryLater E BaseDelay ''MSALAuth'' ''MSALAuthFailed'' ''Retry '' e
     | None \<Rightarrow>
         seq (setAkvClient E (Authorizer azureauth) (iVaultUrl (iAzureKV x)))
         (andThen (addImportFinalizer E) (\<lambda>err. case err of
              Some e \<Rightarrow> ret (emptyResult, Some e)
            | None \<Rightarrow> importSecrets E (destinationNamespace req x))))))"
  have "answers (ready lim) ?rest (\<lambda>out _. promptly lim out)"
    by (intro answers_andThen answers_option answers_sum answers_prod keeps_ready_calls keeps_ready_finalizer [OF K] failed
        answers_retryLater [OF K lim] answers_importSecrets [OF K lim])
  moreover have "?rest s = (Done out, s')"
    using run by (simp only: reconcileImportCertificateSecret_def run_andThen [of theImport] run_theImport x(1,3) option.case
        outcome.case prod.case ConditionExists_reason [OF x(4)] False if_False Let_def simp_thms if_True)
  ultimately show ?thesis using \<open>ready lim s\<close> by (auto dest: answersD)
qed

section \<open>From events to requests\<close>

text \<open>\<open>For\<close> with the filter on events, which restricts updates only.\<close>

definition importRequests :: "ImportCertificateSecret option \<Rightarrow> ImportCertificateSecret \<Rightarrow> NamespacedName list" where
  "importRequests old x =
     (if (case old of None \<Rightarrow> True | Some prev \<Rightarrow> importUpdateFilter (iMeta prev) (iMeta x)) then [importKey x] else [])"

text \<open>\<open>Watches\<close>: the predicate on secrets, after the filter; the request is for the secret itself.\<close>

definition importSecretRequests :: "'w kube \<Rightarrow> K8sSecret option \<Rightarrow> K8sSecret option \<Rightarrow> (('w, 'z) st_scheme, NamespacedName list) go" where
  "importSecretRequests K old new =
     (case (old, new) of
        (None, Some x) \<Rightarrow> ret (if importCreateFunc (WSecret x) then [metaKey (secMeta x)] else [])
      | (Some prev, Some x) \<Rightarrow> ret (if importUpdateFilter (secMeta prev) (secMeta x) \<and> importUpdateFunc (WSecret prev) (WSecret x)
          then [metaKey (secMeta prev), metaKey (secMeta x)] else [])
      | (Some prev, None) \<Rightarrow> andThen (importDeleteFunc K (WSecret prev)) (\<lambda>pass.
          ret (if pass then [metaKey (secMeta prev)] else []))
      | (None, None) \<Rightarrow> ret [])"

section \<open>The operator\<close>

definition importAt :: "ImportCertificateSecret list \<Rightarrow> NamespacedName \<Rightarrow> ImportCertificateSecret option" where
  "importAt c k = List.find (\<lambda>x. importKey x = k) c"

definition dropImport :: "NamespacedName \<Rightarrow> ImportCertificateSecret list \<Rightarrow> ImportCertificateSecret list" where
  "dropImport k c = filter (\<lambda>y. importKey y \<noteq> k) c"

definition putImport :: "ImportCertificateSecret \<Rightarrow> ImportCertificateSecret list \<Rightarrow> ImportCertificateSecret list" where
  "putImport x c = x # dropImport (importKey x) c"

text \<open>A request is due at once (after an event or, with the manager's own delay, after a failure), or after a delay.\<close>

datatype due = Soon | After duration

record 'w importer =
  storedImports :: "ImportCertificateSecret list"
  importReconciler :: "'w ist"
  agenda :: "NamespacedName \<rightharpoonup> due"

definition soon :: "NamespacedName list \<Rightarrow> (NamespacedName \<rightharpoonup> due) \<Rightarrow> (NamespacedName \<rightharpoonup> due)" where
  "soon ks m = (\<lambda>k. if k \<in> set ks then Some Soon else m k)"

text \<open>What the manager makes of the outcome of a reconciliation.\<close>

definition dueAfter :: "Result \<times> go_error option \<Rightarrow> due option" where
  "dueAfter out = (if snd out \<noteq> None then Some Soon
     else if 0 <s RequeueAfter (fst out) then Some (After (RequeueAfter (fst out))) else None)"

definition newImportReconciler :: "'w \<Rightarrow> 'w ist" where
  "newImportReconciler w = \<lparr>trace = [], world = w, AkvClient = None, KubeClient = False, ImportObj = None\<rparr>"

definition importStarted :: "ImportCertificateSecret list \<Rightarrow> 'w \<Rightarrow> 'w importer" where
  "importStarted c w = \<lparr>storedImports = c, importReconciler = newImportReconciler w,
     agenda = soon (concat (map (importRequests None) c)) Map.empty\<rparr>"

text \<open>
  The API server serves the stored resources: reads of the manager's cache do not fail, conditions
  have reasons, and the CRD is installed.
\<close>

definition serves_imports :: "go_int \<Rightarrow> (ImportCertificateSecret list \<Rightarrow> 'w kube) \<Rightarrow> bool" where
  "serves_imports lim KC \<longleftrightarrow> (\<forall>c. list_all (polls lim) c \<longrightarrow> import_replies lim (KC c)
     \<and> (\<forall>w. \<exists>crd. fst (get_crd (KC c) IMPORT_CERT_SECRET_CRD w) = Inr crd \<and> DeletionTimestamp (crdMeta crd) = None)
     \<and> (\<forall>k x w. importAt c k = Some x \<longrightarrow> (\<exists>y. fst (get_import (KC c) k w) = Inr y
          \<and> (DeletionTimestamp (iMeta y) = None \<longleftrightarrow> DeletionTimestamp (iMeta x) = None)
          \<and> (\<forall>cond \<in> set (iConditions (iStatus y)). Reason cond \<noteq> []))))"

definition importEnv_at :: "'w env \<Rightarrow> (ImportCertificateSecret list \<Rightarrow> 'w kube) \<Rightarrow> ImportCertificateSecret list \<Rightarrow> 'w env" where
  "importEnv_at E KC c = E\<lparr>env_kube := KC c\<rparr>"

text \<open>
  One step. Users write and remove resources with intervals in range (a deletion is not taken back)
  and secrets; the rest of the world changes at will. The manager runs one
  reconciliation at a time; a panic counts as an error. After a restart, possibly forced by a panic,
  every resource is announced as new.
\<close>

inductive importer_step :: "'w env \<Rightarrow> (ImportCertificateSecret list \<Rightarrow> 'w kube) \<Rightarrow> go_int \<Rightarrow> 'w importer \<Rightarrow> 'w importer \<Rightarrow> bool"
  for E :: "'w env" and KC :: "ImportCertificateSecret list \<Rightarrow> 'w kube" and lim :: go_int where
  importWritten: "importer_step E KC lim s (s\<lparr>storedImports := putImport x (storedImports s),
      agenda := soon (importRequests (importAt (storedImports s) (importKey x)) x) (agenda s)\<rparr>)"
    if "polls lim x"
      and "\<And>prev. importAt (storedImports s) (importKey x) = Some prev \<Longrightarrow> DeletionTimestamp (iMeta prev) \<noteq> None \<Longrightarrow>
        DeletionTimestamp (iMeta x) \<noteq> None"
| importGone: "importer_step E KC lim s (s\<lparr>storedImports := dropImport k (storedImports s), agenda := soon [k] (agenda s)\<rparr>)"
| secretChanged: "importer_step E KC lim s (s\<lparr>importReconciler := r, agenda := soon reqs (agenda s)\<rparr>)"
    if "importSecretRequests (KC (storedImports s)) old new (importReconciler s) = (Done reqs, r)"
| worldChanged: "importer_step E KC lim s (s\<lparr>importReconciler := (importReconciler s)\<lparr>world := w\<rparr>\<rparr>)"
| importRan: "importer_step E KC lim s (s\<lparr>importReconciler := r, agenda := (agenda s)(k := dueAfter out)\<rparr>)"
    if "k \<in> dom (agenda s)" and "ImportReconcile (importEnv_at E KC (storedImports s)) k (importReconciler s) = (Done out, r)"
| importPanicked: "importer_step E KC lim s (s\<lparr>importReconciler := r, agenda := (agenda s)(k \<mapsto> Soon)\<rparr>)"
    if "k \<in> dom (agenda s)" and "ImportReconcile (importEnv_at E KC (storedImports s)) k (importReconciler s) = (Panicked p, r)"
| importRestarted: "importer_step E KC lim s (importStarted (storedImports s) (world (importReconciler s)))"

section \<open>The invariant\<close>

definition scanned :: "go_int \<Rightarrow> due option \<Rightarrow> bool" where
  "scanned lim d \<longleftrightarrow> (d = Some Soon \<or> (\<exists>t. d = Some (After t) \<and> inTime lim t))"

definition watchful :: "go_int \<Rightarrow> 'w importer \<Rightarrow> bool" where
  "watchful lim s \<longleftrightarrow> list_all (polls lim) (storedImports s)
     \<and> (\<forall>k x. importAt (storedImports s) k = Some x \<longrightarrow> DeletionTimestamp (iMeta x) = None \<longrightarrow> scanned lim (agenda s k))"

lemma importAt_drop: "importAt (dropImport k c) k' = (if k' = k then None else importAt c k')"
  by (induction c) (auto simp: importAt_def dropImport_def)

lemma importAt_put: "importAt (putImport x c) k = (if k = importKey x then Some x else importAt c k)"
  using importAt_drop [of "importKey x" c k] by (auto simp: importAt_def putImport_def)

lemma polls_stored:
  "list_all P c \<Longrightarrow> list_all P (dropImport k c)" "P x \<Longrightarrow> list_all P c \<Longrightarrow> list_all P (putImport x c)"
  by (auto simp: dropImport_def putImport_def list_all_iff)

lemma scanned_soon: "scanned lim (m k) \<Longrightarrow> scanned lim (soon ks m k)"
  by (simp add: soon_def scanned_def)

lemma scanned_dueAfter: "promptly lim out \<Longrightarrow> scanned lim (dueAfter out)"
  by (auto simp: promptly_def dueAfter_def scanned_def inTime_def)

lemma importAt_Some: "importAt c k = Some x \<Longrightarrow> x \<in> set c \<and> importKey x = k"
  by (auto simp: importAt_def find_Some_iff)

lemma watchful_started: "list_all (polls lim) c \<Longrightarrow> watchful lim (importStarted c w)"
  by (auto simp: watchful_def importStarted_def scanned_def soon_def importRequests_def dest: importAt_Some)

lemma ImportReconcile_scans:
  assumes laws: "serves_imports lim KC" and lim: "lim \<le>s maxInterval" and c: "list_all (polls lim) c"
    and x: "importAt c k = Some x" "DeletionTimestamp (iMeta x) = None"
    and run: "ImportReconcile (importEnv_at E KC c) k r = (Done out, r')"
  shows "scanned lim (dueAfter out)"
proof -
  let ?E = "importEnv_at E KC c"
  have kube: "env_kube ?E = KC c" by (simp add: importEnv_at_def)
  have K: "import_replies lim (env_kube ?E)" using laws c by (simp add: kube serves_imports_def)
  obtain y where y: "fst (get_import (env_kube ?E) k (afterCrd ?E (world r))) = Inr y" "DeletionTimestamp (iMeta y) = None"
    "\<forall>cond \<in> set (iConditions (iStatus y)). Reason cond \<noteq> []"
    using laws c x unfolding kube serves_imports_def by metis
  have "importFinds ?E k (world r) y"
    using laws c y(1) by (simp add: importFinds_def kube serves_imports_def)
  from reconcileImport_promptly [OF K lim _ import_repliesD(1) [OF K y(1)] y(2,3) run [unfolded ImportReconcile_found [OF this]]]
  show ?thesis by (intro scanned_dueAfter) simp
qed

lemma importer_step_watchful:
  assumes laws: "serves_imports lim KC" and lim: "lim \<le>s maxInterval" and "importer_step E KC lim s s'" and good: "watchful lim s"
  shows "watchful lim s'"
  using assms(3)
proof cases
  case (importWritten x)
  have "scanned lim (agenda s' k)"
    if "importAt (storedImports s') k = Some y" "DeletionTimestamp (iMeta y) = None" for k y
    using good that importWritten
    by (cases "k = importKey x")
      (auto simp: watchful_def importAt_put scanned_soon importRequests_def scanned_def soon_def split: option.splits)
  with good importWritten(1,2) show ?thesis by (simp add: watchful_def polls_stored)
next
  case (importGone k)
  with good show ?thesis by (simp add: watchful_def importAt_drop polls_stored scanned_soon)
next
  case (secretChanged old new reqs r)
  with good show ?thesis by (simp add: watchful_def scanned_soon)
next
  case (worldChanged w)
  with good show ?thesis by (simp add: watchful_def)
next
  case (importRan k out r)
  with good ImportReconcile_scans [OF laws lim _ _ _ importRan(3)] show ?thesis by (auto simp: watchful_def)
next
  case (importPanicked k p r)
  with good show ?thesis by (auto simp: watchful_def scanned_def)
next
  case importRestarted
  with good watchful_started show ?thesis by (auto simp: watchful_def [of lim s])
qed

lemma importer_watchful:
  assumes "serves_imports lim KC" and "lim \<le>s maxInterval" and "list_all (polls lim) c"
    and "(importer_step E KC lim)\<^sup>*\<^sup>* (importStarted c w) s"
  shows "watchful lim s"
  using assms(4)
proof induction
  case base
  show ?case by (rule watchful_started [OF assms(3)])
next
  case (step s s')
  from importer_step_watchful [OF assms(1,2) step.hyps(2) step.IH] show ?case .
qed

text \<open>
  It matters that reads do not fail: a reconciliation that cannot read its resource takes the request
  for that of a deleted secret, finds none that is named so, and ends without an error.
\<close>

lemma failed_read_is_forgotten:
  assumes "fst (get_crd (env_kube E) IMPORT_CERT_SECRET_CRD (world s)) = Inr crd" and "DeletionTimestamp (crdMeta crd) = None"
    and "fst (get_import (env_kube E) req (afterCrd E (world s))) = Inl e"
  defines "w \<equiv> snd (get_import (env_kube E) req (afterCrd E (world s)))"
  assumes "fst (get_secret (env_kube E) req w) = Inl e'" and "IsNotFound e'"
    and "fst (list_imports (env_kube E) [] (snd (get_secret (env_kube E) req w))) = Inr items"
    and "find (related req None) items = None"
  shows "\<exists>s'. ImportReconcile E req s = (Done (emptyResult, None), s') \<and> dueAfter (emptyResult, None) = None"
  using assms
  by (auto simp: afterCrd_def ImportReconcile_def run_andThen [of "setImport y" for y] run_setImport kGetCRD_def kGetImport_def
      kGetSecret_def run_andThen [of "call e f" for e f] run_call reconcileSecret_run Let_def dueAfter_def emptyResult_def)

section \<open>Property\<close>

text \<open>
  C10. Imports are scanned for ever. In every state that the controller can reach, through users'
  changes, deleted secrets, reconciliations with any outcome, panics and restarts, a resource that is
  not being deleted is due at once, or within its last reconciliation's delay, which is positive and
  no more than thirty minutes or the longest scan interval. The intervals must be positive and
  fit 64 bits in nanoseconds.
\<close>

theorem import_system_scans:
  assumes "serves_imports lim KC" and "lim \<le>s maxInterval" and "list_all (polls lim) c"
    and "(importer_step E KC lim)\<^sup>*\<^sup>* (importStarted c w) s"
    and "importAt (storedImports s) k = Some x" and "DeletionTimestamp (iMeta x) = None"
  shows "agenda s k = Some Soon \<or> (\<exists>d. agenda s k = Some (After d) \<and> 0 <s d
    \<and> d \<le>s (if MaxDuration <s lim * Minute then lim * Minute else MaxDuration))"
  using importer_watchful [OF assms(1-4)] assms(5,6)
  by (auto simp: watchful_def scanned_def inTime_def latest_def)

text \<open>A cluster in memory.\<close>

definition memImports :: "ImportCertificateSecret list \<Rightarrow> (vault_view \<times> secret_store) kube" where
  "memImports c = liveKube\<lparr>get_import := \<lambda>k w. (case importAt c k of None \<Rightarrow> Inl (NotFoundError [])
     | Some x \<Rightarrow> Inr (x\<lparr>iStatus := \<lparr>iConditions = [], iRetryCount = 0\<rparr>\<rparr>), w)\<rparr>"

lemma memImports_laws: "serves_imports lim memImports"
proof -
  have "polls lim (x\<lparr>iStatus := st\<rparr>)" if "list_all (polls lim) c" "importAt c k = Some x" for c k x st
    using that importAt_Some [of c k x] by (auto simp: list_all_iff polls_def)
  then show ?thesis
    by (auto simp: serves_imports_def import_replies_def memImports_def liveKube_def emptyMeta_def split: option.splits)
qed

theorem import_system_scans_witness:
  "\<exists>s d. (importer_step liveEnv memImports 10)\<^sup>*\<^sup>*
       (importStarted [syncImport [caseRef ''tls.crt'' ''Web'']] ([(''u'', ''web'') \<mapsto> ''-cert-''], Map.empty)) s
     \<and> agenda s (importKey (syncImport [])) = Some (After d) \<and> 0 <s d \<and> d \<le>s 30 * Minute"
proof -
  let ?x = "syncImport [caseRef ''tls.crt'' ''Web'']" and ?k = "importKey (syncImport [])"
  let ?w = "([(''u'', ''web'') \<mapsto> ''-cert-''], Map.empty) :: vault_view \<times> secret_store"
  let ?s = "importStarted [?x] ?w" and ?out = "(\<lparr>RequeueAfter = 10 * Minute\<rparr>, None) :: Result \<times> go_error option"
  have "fst (ImportReconcile (importEnv_at liveEnv memImports [?x]) ?k (newImportReconciler ?w)) = Done ?out" by code_simp
  then obtain r where run: "ImportReconcile (importEnv_at liveEnv memImports (storedImports ?s)) ?k (importReconciler ?s) = (Done ?out, r)"
    by (metis prod.collapse importStarted_def importer.select_convs(1,2))
  have k: "importKey ?x = ?k" by (simp add: importKey_def syncImport_def)
  then have "?k \<in> dom (agenda ?s)" by (simp add: importStarted_def soon_def importRequests_def domIff)
  let ?t = "?s\<lparr>importReconciler := r, agenda := (agenda ?s)(?k := dueAfter ?out)\<rparr>"
  from importer_step.importRan [OF \<open>?k \<in> dom (agenda ?s)\<close> run, of 10]
  have steps: "(importer_step liveEnv memImports 10)\<^sup>*\<^sup>* ?s ?t" by blast
  have "list_all (polls 10) [?x]" by (simp add: polls_def syncImport_def word_sless_alt word_sle_eq)
  moreover have "importAt (storedImports ?t) ?k = Some ?x" by (simp add: importStarted_def importAt_def k)
  moreover have "DeletionTimestamp (iMeta ?x) = None" by (simp add: syncImport_def emptyMeta_def)
  moreover have "(10 :: go_int) \<le>s maxInterval" by (simp add: maxInterval_def word_sle_eq)
  ultimately have "agenda ?t ?k = Some Soon \<or> (\<exists>d. agenda ?t ?k = Some (After d) \<and> 0 <s d
      \<and> d \<le>s (if MaxDuration <s 10 * Minute then 10 * Minute else MaxDuration))"
    using import_system_scans [OF memImports_laws _ _ steps, of ?k ?x] by blast
  moreover have "dueAfter ?out \<noteq> Some Soon" by (simp add: dueAfter_def)
  moreover have "\<not> MaxDuration <s 10 * Minute" "MaxDuration = 30 * Minute"
    by (simp_all add: duration_defs word_sless_alt)
  ultimately show ?thesis using steps by auto
qed

end
