(* ===== verification/Import_Integrity.thy ===== *)
theory Import_Integrity
  imports Import_Flow
begin

text \<open>
  What the import controller creates, however a reconciliation ends: a secret is created with all
  the values that the vault holds for it, or not at all.
\<close>

section \<open>What may be created\<close>

text \<open>\<open>v\<close> is the content of the vaults; the names and keys are those of the references of \<open>p\<close>.\<close>

fun creates :: "vault_view \<Rightarrow> string \<Rightarrow> ImportAzureKVProvider \<Rightarrow> effect \<Rightarrow> bool" where
  "creates v ns p (ClientsetCreateSecret n x) = (n = ns \<and> (\<exists>name \<in> SecretName ` set (iCertificateSecretRef p). \<exists>data.
     x = tlsSecret name ns data \<and> map_of data = withTlsKeys (importedData v (iVaultUrl p) (wanted (iCertificateSecretRef p) name))))"
| "creates v ns p _ = True"

lemma creates_tame: "tame e \<Longrightarrow> creates v ns p e"
  by (cases e) (simp_all add: tame_def)

text \<open>The state between two secrets.\<close>

definition creating :: "'w env \<Rightarrow> ('w \<Rightarrow> vault_view) \<Rightarrow> string \<Rightarrow> vault_view \<Rightarrow> string \<Rightarrow> ImportAzureKVProvider \<Rightarrow> effect list \<Rightarrow>
    'w ist \<Rightarrow> bool" where
  "creating E vault token v ns p t0 s \<longleftrightarrow> importing E vault token (iVaultUrl p) v s \<and> told (creates v ns p) t0 s"

lemma keeps_creating: "keeps (importing E vault token (iVaultUrl p) v) m \<Longrightarrow> adds (creates v ns p) m \<Longrightarrow>
    keeps (creating E vault token v ns p t0) m"
  by (rule keepsI) (auto simp: creating_def dest: keepsD keepsD [OF keeps_told])

section \<open>One secret\<close>

lemma keeps_importing_fetch:
  assumes law: "serves_vault (NewAzureKeyVaultClient (env_http E) token) vault"
  shows "keeps (importing E vault token url v) (onAkv (setName n))" "keeps (importing E vault token url v) (onAkv CheckKVSecretExistence)"
    "keeps (importing E vault token url v) (onAkv theSecret)" "keeps (importing E vault token url v) (onAkv (setBundle b))"
proof -
  have vault: "vault (snd (GetSecret (NewAzureKeyVaultClient (env_http E) token) url n [] w)) = vault w" for n w
    using serves_vault_getD(1) [OF law] by (metis prod.collapse)
  show "keeps (importing E vault token url v) (onAkv CheckKVSecretExistence)"
  proof (rule keepsI)
    fix s :: "'a ist" and r s'
    assume s: "importing E vault token url v s" and run: "onAkv CheckKVSecretExistence s = (r, s')"
    then obtain k sec where k: "AkvClient s = Some k" "kvSecret k = Some sec" "VaultUrl k = url"
      "Client k = NewAzureKeyVaultClient (env_http E) token" "vault (world s) = v" by (auto simp: importing_def)
    obtain t' where t: "CheckKVSecretExistence \<lparr>trace = trace s, world = world s, kv = k\<rparr> = (r, t')"
      "s' = s\<lparr>trace := trace t', world := world t', AkvClient := Some (kv t')\<rparr>"
      using run k(1) by (auto simp: run_onAkv split: prod.splits)
    from CheckKV_any [OF t(1), of sec] vault [of "ToLower (sName sec)" "world s"] k show "importing E vault token url v s'"
      by (auto simp: t(2) importing_def)
  qed
qed (rule keepsI; auto simp: importing_def run_onAkv setName_def setBundle_def run_andThen run_theSecret run_setKvSecret)+

lemma keeps_creating_fetchKey:
  assumes "serves_vault (NewAzureKeyVaultClient (env_http E) token) vault"
  shows "keeps (creating E vault token v ns p t0) (fetchKey keys key m)"
proof (rule keeps_creating)
  show "keeps (importing E vault token (iVaultUrl p) v) (fetchKey keys key m)"
    unfolding fetchKey_def takeValue_def by (intro go_keeps keeps_importing_fetch assms)
  show "adds (creates v ns p) (fetchKey keys key m)" by (rule adds_mono [OF silent_fetchKey creates_tame])
qed

lemma creating_call:
  assumes "creating E vault token v ns p t0 s" and "vault w = vault (world s)" and "creates v ns p e"
  shows "creating E vault token v ns p t0 (s\<lparr>trace := trace s @ [e], world := w\<rparr>)"
  using assms told_more [of "creates v ns p" t0 s "s\<lparr>trace := trace s @ [e], world := w\<rparr>" "[e]"]
  by (simp add: creating_def importing_call)

lemma keeps_creating_createSecret:
  assumes law: "serves_vault (NewAzureKeyVaultClient (env_http E) token) vault" and ap: "apart E vault secrets"
    and all: "range_visits_all (env_kube E)" and name: "name \<in> SecretName ` set (iCertificateSecretRef p)"
    and keys: "map_of keys = wanted (iCertificateSecretRef p) name" "distinct (map fst keys)"
  shows "keeps (creating E vault token v ns p t0) (createSecret E ns name keys)"
proof (rule keepsI)
  fix s :: "'a ist" and r s'
  let ?I = "creating E vault token v ns p t0 :: 'a ist \<Rightarrow> bool"
  let ?order = "fst (range_order (env_kube E) (map fst keys) (world s))"
  let ?s1 = "s\<lparr>trace := trace s @ [RangeMap (map fst keys)], world := snd (range_order (env_kube E) (map fst keys) (world s))\<rparr>"
  assume s: "?I s" and run: "createSecret E ns name keys s = (r, s')"
  have order: "set ?order = dom (map_of keys)"
    using all keys(2) by (simp add: range_visits_all_def dom_map_of_conv_image_fst)
  have s1: "?I ?s1" by (rule creating_call [OF s]) (simp_all add: apartD [OF ap])
  obtain q s2 where loop: "forAcc ?order [] (fetchKey keys) ?s1 = (q, s2)" by fastforce
  have s2: "?I s2" by (rule keepsD [OF keeps_forAcc [OF keeps_creating_fetchKey [OF law]] s1 loop])
  note start = run_andThen [of "rangeOrder K ks" for K ks] rangeOrder_run run_andThen [of "forAcc a b c" for a b c]
  show "?I s'"
  proof (cases "\<exists>m. q = Done (Inr m)")
    case True
    then obtain m where q: "q = Done (Inr m)" by blast
    let ?data = "ensureKey ''tls.crt'' (ensureKey ''tls.key'' m)" and ?v = "importedData v (iVaultUrl p) (map_of keys)"
    have "importing E vault token (iVaultUrl p) v ?s1" using s1 by (simp add: creating_def)
    from fetchKeys_done [OF law ap this _ _ loop [unfolded q]] order have "map_of m = ?v |` dom (map_of keys)" by simp
    moreover have "?v |` dom (map_of keys) = ?v"
      by (rule restrict_map_all) (auto simp: importedData_def split: option.splits)
    ultimately have "map_of ?data = withTlsKeys ?v" by (simp only: map_of_ensured)
    then have new: "creates v ns p (ClientsetCreateSecret ns (tlsSecret name ns ?data))"
      unfolding creates.simps by (intro conjI refl bexI [OF _ name] exI) (simp_all only: keys(1) [symmetric])
    have "keeps ?I (CreateOrPatchK8sSecret (env_kube E) name ?data ns)"
      by (rule keeps_creating [OF keeps_importing_CreateOrPatch [OF ap] adds_CreateOrPatch [where P = "creates v ns p", OF creates_tame new]])
    moreover obtain p s3 where put: "CreateOrPatchK8sSecret (env_kube E) name ?data ns s2 = (p, s3)" by fastforce
    ultimately have "?I s3" using s2 by (blast intro: keepsD)
    moreover have "s' = s3"
      using run loop q put
      by (auto simp: createSecret_def start run_andThen [of "CreateOrPatchK8sSecret a b c d" for a b c d] run_ret
          Let_def split: outcome.splits option.splits)
    ultimately show ?thesis by simp
  next
    case False
    with run loop have "s' = s2"
      by (auto simp: createSecret_def start run_ret Let_def split: outcome.splits sum.splits)
    with s2 show ?thesis by simp
  qed
qed

section \<open>A reconciliation\<close>

lemma keeps_creating_group:
  assumes "serves_vault (NewAzureKeyVaultClient (env_http E) token) vault" and ap: "apart E vault secrets"
    and "range_visits_all (env_kube E)"
  shows "keeps (creating E vault token v ns p t0) (processGroup E ns ''create'' (groupRefs (iCertificateSecretRef p)) name)"
proof (cases "map_of (groupRefs (iCertificateSecretRef p)) name")
  case None
  then show ?thesis by (simp add: processGroup_def keeps_ret)
next
  case (Some keys)
  let ?refs = "iCertificateSecretRef p"
  have "name \<in> set (map fst (groupRefs ?refs))" using Some by (force dest: map_of_SomeD)
  then have name: "name \<in> SecretName ` set ?refs" using groupRefs_keys [of ?refs] by blast
  have keys: "map_of keys = wanted ?refs name" "distinct (map fst keys)"
    using groupRefs_lookup [of ?refs name] Some by simp_all
  show ?thesis
  proof (rule keepsI)
    fix s r s'
    assume s: "creating E vault token v ns p t0 s" and run: "processGroup E ns ''create'' (groupRefs ?refs) name s = (r, s')"
    let ?key = "\<lparr>nn_Namespace = ns, nn_Name = name\<rparr>"
    have "creating E vault token v ns p t0 (s\<lparr>trace := trace s @ [effect.GetSecret ?key],
        world := snd (get_secret (env_kube E) ?key (world s))\<rparr>)"
      by (rule creating_call [OF s]) (simp_all add: apartD [OF ap])
    from keepsD [OF keeps_creating_createSecret [OF assms name keys] this run [unfolded processGroup_create [OF Some]]]
    show "creating E vault token v ns p t0 s'" .
  qed
qed

lemma process_creates:
  assumes "import_laws E vault secrets"
  shows "honest (creates v ns p) t0 (connected E vault secrets v c p) (ProcessImportSecret E ns ''create'') (\<lambda>_. False)"
proof (rule honestI)
  fix s :: "'a ist" and r s'
  note laws = import_lawsD [OF assms]
  let ?groups = "groupRefs (iCertificateSecretRef p)" and ?told = "told (creates v ns p) t0"
  let ?rest = "andThen (rangeOrder (env_kube E) (map fst ?groups)) (\<lambda>order.
      andThen (forEach order (processGroup E ns ''create'' ?groups)) (\<lambda>r. case r of Some result \<Rightarrow> ret result | None \<Rightarrow> ret None))"
  assume s: "connected E vault secrets v c p s" and t0: "?told s" and run: "ProcessImportSecret E ns ''create'' s = (r, s')"
  from s obtain y k token where y: "ImportObj s = Some y" "iAzureKV y = p" and k: "AkvClient s = Some k"
    "Client k = NewAzureKeyVaultClient (env_http E) token" "VaultUrl k = iVaultUrl p" and v: "vault (world s) = v"
    by (auto simp: connected_def waits_def)
  let ?s1 = "s\<lparr>AkvClient := Some (k\<lparr>kvSecret := Some emptyKvSecret\<rparr>)\<rparr>"
  have "creating E vault token v ns p t0 ?s1" using k v t0 by (simp add: creating_def importing_def told_def)
  moreover have "?rest ?s1 = (r, s')"
    using run k(1) y by (simp add: ProcessImportSecret_def run_andThen [of "onAkv m" for m] run_onAkv run_setKvSecret
        run_andThen [of theImport] run_theImport Let_def)
  moreover have "keeps (creating E vault token v ns p t0) (rangeOrder (env_kube E) ks)" for ks
    unfolding rangeOrder_def by (rule keeps_call, rule creating_call) (simp_all add: apartD [OF laws(2)])
  then have "keeps (creating E vault token v ns p t0) ?rest"
    by (intro go_keeps keeps_creating_group [OF laws(4,2,3)])
  ultimately have "creating E vault token v ns p t0 s'" by (blast intro: keepsD)
  then show "?told s' \<or> False" by (simp add: creating_def)
qed

lemma honest_then:
  assumes "honest P t0 I m (\<lambda>_. False)" and "\<And>a. adds P (f a)"
  shows "honest P t0 I (andThen m f) Q"
proof (rule honestI)
  fix s r s'
  assume s: "I s" "told P t0 s" and run: "andThen m f s = (r, s')"
  obtain r1 s1 where m: "m s = (r1, s1)" by fastforce
  from honestD [OF assms(1) s m] run m keepsD [OF keeps_told [OF assms(2)]] show "told P t0 s' \<or> Q s'"
    by (cases r1) (auto simp: run_andThen)
qed

lemma status_tells: "adds (\<lambda>e. \<not> createsSecret e) (updateStatusWithCondition E cond)"
  unfolding updateStatusWithCondition_def retryStatus_def finishStatus_def createEvent_def call_defs Let_def
  by (intro go_adds adds_theImport; simp)

lemma importSecrets_creates:
  assumes "import_laws E vault secrets"
  shows "honest (creates v ns p) t0 (connected E vault secrets v c p) (importSecrets E ns) (\<lambda>_. False)"
proof -
  have new: "\<not> createsSecret e \<Longrightarrow> creates v ns p e" for e by (cases e) simp_all
  show ?thesis
    unfolding importSecrets_def
    by (intro honest_then [OF process_creates [OF assms]] go_adds adds_theImport adds_mono [OF status_tells new]
        adds_mono [OF silent_retryLater creates_tame] adds_mono [OF silent_calls(6) creates_tame]) simp_all
qed

interpretation complete: import_requests E vault secrets v c p ns "creates v ns p" "\<lambda>_. False" for E vault secrets v c p ns
  by unfold_locales (simp_all add: creates_tame importSecrets_creates)

section \<open>Property\<close>

text \<open>
  C9. An import creates no secret by halves. However a reconciliation of a resource ends, every
  secret that it asks the cluster to create is in the destination namespace, has the name of
  a reference, and holds just what the resource determines: under each key the vault's value of the
  last reference to it, decoded where it is base64, and empty values for \<open>tls.key\<close> and \<open>tls.crt\<close> where
  the vault has none. An error at the third of five secrets leaves the first two complete.
\<close>

theorem import_creates_whole_secrets:
  assumes "import_laws E vault secrets" and "importFinds E req (world s) x" and "ImportReconcile E req s = (r, s')"
    and "trace s' = trace s @ es" and "ClientsetCreateSecret ns y \<in> set es"
  shows "ns = destinationNamespace req x \<and> Namespace (secMeta y) = ns
    \<and> Name (secMeta y) \<in> SecretName ` set (iCertificateSecretRef (iAzureKV x))
    \<and> map_of (mapData (Data y)) = withTlsKeys (importedData (vault (world s)) (iVaultUrl (iAzureKV x))
        (wanted (iCertificateSecretRef (iAzureKV x)) (Name (secMeta y))))"
proof -
  from complete.honest_ImportReconcile [OF assms(1,2) refl refl refl refl assms(3)]
  have "creates (vault (world s)) (destinationNamespace req x) (iAzureKV x) (ClientsetCreateSecret ns y)"
    using assms(4,5) by (auto simp: told_def simp del: creates.simps)
  then show ?thesis by (auto simp: tlsSecret_def mapData_def)
qed

text \<open>The secret that the example's reconciliation creates.\<close>

theorem import_creates_whole_secrets_witness:
  "\<exists>r s' y. ImportReconcile liveEnv (importKey (syncImport [])) (liveState [(''u'', ''web'') \<mapsto> ''-cert-''] Map.empty) = (r, s')
     \<and> ClientsetCreateSecret ''prod'' y \<in> set (trace s') \<and> map_of (mapData (Data y)) ''tls.crt'' = Some ''-cert-''"
proof -
  let ?s = "liveState [(''u'', ''web'') \<mapsto> ''-cert-''] Map.empty" and ?req = "importKey (syncImport [])"
  let ?x = "syncImport [caseRef ''tls.crt'' ''Web'']"
  obtain r s' where run: "ImportReconcile liveEnv ?req ?s = (r, s')" by fastforce
  have "list_ex createsSecret (trace (snd (ImportReconcile liveEnv ?req ?s)))" by code_simp
  then obtain e where "e \<in> set (trace s')" "createsSecret e" by (auto simp: run list_ex_iff)
  then obtain ns y where y: "ClientsetCreateSecret ns y \<in> set (trace s')" by (cases e rule: effect.exhaust) auto
  have x: "importFinds liveEnv ?req (world ?s) ?x"
    by (simp add: importFinds_def liveEnv_def liveKube_def syncImport_def emptyMeta_def)
  have "trace s' = trace ?s @ trace s'" by (simp add: liveState_def)
  note new = import_creates_whole_secrets [OF liveEnv_laws x run this y]
  have "\<not> IsBase64Encoded ''-cert-''" "ToLower ''Web'' = ''web''" by code_simp+
  with new have "ns = ''prod''" "map_of (mapData (Data y)) ''tls.crt'' = Some ''-cert-''"
    by (auto simp: destinationNamespace_def syncImport_def importKey_def metaKey_def liveState_def
        withTlsKeys_def importedData_def wanted_def map_add_def plain_def split: option.split)
  with run y show ?thesis by blast
qed

end
