(* ===== verification/Import_Deletion.thy ===== *)
theory Import_Deletion
  imports Import_Sync Import_Lifecycle
begin

text \<open>
  The deletion of an import resource: a whole reconciliation of a resource that is being deleted,
  from the credentials to the removal of the finalizer.
\<close>

section \<open>The deletion of the secrets\<close>

fun deleteEffect :: "effect \<Rightarrow> bool" where
  "deleteEffect (effect.GetSecret k) = True"
| "deleteEffect (DeleteK8sSecret x) = True"
| "deleteEffect (Sleep d) = True"
| "deleteEffect (RangeMap ks) = True"
| "deleteEffect _ = False"

text \<open>
  \<open>adding P R s s'\<close>: the run from \<open>s\<close> to \<open>s'\<close> changes the trace and the world only, each request
  it adds is one of \<open>P\<close>, and all of them together satisfy \<open>R\<close>.
\<close>

definition adding :: "(effect \<Rightarrow> bool) \<Rightarrow> (effect set \<Rightarrow> bool) \<Rightarrow> ('w, 'z) st_scheme \<Rightarrow> ('w, 'z) st_scheme \<Rightarrow> bool" where
  "adding P R s s' \<longleftrightarrow> (\<exists>es w. s' = s\<lparr>trace := trace s @ es, world := w\<rparr> \<and> (\<forall>e \<in> set es. P e) \<and> R (set es))"

lemma addingI: "s' = s\<lparr>trace := trace s @ es, world := w\<rparr> \<Longrightarrow> \<forall>e \<in> set es. P e \<Longrightarrow> R (set es) \<Longrightarrow> adding P R s s'"
  unfolding adding_def by blast

lemma adding_refl: "R {} \<Longrightarrow> adding P R s s"
  by (rule addingI [where es = "[]" and w = "world s"]) simp_all

lemma adding_trans:
  assumes "adding P Q s s1" and "adding P R s1 s2" and "\<And>A B. Q A \<Longrightarrow> R B \<Longrightarrow> S (A \<union> B)"
  shows "adding P S s s2"
proof -
  from assms(1,2) obtain es fs w w' where "s1 = s\<lparr>trace := trace s @ es, world := w\<rparr>" "s2 = s1\<lparr>trace := trace s1 @ fs, world := w'\<rparr>"
    and "\<forall>e \<in> set es. P e" "\<forall>e \<in> set fs. P e" "Q (set es)" "R (set fs)"
    unfolding adding_def by blast
  then show ?thesis by (intro addingI [where es = "es @ fs" and w = w']) (auto intro: assms(3))
qed

lemma adding_call: "P e \<Longrightarrow> R {e} \<Longrightarrow> adding P R s (s\<lparr>trace := trace s @ [e], world := w\<rparr>)"
  by (rule addingI [where es = "[e]" and w = w]) simp_all

lemma adding_weaken: "adding P Q s s' \<Longrightarrow> (\<And>A. Q A \<Longrightarrow> R A) \<Longrightarrow> adding P R s s'"
  unfolding adding_def by blast

text \<open>A loop whose rounds are all made.\<close>

lemma forEach_adding:
  assumes "\<And>x s. x \<in> set xs \<Longrightarrow> \<exists>s'. body x s = (Done None, s') \<and> adding P (R x) s s'"
    and mono: "\<And>x A B. R x A \<Longrightarrow> R x (A \<union> B)"
  shows "\<exists>s'. forEach xs body s = (Done None, s') \<and> adding P (\<lambda>A. \<forall>x \<in> set xs. R x A) s s'"
  using assms(1)
proof (induction xs arbitrary: s)
  case Nil
  show ?case by (simp add: run_ret adding_refl)
next
  case (Cons x xs)
  from Cons.prems [of x s] obtain s1 where x: "body x s = (Done None, s1)" "adding P (R x) s s1" by auto
  obtain s2 where rest: "forEach xs body s1 = (Done None, s2)" "adding P (\<lambda>A. \<forall>x \<in> set xs. R x A) s1 s2"
    using Cons.IH [of s1] Cons.prems by auto
  have "R y (A \<union> B)" if "R x A" "\<forall>x \<in> set xs. R x B" "y \<in> set (x # xs)" for y A B
    using that mono [of y B A] mono [of x A B] by (auto simp: Un_commute)
  then have "adding P (\<lambda>A. \<forall>y \<in> set (x # xs). R y A) s s2"
    by (intro adding_trans [OF x(2) rest(2)]) blast
  with x rest show ?case by (simp add: run_andThen)
qed

lemma deleteAttempt_adding:
  "\<exists>q s'. deleteAttempt E x i s = (Done q, s') \<and> adding deleteEffect (\<lambda>A. DeleteK8sSecret x \<in> A) s s'"
proof -
  let ?w = "snd (delete_secret (env_kube E) x (world s))"
  let ?s1 = "s\<lparr>trace := trace s @ [DeleteK8sSecret x], world := ?w\<rparr>"
  let ?d = "floatBackoff (30 * Second) (2 * Second) i"
  have one: "adding deleteEffect (\<lambda>A. DeleteK8sSecret x \<in> A) s ?s1" by (rule adding_call) simp_all
  moreover have "adding deleteEffect (\<lambda>_. True) ?s1 (?s1\<lparr>trace := trace ?s1 @ [Sleep ?d], world := snd (time_sleep (env_kube E) ?d ?w)\<rparr>)"
    by (rule adding_call) simp_all
  ultimately have "adding deleteEffect (\<lambda>A. DeleteK8sSecret x \<in> A) s (?s1\<lparr>trace := trace ?s1 @ [Sleep ?d], world := snd (time_sleep (env_kube E) ?d ?w)\<rparr>)"
    by (rule adding_trans) simp
  with one show ?thesis
    by (auto simp: deleteAttempt_def kDeleteSecret_def timeSleep_def run_andThen run_call run_ret split: option.split)
qed

lemma deleteAttempts_adding:
  "\<exists>q s'. forEach (i # is) (deleteAttempt E x) s = (Done q, s') \<and> adding deleteEffect (\<lambda>A. DeleteK8sSecret x \<in> A) s s'"
proof (induction "is" arbitrary: i s)
  case Nil
  from deleteAttempt_adding [of E x i s] show ?case
    by (auto simp: run_andThen run_ret split: option.split)
next
  case (Cons j js)
  from deleteAttempt_adding [of E x i s] obtain q s1 where one: "deleteAttempt E x i s = (Done q, s1)"
    "adding deleteEffect (\<lambda>A. DeleteK8sSecret x \<in> A) s s1" by blast
  show ?case
  proof (cases q)
    case None
    from Cons.IH [of j s1] obtain q' s2 where two: "forEach (j # js) (deleteAttempt E x) s1 = (Done q', s2)"
      "adding deleteEffect (\<lambda>A. DeleteK8sSecret x \<in> A) s1 s2" by blast
    have "adding deleteEffect (\<lambda>A. DeleteK8sSecret x \<in> A) s s2" using one(2) two(2) by (rule adding_trans) simp
    with one None two(1) show ?thesis by (simp add: run_andThen [of "deleteAttempt E x i"])
  next
    case (Some a)
    with one show ?thesis by (simp add: run_andThen [of "deleteAttempt E x i"] run_ret)
  qed
qed

lemma deleteSecret_adding:
  "\<exists>s'. deleteSecret E x s = (Done None, s') \<and> adding deleteEffect (\<lambda>A. DeleteK8sSecret x \<in> A) s s'"
proof -
  have "[0..<unat MaxRetries] = 0 # [1..<5]" by (simp add: MaxRetries_def upt_rec)
  with deleteAttempts_adding [of 0 "[1..<5]" E x s] show ?thesis
    by (auto simp: deleteSecret_def run_andThen [of "forEach a b" for a b] run_ret simp del: forEach.simps)
qed

text \<open>The secret of one name: it is read, and what was read is asked to be deleted, or else the empty object.\<close>

definition asksDeletion :: "'w env \<Rightarrow> string \<Rightarrow> string \<Rightarrow> effect set \<Rightarrow> bool" where
  "asksDeletion E ns name A \<longleftrightarrow> (let key = \<lparr>nn_Namespace = ns, nn_Name = name\<rparr> in effect.GetSecret key \<in> A
     \<and> (\<exists>w. DeleteK8sSecret (case fst (get_secret (env_kube E) key w) of Inl _ \<Rightarrow> emptySecret | Inr d \<Rightarrow> d) \<in> A))"

lemma processGroup_delete_adding:
  assumes "map_of groups name = Some keys"
  shows "\<exists>s'. processGroup E ns ''delete'' groups name s = (Done None, s') \<and> adding deleteEffect (asksDeletion E ns name) s s'"
proof -
  let ?key = "\<lparr>nn_Namespace = ns, nn_Name = name\<rparr>"
  let ?s1 = "s\<lparr>trace := trace s @ [effect.GetSecret ?key], world := snd (get_secret (env_kube E) ?key (world s))\<rparr>"
  let ?d = "case fst (get_secret (env_kube E) ?key (world s)) of Inl _ \<Rightarrow> emptySecret | Inr d \<Rightarrow> d"
  have one: "adding deleteEffect (\<lambda>A. effect.GetSecret ?key \<in> A) s ?s1" by (rule adding_call) simp_all
  obtain s2 where run: "deleteSecret E ?d ?s1 = (Done None, s2)"
    and two: "adding deleteEffect (\<lambda>A. DeleteK8sSecret ?d \<in> A) ?s1 s2"
    using deleteSecret_adding by blast
  have "adding deleteEffect (asksDeletion E ns name) s s2"
    using one two by (rule adding_trans) (auto simp: asksDeletion_def Let_def)
  with run show ?thesis unfolding processGroup_delete [OF assms] Let_def by blast
qed

text \<open>With the action "delete" \<open>ProcessImportSecret\<close> never returns an error, and it comes to every secret.\<close>

lemma ProcessImportSecret_delete:
  assumes visits: "range_visits_all (env_kube E)" and "AkvClient s = Some k" and "ImportObj s = Some x"
  shows "\<exists>s'. ProcessImportSecret E ns ''delete'' s = (Done None, s')
    \<and> adding deleteEffect (\<lambda>A. \<forall>c \<in> set (iCertificateSecretRef (iAzureKV x)). asksDeletion E ns (SecretName c) A)
        (s\<lparr>AkvClient := Some (k\<lparr>kvSecret := Some emptyKvSecret\<rparr>)\<rparr>) s'"
proof -
  let ?s0 = "s\<lparr>AkvClient := Some (k\<lparr>kvSecret := Some emptyKvSecret\<rparr>)\<rparr>"
  let ?refs = "iCertificateSecretRef (iAzureKV x)"
  let ?groups = "groupRefs ?refs"
  let ?order = "fst (range_order (env_kube E) (map fst ?groups) (world s))"
  let ?s1 = "?s0\<lparr>trace := trace ?s0 @ [RangeMap (map fst ?groups)], world := snd (range_order (env_kube E) (map fst ?groups) (world ?s0))\<rparr>"
  have "onAkv (setKvSecret emptyKvSecret) s = (Done (), ?s0)"
    using assms by (simp add: run_onAkv run_setKvSecret)
  note start = andThen_Done [where m = "onAkv (setKvSecret emptyKvSecret)" and s = s, OF this]
  have names: "set ?order = SecretName ` set ?refs"
    using visits groupRefs_keys [of ?refs] by (auto simp: range_visits_all_def)
  have one: "adding deleteEffect (\<lambda>_. True) ?s0 ?s1" by (rule adding_call) simp_all
  have "\<exists>s'. forEach ?order (processGroup E ns ''delete'' ?groups) ?s1 = (Done None, s')
      \<and> adding deleteEffect (\<lambda>A. \<forall>name \<in> set ?order. asksDeletion E ns name A) ?s1 s'"
  proof (rule forEach_adding)
    fix name s assume "name \<in> set ?order"
    then have "map_of ?groups name \<noteq> None" using names groupRefs_keys [of ?refs] by (auto simp: map_of_eq_None_iff)
    then show "\<exists>s'. processGroup E ns ''delete'' ?groups name s = (Done None, s') \<and> adding deleteEffect (asksDeletion E ns name) s s'"
      using processGroup_delete_adding by blast
  qed (auto simp: asksDeletion_def Let_def)
  then obtain s' where run: "forEach ?order (processGroup E ns ''delete'' ?groups) ?s1 = (Done None, s')"
    and two: "adding deleteEffect (\<lambda>A. \<forall>name \<in> set ?order. asksDeletion E ns name A) ?s1 s'" by blast
  have "adding deleteEffect (\<lambda>A. \<forall>c \<in> set ?refs. asksDeletion E ns (SecretName c) A) ?s0 s'"
    using one two by (rule adding_trans) (auto simp: names asksDeletion_def Let_def)
  with run assms show ?thesis
    by (auto simp: ProcessImportSecret_def start run_andThen [of theImport] run_theImport rangeOrder_def run_andThen [of "call e f" for e f]
        run_call run_andThen [of "forEach a b" for a b] run_ret Let_def)
qed

text \<open>The removal of the finalizer, which is what the reconciliation then does.\<close>

definition updateAnswer :: "'w env \<Rightarrow> ImportCertificateSecret \<Rightarrow> 'w \<Rightarrow> go_error option" where
  "updateAnswer E x w = (case fst (update_import (env_kube E) x w) of Inl e \<Rightarrow> Some e | Inr _ \<Rightarrow> None)"

lemma removeFinalizer_run:
  assumes "ImportObj s = Some x"
  obtains s' where "removeFinalizer E s = (Done (updateAnswer E (dropFinalizerI x) (world s)), s')"
    and "trace s' = trace s @ [UpdateImport (dropFinalizerI x)]"
proof -
  have "x\<lparr>iMeta := (iMeta x)\<lparr>Finalizers := RemoveString (Finalizers (iMeta x)) FINALIZER\<rparr>\<rparr> = dropFinalizerI x"
    by (simp add: dropFinalizerI_def)
  with assms show thesis
    by (cases "fst (update_import (env_kube E) (dropFinalizerI x) (world s))")
      (auto simp: removeFinalizer_def run_andThen run_theImport writeImport_def run_setImport kUpdateImport_def run_call run_ret
        updateAnswer_def intro: that)
qed

lemma finalize_run:
  assumes visits: "range_visits_all (env_kube E)" and "AkvClient s = Some k" and "ImportObj s = Some x"
    and "FINALIZER \<in> set (Finalizers (iMeta x))" and "\<not> MaxRetries \<le>s iRetryCount (iStatus x)"
  obtains w s' ds where "finalize E ns s = (Done (emptyResult, updateAnswer E (dropFinalizerI x) w), s')"
    and "trace s' = trace s @ ds @ [UpdateImport (dropFinalizerI x)]" and "\<forall>e \<in> set ds. deleteEffect e"
    and "\<forall>c \<in> set (iCertificateSecretRef (iAzureKV x)). asksDeletion E ns (SecretName c) (set ds)"
proof -
  obtain s1 where run: "ProcessImportSecret E ns ''delete'' s = (Done None, s1)"
    and ext: "adding deleteEffect (\<lambda>A. \<forall>c \<in> set (iCertificateSecretRef (iAzureKV x)). asksDeletion E ns (SecretName c) A)
      (s\<lparr>AkvClient := Some (k\<lparr>kvSecret := Some emptyKvSecret\<rparr>)\<rparr>) s1"
    using ProcessImportSecret_delete [OF assms(1,2,3)] by blast
  from ext obtain ds where ds: "trace s1 = trace s @ ds" "\<forall>e \<in> set ds. deleteEffect e"
    "\<forall>c \<in> set (iCertificateSecretRef (iAzureKV x)). asksDeletion E ns (SecretName c) (set ds)" and obj: "ImportObj s1 = Some x"
    using assms(3) by (auto simp: adding_def)
  obtain s2 where last: "removeFinalizer E s1 = (Done (updateAnswer E (dropFinalizerI x) (world s1)), s2)"
    and tr: "trace s2 = trace s1 @ [UpdateImport (dropFinalizerI x)]"
    by (rule removeFinalizer_run [OF obj])
  have "finalize E ns s = andThen (removeFinalizer E) (\<lambda>err. case err of
      Some e \<Rightarrow> ret (emptyResult, Some e) | None \<Rightarrow> ret (emptyResult, None)) s1"
    using assms run
    by (simp add: finalize_def run_andThen [of theImport] run_theImport run_andThen [of "ProcessImportSecret a b c" for a b c])
  then have "finalize E ns s = (Done (emptyResult, updateAnswer E (dropFinalizerI x) (world s1)), s2)"
    by (cases "updateAnswer E (dropFinalizerI x) (world s1)") (simp_all add: run_andThen [of "removeFinalizer E"] last run_ret)
  with tr ds show thesis by (intro that) auto
qed

section \<open>One reconciliation\<close>

text \<open>The requests before the deletion: the resource, the client, the credentials.\<close>

fun accessEffect :: "effect \<Rightarrow> bool" where
  "accessEffect (GetCRD n) = True"
| "accessEffect (GetImport k) = True"
| "accessEffect GetConfig = True"
| "accessEffect NewForConfig = True"
| "accessEffect (GetServiceAccount k) = True"
| "accessEffect (ClientsetCreateToken ns n a) = True"
| "accessEffect (AcquireToken a c t sc) = True"
| "accessEffect _ = False"

text \<open>A step that always returns, makes such requests only and leaves the resource in hand alone.\<close>

definition accesses :: "('w ist, 'a) go \<Rightarrow> bool" where
  "accesses m \<longleftrightarrow> (\<forall>s. \<exists>a s' es. m s = (Done a, s') \<and> ImportObj s' = ImportObj s \<and> trace s' = trace s @ es \<and> (\<forall>e \<in> set es. accessEffect e))"

lemma accessesD: "accesses m \<Longrightarrow> \<exists>a s' es. m s = (Done a, s') \<and> ImportObj s' = ImportObj s \<and> trace s' = trace s @ es \<and> (\<forall>e \<in> set es. accessEffect e)"
  unfolding accesses_def by blast

lemma accesses_ret: "accesses (ret a)"
  by (simp add: accesses_def run_ret)

lemma accesses_call: "(\<And>a. accessEffect (e a)) \<Longrightarrow> accesses (call e f)"
  by (auto simp: accesses_def run_call)

lemma accesses_modify: "(\<And>s. ImportObj (f s) = ImportObj s) \<Longrightarrow> (\<And>s. trace (f s) = trace s) \<Longrightarrow> accesses (modify f)"
  by (simp add: accesses_def run_modify)

lemma accesses_andThen:
  assumes "accesses m" and "\<And>a. accesses (f a)"
  shows "accesses (andThen m f)"
  unfolding accesses_def
proof
  fix s
  from accessesD [OF assms(1)] obtain a s1 es where one: "m s = (Done a, s1)" "ImportObj s1 = ImportObj s" "trace s1 = trace s @ es"
    "\<forall>e \<in> set es. accessEffect e" by blast
  from accessesD [OF assms(2)] obtain b s2 fs where two: "f a s1 = (Done b, s2)" "ImportObj s2 = ImportObj s1" "trace s2 = trace s1 @ fs"
    "\<forall>e \<in> set fs. accessEffect e" by blast
  from one two show "\<exists>a s' es. andThen m f s = (Done a, s') \<and> ImportObj s' = ImportObj s \<and> trace s' = trace s @ es \<and> (\<forall>e \<in> set es. accessEffect e)"
    by (intro exI [of _ b] exI [of _ s2] exI [of _ "es @ fs"]) (auto simp: run_andThen)
qed

lemma accesses_cases:
  "accesses m \<Longrightarrow> (\<And>a. accesses (f a)) \<Longrightarrow> accesses (case x of None \<Rightarrow> m | Some a \<Rightarrow> f a)"
  "(\<And>e. accesses (g e)) \<Longrightarrow> (\<And>a. accesses (h a)) \<Longrightarrow> accesses (case y of Inl e \<Rightarrow> g e | Inr a \<Rightarrow> h a)"
  by (simp_all split: option.split sum.split)

lemma accesses_steps:
  "accesses (setKubeClient E)" "accesses (kGetServiceAccount K k)" "accesses (AuthorizerForWorkloadIdentity K M aza)"
  unfolding setKubeClient_def SetKubeClient_def kGetServiceAccount_def AuthorizerForWorkloadIdentity_def FetchSAToken_def
    csCreateToken_def NewTokenProvider_def Let_def
  by (intro accesses_andThen accesses_cases accesses_ret accesses_call accesses_modify; simp)+

lemma authorizer_set:
  "AuthorizerForWorkloadIdentity K M aza s = (Done (aza', None), s') \<Longrightarrow> \<exists>token. Authorizer aza' = Some token"
  by (auto simp: AuthorizerForWorkloadIdentity_def FetchSAToken_def csCreateToken_def NewTokenProvider_def Let_def go_run
      split: option.splits sum.splits)

text \<open>Recording an outcome ends.\<close>

lemma finishStatus_returns: "ImportObj t = Some z \<Longrightarrow> \<exists>out s'. finishStatus E c t = (Done out, s')"
  by (rule finishStatus_run [where E = E and cond = c]) blast+

lemma updateStatus_returns:
  assumes x: "ImportObj s = Some x"
  shows "\<exists>out s'. updateStatusWithCondition E cond s = (Done out, s')"
proof -
  let ?y = "statusSent E cond x (world s)"
  let ?s1 = "s\<lparr>ImportObj := Some ?y, trace := trace s @ [Now, StatusImport ?y], world := afterSent E cond x (world s)\<rparr>"
  let ?c = "cond\<lparr>LastTransitionTime := fst (time_now (env_kube E) (world s))\<rparr>"
  show ?thesis
  proof (cases "fst (status_import (env_kube E) ?y (snd (time_now (env_kube E) (world s))))")
    case (Inr z)
    have "ImportObj (?s1\<lparr>ImportObj := Some z\<rparr>) = Some z" by simp
    from finishStatus_returns [OF this] show ?thesis by (simp add: updateStatus_run [OF x] Inr Let_def)
  next
    case (Inl e)
    have eq: "updateStatusWithCondition E cond s = andThen (retryStatus E ?y) (\<lambda>failed. case failed of
        Some e \<Rightarrow> ret (emptyResult, Some e) | None \<Rightarrow> finishStatus E ?c) ?s1"
      by (simp add: updateStatus_run [OF x] Inl Let_def)
    obtain failed t where retry: "retryStatus E ?y ?s1 = (Done failed, t)" and obj: "failed = None \<longrightarrow> (\<exists>z. ImportObj t = Some z)"
      by (cases "retryStatus E ?y ?s1") (auto simp: retryStatus_run Let_def split: sum.splits)
    show ?thesis
    proof (cases failed)
      case None
      with obj obtain z where "ImportObj t = Some z" by blast
      from finishStatus_returns [OF this] show ?thesis
        by (simp add: eq run_andThen [of "retryStatus a b" for a b] retry None)
    next
      case (Some e')
      then show ?thesis by (simp add: eq run_andThen [of "retryStatus a b" for a b] retry run_ret)
    qed
  qed
qed

lemma retryLater_asks:
  assumes x: "ImportObj s = Some x" and n: "0 \<le>s iRetryCount (iStatus x)" "\<not> MaxRetries \<le>s iRetryCount (iStatus x)"
  shows "\<exists>out s' es. retryLater E BaseDelay ty reason prefix err s = (Done out, s') \<and> askedAgain out
    \<and> trace s' = trace s @ es \<and> (\<forall>e \<in> set es. statusEffect e)"
proof -
  let ?n = "iRetryCount (iStatus x) + 1"
  have set: "iRetryCount (iStatus x) \<in> {0, 1, 2, 3, 4}" using small_count [OF n] by auto
  then have pos: "0 \<le>s ?n" by (auto simp: word_sle_eq)
  let ?c = "condition ty ConditionFalse reason
      (prefix @ fmt_int ?n @ '': '' @ errorText err @ ''. Next retry in '' @ fmt_duration (retryDelay BaseDelay ?n))"
  let ?s1 = "s\<lparr>ImportObj := Some (setRetry ?n x)\<rparr>"
  have "ImportObj ?s1 = Some (setRetry ?n x)" by simp
  from updateStatus_returns [OF this] obtain res e s' where upd: "updateStatusWithCondition E ?c ?s1 = (Done (res, e), s')" by fastforce
  from addsE [OF adds_updateStatus upd] obtain es where "trace s' = trace s @ es" "\<forall>e \<in> set es. statusEffect e" by auto
  moreover have "0 <s retryDelay BaseDelay ?n"
    using set by (auto simp: retryDelay_def shl1_small duration_defs Let_def word_sless_alt)
  ultimately show ?thesis
    using upd by (simp add: retryLater_run [OF x pos] askedAgain_def)
qed

text \<open>
  The reconciliation of a resource that is being deleted ends in one of two ways: before the
  deletion, asking to be run again, or with the finalizer removed.
\<close>

definition endsBefore :: "effect list \<Rightarrow> (Result \<times> go_error option) outcome \<Rightarrow> 'w ist \<Rightarrow> bool" where
  "endsBefore t0 r s' \<longleftrightarrow> (\<exists>out es. r = Done out \<and> askedAgain out \<and> trace s' = t0 @ es \<and> (\<forall>e \<in> set es. accessEffect e \<or> statusEffect e))"

definition endsDeleted :: "'w env \<Rightarrow> string \<Rightarrow> ImportCertificateSecret \<Rightarrow> effect list \<Rightarrow> (Result \<times> go_error option) outcome \<Rightarrow> 'w ist \<Rightarrow> bool" where
  "endsDeleted E ns x t0 r s' \<longleftrightarrow> (\<exists>w as ds. r = Done (emptyResult, updateAnswer E (dropFinalizerI x) w)
     \<and> trace s' = t0 @ as @ ds @ [UpdateImport (dropFinalizerI x)]
     \<and> (\<forall>e \<in> set as. accessEffect e) \<and> (\<forall>e \<in> set ds. deleteEffect e)
     \<and> (\<forall>c \<in> set (iCertificateSecretRef (iAzureKV x)). asksDeletion E ns (SecretName c) (set ds)))"

text \<open>The states before the deletion.\<close>

definition arrivedAt :: "effect list \<Rightarrow> ImportCertificateSecret \<Rightarrow> 'w ist \<Rightarrow> bool" where
  "arrivedAt t0 x s \<longleftrightarrow> ImportObj s = Some x \<and> told accessEffect t0 s"

lemma endsBefore_error: "arrivedAt t0 x s \<Longrightarrow> ret (emptyResult, Some e) s = (r, s') \<Longrightarrow> endsBefore t0 r s'"
  by (auto simp: endsBefore_def arrivedAt_def told_def run_ret askedAgain_def)

lemma accesses_arrivedAt:
  assumes "accesses m" and "arrivedAt t0 x s"
  obtains a s' where "m s = (Done a, s')" and "arrivedAt t0 x s'"
proof -
  from accessesD [OF assms(1)] obtain a s' es where m: "m s = (Done a, s')" "ImportObj s' = ImportObj s" "trace s' = trace s @ es"
    "\<forall>e \<in> set es. accessEffect e" by blast
  from assms(2) obtain ds where "trace s = t0 @ ds" "\<forall>e \<in> set ds. accessEffect e" by (auto simp: arrivedAt_def told_def)
  with m have "told accessEffect t0 s'" unfolding told_def by (intro exI [of _ "ds @ es"]) auto
  with m(2) assms(2) have "arrivedAt t0 x s'" by (simp add: arrivedAt_def)
  with m(1) show thesis by (rule that)
qed

lemma deleting_run:
  assumes visits: "range_visits_all (env_kube E)" and s: "arrivedAt t0 x s"
    and x: "DeletionTimestamp (iMeta x) \<noteq> None" "FINALIZER \<in> set (Finalizers (iMeta x))"
    and n: "0 \<le>s iRetryCount (iStatus x)" "\<not> MaxRetries \<le>s iRetryCount (iStatus x)"
    and conds: "\<forall>c \<in> set (iConditions (iStatus x)). Reason c \<noteq> []"
    and run: "reconcileImportCertificateSecret E req s = (r, s')"
  shows "endsBefore t0 r s' \<or> endsDeleted E (destinationNamespace req x) x t0 r s'"
proof -
  let ?sa = "\<lparr>nn_Namespace = nn_Namespace req, nn_Name = sa_Name (iServiceAccountRef (iAzureKV x))\<rparr>"
  let ?wa = "\<lambda>account. \<lparr>waServiceAccount = account, SaAudiences = Audiences (iServiceAccountRef (iAzureKV x)), Authorizer = None\<rparr>"
  let ?auth = "\<lambda>account. andThen (AuthorizerForWorkloadIdentity (env_kube E) (env_msal E) (?wa account)) (\<lambda>(azureauth, err). case err of
       Some e \<Rightarrow> retryLater E BaseDelay ''MSALAuth'' ''MSALAuthFailed'' ''Retry '' e
     | None \<Rightarrow> seq (setAkvClient E (Authorizer azureauth) (iVaultUrl (iAzureKV x))) (finalize E (destinationNamespace req x)))"
  let ?account = "andThen (kGetServiceAccount (env_kube E) ?sa) (\<lambda>r. case r of Inl e \<Rightarrow> ret (emptyResult, Some e) | Inr account \<Rightarrow> ?auth account)"
  obtain err s1 where one: "setKubeClient E s = (Done err, s1)" and s1: "arrivedAt t0 x s1"
    by (rule accesses_arrivedAt [OF accesses_steps(1) s])
  have start: "(case err of Some e \<Rightarrow> ret (emptyResult, Some e) | None \<Rightarrow> ?account) s1 = (r, s')"
  proof -
    have obj: "ImportObj s = Some x" using s by (simp add: arrivedAt_def)
    have del: "(DeletionTimestamp (iMeta x) = None) = False" using x(1) by simp
    have "andThen (setKubeClient E) (\<lambda>err. case err of Some e \<Rightarrow> ret (emptyResult, Some e) | None \<Rightarrow> ?account) s = (r, s')"
      using run by (simp only: reconcileImportCertificateSecret_def run_andThen [of theImport] run_theImport obj option.case
        outcome.case prod.case ConditionExists_reason [OF conds] n(2) if_False Let_def simp_thms if_True del)
    then show ?thesis by (simp only: run_andThen [of "setKubeClient E"] one prod.case outcome.case)
  qed
  show ?thesis
  proof (cases err)
    case (Some e)
    with start endsBefore_error [OF s1] show ?thesis by simp
  next
    case None
    obtain q s2 where two: "kGetServiceAccount (env_kube E) ?sa s1 = (Done q, s2)" and s2: "arrivedAt t0 x s2"
      by (rule accesses_arrivedAt [OF accesses_steps(2) s1])
    have second: "(case q of Inl e \<Rightarrow> ret (emptyResult, Some e) | Inr account \<Rightarrow> ?auth account) s2 = (r, s')"
      using start None by (simp add: run_andThen [of "kGetServiceAccount a b" for a b] two)
    show ?thesis
    proof (cases q)
      case (Inl e)
      with second endsBefore_error [OF s2] show ?thesis by simp
    next
      case (Inr account)
      obtain a s3 where three: "AuthorizerForWorkloadIdentity (env_kube E) (env_msal E) (?wa account) s2 = (Done a, s3)"
        and s3: "arrivedAt t0 x s3"
        by (rule accesses_arrivedAt [OF accesses_steps(3) s2])
      obtain aza bad where a: "a = (aza, bad)" by fastforce
      have third: "(case bad of Some e \<Rightarrow> retryLater E BaseDelay ''MSALAuth'' ''MSALAuthFailed'' ''Retry '' e
         | None \<Rightarrow> seq (setAkvClient E (Authorizer aza) (iVaultUrl (iAzureKV x))) (finalize E (destinationNamespace req x))) s3 = (r, s')"
        using second Inr a by (simp add: run_andThen [of "AuthorizerForWorkloadIdentity k m w" for k m w] three)
      show ?thesis
      proof (cases bad)
        case (Some e)
        have "ImportObj s3 = Some x" using s3 by (simp add: arrivedAt_def)
        from retryLater_asks [OF this n, of E "''MSALAuth''" "''MSALAuthFailed''" "''Retry ''" e] third Some
        obtain out es where "r = Done out" "askedAgain out" "trace s' = trace s3 @ es" "\<forall>e \<in> set es. statusEffect e" by auto
        moreover from s3 obtain as where "trace s3 = t0 @ as" "\<forall>e \<in> set as. accessEffect e" by (auto simp: arrivedAt_def told_def)
        ultimately have "endsBefore t0 r s'" unfolding endsBefore_def by (intro exI [of _ out] exI [of _ "as @ es"]) auto
        then show ?thesis ..
      next
        case None
        obtain token where token: "Authorizer aza = Some token" using authorizer_set [of _ _ _ s2 aza s3] three a None by blast
        let ?k = "\<lparr>Client = NewAzureKeyVaultClient (env_http E) token, VaultUrl = iVaultUrl (iAzureKV x), kvSecret = None\<rparr>"
        let ?s4 = "s3\<lparr>AkvClient := Some ?k\<rparr>"
        have last: "finalize E (destinationNamespace req x) ?s4 = (r, s')"
          using third None by (simp add: token setAkvClient_def run_andThen deref_def run_ret run_modify)
        have k: "AkvClient ?s4 = Some ?k" and obj: "ImportObj ?s4 = Some x" using s3 by (simp_all add: arrivedAt_def)
        obtain w t ds where fin: "finalize E (destinationNamespace req x) ?s4 = (Done (emptyResult, updateAnswer E (dropFinalizerI x) w), t)"
          and "trace t = trace ?s4 @ ds @ [UpdateImport (dropFinalizerI x)]" "\<forall>e \<in> set ds. deleteEffect e"
          and "\<forall>c \<in> set (iCertificateSecretRef (iAzureKV x)). asksDeletion E (destinationNamespace req x) (SecretName c) (set ds)"
          by (rule finalize_run [OF visits k obj x(2) n(2)])
        moreover from s3 obtain as where "trace s3 = t0 @ as" "\<forall>e \<in> set as. accessEffect e" by (auto simp: arrivedAt_def told_def)
        ultimately have "endsDeleted E (destinationNamespace req x) x t0 r s'"
          using last unfolding endsDeleted_def by (intro exI [of _ w] exI [of _ as] exI [of _ ds]) auto
        then show ?thesis ..
      qed
    qed
  qed
qed

section \<open>Property\<close>

text \<open>
  C16. The end of an import resource that is being deleted, holds the finalizer and has retries
  left. Its reconciliation ends in one of two ways. Either the credentials cannot be had: then
  nothing is deleted, the finalizer stays, and the result is an error or a positive delay, so it
  is tried again. Or every secret the resource names is asked to be deleted (in the destination
  namespace; the empty object if it cannot be read), and then the finalizer is removed whatever
  the API server answered to the deletions, so that secrets it refused to delete stay behind;
  the result has no delay, and an error only if the last update failed. The branch that counts
  and retries a failed deletion is never taken. (The README says that the finalizer cleans up all
  secrets.)
\<close>

theorem import_deletion_ends:
  assumes "range_visits_all (env_kube E)" and "importFinds E req (world s) x"
    and "DeletionTimestamp (iMeta x) \<noteq> None" and "FINALIZER \<in> set (Finalizers (iMeta x))"
    and "0 \<le>s iRetryCount (iStatus x)" and "\<not> MaxRetries \<le>s iRetryCount (iStatus x)"
    and "\<forall>c \<in> set (iConditions (iStatus x)). Reason c \<noteq> []"
    and "ImportReconcile E req s = (r, s')"
  shows "(\<exists>out es. r = Done out \<and> (snd out \<noteq> None \<or> 0 <s RequeueAfter (fst out))
       \<and> trace s' = trace s @ es \<and> (\<forall>e \<in> set es. accessEffect e \<or> statusEffect e))
    \<or> (\<exists>w as ds. r = Done (emptyResult, updateAnswer E (dropFinalizerI x) w)
       \<and> trace s' = trace s @ as @ ds @ [UpdateImport (dropFinalizerI x)]
       \<and> (\<forall>e \<in> set as. accessEffect e) \<and> (\<forall>e \<in> set ds. deleteEffect e)
       \<and> (\<forall>c \<in> set (iCertificateSecretRef (iAzureKV x)). asksDeletion E (destinationNamespace req x) (SecretName c) (set ds)))"
proof -
  let ?s1 = "s\<lparr>trace := trace s @ [GetCRD IMPORT_CERT_SECRET_CRD, GetImport req],
       world := snd (get_import (env_kube E) req (afterCrd E (world s))), ImportObj := Some x\<rparr>"
  have "arrivedAt (trace s) x ?s1" by (simp add: arrivedAt_def told_def)
  moreover have "reconcileImportCertificateSecret E req ?s1 = (r, s')"
    using assms(8) by (simp add: ImportReconcile_found [OF assms(2)])
  ultimately have "endsBefore (trace s) r s' \<or> endsDeleted E (destinationNamespace req x) x (trace s) r s'"
    using deleting_run [OF assms(1) _ assms(3-7)] by blast
  then show ?thesis by (simp add: endsBefore_def endsDeleted_def askedAgain_def)
qed

text \<open>A cluster with one import resource and its secret, which it refuses to delete.\<close>

definition keptSecret :: K8sSecret where
  "keptSecret = emptySecret\<lparr>secMeta := emptyMeta\<lparr>Name := ''web-tls'', Namespace := ''prod''\<rparr>, Data := Some [(''tls.crt'', ''c'')]\<rparr>"

definition refusingEnv :: "ImportCertificateSecret env" where
  "refusingEnv = (importEnv False)\<lparr>env_kube := (importKube False)\<lparr>get_service_account := \<lambda>_ w. (Inr exampleServiceAccount, w),
     cs_create_token := \<lambda>_ _ _ w. (Inr ''jwt'', w), get_secret := \<lambda>_ w. (Inr keptSecret, w)\<rparr>\<rparr>"

definition dyingImport :: ImportCertificateSecret where
  "dyingImport = (exampleImport 0 [caseRef ''tls.crt'' ''web''])\<lparr>iMeta := (iMeta (exampleImport 0 []))\<lparr>DeletionTimestamp := Some 1\<rparr>\<rparr>"

definition dyingState :: "ImportCertificateSecret ist" where
  "dyingState = \<lparr>trace = [], world = dyingImport, AkvClient = None, KubeClient = False, ImportObj = None\<rparr>"

lemma refusingEnv_simps [simp]:
  "range_visits_all (env_kube refusingEnv)" "fst (delete_secret (env_kube refusingEnv) d w) = Some refused"
  "update_import (env_kube refusingEnv) x w = (Inr x, x)" "fst (get_secret (env_kube refusingEnv) k w) = Inr keptSecret"
  by (simp_all add: range_visits_all_def refusingEnv_def importKube_def offlineKube_def)

lemma dying_found: "importFinds refusingEnv (importKey dyingImport) (world dyingState) dyingImport"
  by (simp add: importFinds_def afterCrd_def refusingEnv_def importKube_def dyingState_def emptyMeta_def)

lemma dying_facts:
  "DeletionTimestamp (iMeta dyingImport) \<noteq> None" "FINALIZER \<in> set (Finalizers (iMeta dyingImport))"
  "0 \<le>s iRetryCount (iStatus dyingImport)" "\<not> MaxRetries \<le>s iRetryCount (iStatus dyingImport)"
  "iConditions (iStatus dyingImport) = []" "iCertificateSecretRef (iAzureKV dyingImport) = [caseRef ''tls.crt'' ''web'']"
  "destinationNamespace (importKey dyingImport) dyingImport = ''prod''" "trace dyingState = []"
  by (simp_all add: dyingImport_def MaxRetries_def word_sle_eq destinationNamespace_def importKey_def metaKey_def
      exampleImport_def dyingState_def)

text \<open>Its credentials are in order, so the deletion is reached.\<close>

lemma dying_finalized:
  "\<exists>s1 k. ImportReconcile refusingEnv (importKey dyingImport) dyingState = finalize refusingEnv ''prod'' s1
     \<and> AkvClient s1 = Some k \<and> ImportObj s1 = Some dyingImport"
proof -
  have del: "(DeletionTimestamp (iMeta dyingImport) = None) = False" using dying_facts(1) by simp
  have kube: "get_config (env_kube refusingEnv) = (\<lambda>w. (None, w))" "new_for_config (env_kube refusingEnv) = (\<lambda>w. (None, w))"
    "get_service_account (env_kube refusingEnv) k = (\<lambda>w. (Inr exampleServiceAccount, w))"
    "cs_create_token (env_kube refusingEnv) ns n a = (\<lambda>w. (Inr ''jwt'', w))" "env_msal refusingEnv = exampleMsal" for k ns n a
    by (simp_all add: refusingEnv_def importEnv_def importKube_def offlineKube_def)
  show ?thesis
    by (simp add: ImportReconcile_found [OF dying_found] reconcileImportCertificateSecret_def run_andThen run_theImport
        ConditionExists_reason dying_facts(4,5,7) del setKubeClient_def SetKubeClient_def kGetServiceAccount_def kube
        AuthorizerForWorkloadIdentity_def FetchSAToken_def csCreateToken_def NewTokenProvider_def exampleMsal_def
        setAkvClient_def deref_def run_call run_ret run_modify Let_def OAuthToken_def cong: if_cong option.case_cong)
      (rule exI, rule conjI, rule refl, simp)
qed

theorem import_deletion_ends_witness:
  "\<exists>s' as ds. ImportReconcile refusingEnv (importKey dyingImport) dyingState = (Done (emptyResult, None), s')
     \<and> trace s' = as @ ds @ [UpdateImport (dropFinalizerI dyingImport)] \<and> (\<forall>e \<in> set ds. deleteEffect e)
     \<and> DeleteK8sSecret keptSecret \<in> set ds \<and> (\<forall>w. fst (delete_secret (env_kube refusingEnv) keptSecret w) = Some refused)"
proof -
  obtain s1 k where eq: "ImportReconcile refusingEnv (importKey dyingImport) dyingState = finalize refusingEnv ''prod'' s1"
    and s1: "AkvClient s1 = Some k" "ImportObj s1 = Some dyingImport"
    using dying_finalized by blast
  obtain w s' where "finalize refusingEnv ''prod'' s1 = (Done (emptyResult, updateAnswer refusingEnv (dropFinalizerI dyingImport) w), s')"
    by (rule finalize_run [OF refusingEnv_simps(1) s1 dying_facts(2,4)])
  then have run: "ImportReconcile refusingEnv (importKey dyingImport) dyingState = (Done (emptyResult, None), s')"
    by (simp add: eq updateAnswer_def)
  have "\<forall>c \<in> set (iConditions (iStatus dyingImport)). Reason c \<noteq> []" by (simp add: dying_facts)
  from import_deletion_ends [OF refusingEnv_simps(1) dying_found dying_facts(1-4) this run]
  obtain as ds where "trace s' = as @ ds @ [UpdateImport (dropFinalizerI dyingImport)]" "\<forall>e \<in> set ds. deleteEffect e"
    and "asksDeletion refusingEnv ''prod'' ''web-tls'' (set ds)"
    by (auto simp: emptyResult_def dying_facts)
  then show ?thesis using run by (auto simp: asksDeletion_def Let_def)
qed

end
