(* ===== verification/Deep_Copy.thy ===== *)
theory Deep_Copy
  imports Api_Types
begin

text \<open>
  \<open>api/v1alpha1/zz_generated.deepcopy.go\<close>: the copies that controller-runtime's cache and client
  and the event handler make of the custom resources. In the other theories a resource is a
  value; here its slices, maps and pointers refer to a store, a copy is made step by step as
  the generated code does, and it is shown that reading a resource as a value is justified: the
  copy reads as the original, and no write to what it refers to is seen through the original.
\<close>

section \<open>The store\<close>

type_synonym addr = nat

text \<open>
  The resources as Go lays them out: \<open>None\<close> is a nil slice, map or pointer. A slice refers to a
  whole array. The metadata have the fields the program uses.
\<close>

record gMeta =
  gName :: string
  gNamespace :: string
  gUID :: string
  gGeneration :: int
  gDeletionTimestamp :: "addr option"
  gFinalizers :: "addr option"
  gAnnotations :: "addr option"
  gLabels :: "addr option"

record gServiceAccountRef =
  gsaName :: string
  gAudiences :: "addr option"

record gExportProvider =
  geVaultUrl :: string
  geServiceAccountRef :: gServiceAccountRef
  geCertificateSecretRef :: "addr option"
  geOnDeletePurge :: bool

record gImportProvider =
  giVaultUrl :: string
  giServiceAccountRef :: gServiceAccountRef
  giCertificateSecretRef :: "addr option"
  giSecretNamespace :: string
  giScanInterval :: go_int

record gStatus =
  gConditions :: "addr option"
  gRetryCount :: go_int

record TypeMeta =
  Kind :: string
  tmAPIVersion :: string

record gExport =
  geType :: TypeMeta
  geMeta :: gMeta
  geSpec :: gExportProvider
  geStatus :: gStatus

record gImport =
  giType :: TypeMeta
  giMeta :: gMeta
  giSpec :: gImportProvider
  giStatus :: gStatus

record gListMeta =
  ResourceVersion :: string
  Continue :: string
  RemainingItemCount :: "addr option"

text \<open>A list resource, of exports or of imports.\<close>

record gList =
  gType :: TypeMeta
  gListMeta :: gListMeta
  gItems :: "addr option"

record SecretsRef =
  srName :: string
  DestinationKeyName :: string

datatype (plugins only: code size) block =
    Strings "string list"
  | Refs "CertificateSecretRef list"
  | Conditions "Condition list"
  | StringMap "(string \<times> string) list"
  | TimeCell timestamp
  | IntCell int
  | Exports "gExport list"
  | Imports "gImport list"

record store =
  next_addr :: addr
  cells :: "addr \<Rightarrow> block"

fun strings :: "block \<Rightarrow> string list" where "strings (Strings xs) = xs" | "strings _ = []"
fun certRefs :: "block \<Rightarrow> CertificateSecretRef list" where "certRefs (Refs xs) = xs" | "certRefs _ = []"
fun conditions :: "block \<Rightarrow> Condition list" where "conditions (Conditions xs) = xs" | "conditions _ = []"
fun stringMap :: "block \<Rightarrow> (string \<times> string) list" where "stringMap (StringMap xs) = xs" | "stringMap _ = []"
fun timeCell :: "block \<Rightarrow> timestamp" where "timeCell (TimeCell t) = t" | "timeCell _ = 0"
fun intCell :: "block \<Rightarrow> int" where "intCell (IntCell n) = n" | "intCell _ = 0"
fun exportItems :: "block \<Rightarrow> gExport list" where "exportItems (Exports xs) = xs" | "exportItems _ = []"
fun importItems :: "block \<Rightarrow> gImport list" where "importItems (Imports xs) = xs" | "importItems _ = []"

definition make :: "block \<Rightarrow> store \<Rightarrow> addr \<times> store" where
  "make b h = (next_addr h, h\<lparr>next_addr := Suc (next_addr h), cells := (cells h)(next_addr h := b)\<rparr>)"

definition put :: "addr \<Rightarrow> block \<Rightarrow> store \<Rightarrow> store" where
  "put a b h = h\<lparr>cells := (cells h)(a := b)\<rparr>"

section \<open>Copying\<close>

text \<open>\<open>if in.X != nil { *out = make(..., len( *in)); copy( *out, *in) }\<close>, with \<open>zero\<close> for the fresh array\<close>

definition copyFlat :: "(block \<Rightarrow> block) \<Rightarrow> (block \<Rightarrow> block) \<Rightarrow> addr option \<Rightarrow> store \<Rightarrow> addr option \<times> store" where
  "copyFlat zero content p h = (case p of
     None \<Rightarrow> (None, h)
   | Some a \<Rightarrow> (case make (zero (cells h a)) h of (b, h1) \<Rightarrow> (Some b, put b (content (cells h1 a)) h1)))"

text \<open>\<open>for i := range *in { ( *in)[i].DeepCopyInto(&( *out)[i]) }\<close> with the array of \<open>out\<close> at \<open>b\<close>\<close>

fun copyEach :: "('x \<Rightarrow> store \<Rightarrow> 'x \<times> store) \<Rightarrow> ('x list \<Rightarrow> block) \<Rightarrow> (block \<Rightarrow> 'x list) \<Rightarrow> addr \<Rightarrow> nat \<Rightarrow> 'x list \<Rightarrow> store \<Rightarrow> store" where
  "copyEach copy mk items b i [] h = h"
| "copyEach copy mk items b i (x # xs) h =
     (case copy x h of (y, h1) \<Rightarrow> copyEach copy mk items b (Suc i) xs (put b (mk ((items (cells h1 b))[i := y])) h1))"

definition copySlice :: "'x \<Rightarrow> ('x \<Rightarrow> store \<Rightarrow> 'x \<times> store) \<Rightarrow> ('x list \<Rightarrow> block) \<Rightarrow> (block \<Rightarrow> 'x list) \<Rightarrow> addr option \<Rightarrow> store \<Rightarrow> addr option \<times> store" where
  "copySlice zero copy mk items p h = (case p of
     None \<Rightarrow> (None, h)
   | Some a \<Rightarrow> (case make (mk (replicate (length (items (cells h a))) zero)) h of
       (b, h1) \<Rightarrow> (Some b, copyEach copy mk items b 0 (items (cells h1 a)) h1)))"

text \<open>\<open>DeepCopy\<close>: nil for nil, otherwise \<open>DeepCopyInto\<close> a new object.\<close>

definition deepCopyPtr :: "('x \<Rightarrow> store \<Rightarrow> 'x \<times> store) \<Rightarrow> 'x option \<Rightarrow> store \<Rightarrow> 'x option \<times> store" where
  "deepCopyPtr copyInto p h = (case p of None \<Rightarrow> (None, h) | Some x \<Rightarrow> (case copyInto x h of (y, h') \<Rightarrow> (Some y, h')))"

subsection \<open>The generated functions\<close>

definition CertificateSecretRef_DeepCopyInto :: "CertificateSecretRef \<Rightarrow> store \<Rightarrow> CertificateSecretRef \<times> store" where
  "CertificateSecretRef_DeepCopyInto x h = (x, h)"

text \<open>
  \<open>metav1.Condition\<close> and \<open>metav1.ObjectMeta\<close> of the vendored apimachinery; of the latter the copies
  of the fields of \<open>gMeta\<close>, in their order.
\<close>

definition Condition_DeepCopyInto :: "Condition \<Rightarrow> store \<Rightarrow> Condition \<times> store" where
  "Condition_DeepCopyInto x h = (x, h)"

definition ObjectMeta_DeepCopyInto :: "gMeta \<Rightarrow> store \<Rightarrow> gMeta \<times> store" where
  "ObjectMeta_DeepCopyInto x h =
     (case copyFlat (\<lambda>_. TimeCell 0) (\<lambda>b. TimeCell (timeCell b)) (gDeletionTimestamp x) h of (d, h1) \<Rightarrow>
      case copyFlat (\<lambda>_. StringMap []) (\<lambda>b. StringMap (stringMap b)) (gLabels x) h1 of (l, h2) \<Rightarrow>
      case copyFlat (\<lambda>_. StringMap []) (\<lambda>b. StringMap (stringMap b)) (gAnnotations x) h2 of (a, h3) \<Rightarrow>
      case copyFlat (\<lambda>b. Strings (replicate (length (strings b)) [])) (\<lambda>b. Strings (strings b)) (gFinalizers x) h3 of (f, h4) \<Rightarrow>
        (x\<lparr>gDeletionTimestamp := d, gLabels := l, gAnnotations := a, gFinalizers := f\<rparr>, h4))"

definition zeroRef :: CertificateSecretRef where
  "zeroRef = \<lparr>KVSecretName = [], RefType = [], SecretKey = [], SecretName = [], Templating = []\<rparr>"

definition zeroCondition :: Condition where
  "zeroCondition = \<lparr>CondType = [], CondStatus = [], Reason = [], Message = [], LastTransitionTime = 0\<rparr>"

definition zeroMeta :: gMeta where
  "zeroMeta = \<lparr>gName = [], gNamespace = [], gUID = [], gGeneration = 0, gDeletionTimestamp = None, gFinalizers = None,
     gAnnotations = None, gLabels = None\<rparr>"

definition zeroExport :: gExport where
  "zeroExport = \<lparr>geType = \<lparr>Kind = [], tmAPIVersion = []\<rparr>, geMeta = zeroMeta, geSpec = \<lparr>geVaultUrl = [], geServiceAccountRef = \<lparr>gsaName = [], gAudiences = None\<rparr>,
     geCertificateSecretRef = None, geOnDeletePurge = False\<rparr>, geStatus = \<lparr>gConditions = None, gRetryCount = 0\<rparr>\<rparr>"

definition zeroImport :: gImport where
  "zeroImport = \<lparr>giType = \<lparr>Kind = [], tmAPIVersion = []\<rparr>, giMeta = zeroMeta, giSpec = \<lparr>giVaultUrl = [], giServiceAccountRef = \<lparr>gsaName = [], gAudiences = None\<rparr>,
     giCertificateSecretRef = None, giSecretNamespace = [], giScanInterval = 0\<rparr>, giStatus = \<lparr>gConditions = None, gRetryCount = 0\<rparr>\<rparr>"

definition ServiceAccountRef_DeepCopyInto :: "gServiceAccountRef \<Rightarrow> store \<Rightarrow> gServiceAccountRef \<times> store" where
  "ServiceAccountRef_DeepCopyInto x h =
     (case copyFlat (\<lambda>b. Strings (replicate (length (strings b)) [])) (\<lambda>b. Strings (strings b)) (gAudiences x) h of
       (a, h1) \<Rightarrow> (x\<lparr>gAudiences := a\<rparr>, h1))"

definition copyRefs :: "addr option \<Rightarrow> store \<Rightarrow> addr option \<times> store" where
  "copyRefs = copyFlat (\<lambda>b. Refs (replicate (length (certRefs b)) zeroRef)) (\<lambda>b. Refs (certRefs b))"

definition ExportAzureKVProvider_DeepCopyInto :: "gExportProvider \<Rightarrow> store \<Rightarrow> gExportProvider \<times> store" where
  "ExportAzureKVProvider_DeepCopyInto x h =
     (case ServiceAccountRef_DeepCopyInto (geServiceAccountRef x) h of (sa, h1) \<Rightarrow>
      case copyRefs (geCertificateSecretRef x) h1 of (r, h2) \<Rightarrow>
        (x\<lparr>geServiceAccountRef := sa, geCertificateSecretRef := r\<rparr>, h2))"

definition ImportAzureKVProvider_DeepCopyInto :: "gImportProvider \<Rightarrow> store \<Rightarrow> gImportProvider \<times> store" where
  "ImportAzureKVProvider_DeepCopyInto x h =
     (case ServiceAccountRef_DeepCopyInto (giServiceAccountRef x) h of (sa, h1) \<Rightarrow>
      case copyRefs (giCertificateSecretRef x) h1 of (r, h2) \<Rightarrow>
        (x\<lparr>giServiceAccountRef := sa, giCertificateSecretRef := r\<rparr>, h2))"

text \<open>The specs have \<open>AzureKV\<close> as their only field.\<close>

definition ExportCertificateSecretSpec_DeepCopyInto :: "gExportProvider \<Rightarrow> store \<Rightarrow> gExportProvider \<times> store" where
  "ExportCertificateSecretSpec_DeepCopyInto x h = ExportAzureKVProvider_DeepCopyInto x h"

definition ImportCertificateSecretSpec_DeepCopyInto :: "gImportProvider \<Rightarrow> store \<Rightarrow> gImportProvider \<times> store" where
  "ImportCertificateSecretSpec_DeepCopyInto x h = ImportAzureKVProvider_DeepCopyInto x h"

definition ExportCertificateSecretStatus_DeepCopyInto :: "gStatus \<Rightarrow> store \<Rightarrow> gStatus \<times> store" where
  "ExportCertificateSecretStatus_DeepCopyInto x h =
     (case copySlice zeroCondition Condition_DeepCopyInto Conditions conditions (gConditions x) h of (c, h1) \<Rightarrow>
       (x\<lparr>gConditions := c\<rparr>, h1))"

definition ImportCertificateSecretStatus_DeepCopyInto :: "gStatus \<Rightarrow> store \<Rightarrow> gStatus \<times> store" where
  "ImportCertificateSecretStatus_DeepCopyInto x h =
     (case copySlice zeroCondition Condition_DeepCopyInto Conditions conditions (gConditions x) h of (c, h1) \<Rightarrow>
       (x\<lparr>gConditions := c\<rparr>, h1))"

definition ExportCertificateSecret_DeepCopyInto :: "gExport \<Rightarrow> store \<Rightarrow> gExport \<times> store" where
  "ExportCertificateSecret_DeepCopyInto x h =
     (case ObjectMeta_DeepCopyInto (geMeta x) h of (m, h1) \<Rightarrow>
      case ExportCertificateSecretSpec_DeepCopyInto (geSpec x) h1 of (p, h2) \<Rightarrow>
      case ExportCertificateSecretStatus_DeepCopyInto (geStatus x) h2 of (s, h3) \<Rightarrow>
        (x\<lparr>geType := geType x, geMeta := m, geSpec := p, geStatus := s\<rparr>, h3))"

definition ImportCertificateSecret_DeepCopyInto :: "gImport \<Rightarrow> store \<Rightarrow> gImport \<times> store" where
  "ImportCertificateSecret_DeepCopyInto x h =
     (case ObjectMeta_DeepCopyInto (giMeta x) h of (m, h1) \<Rightarrow>
      case ImportCertificateSecretSpec_DeepCopyInto (giSpec x) h1 of (p, h2) \<Rightarrow>
      case ImportCertificateSecretStatus_DeepCopyInto (giStatus x) h2 of (s, h3) \<Rightarrow>
        (x\<lparr>giType := giType x, giMeta := m, giSpec := p, giStatus := s\<rparr>, h3))"

definition ListMeta_DeepCopyInto :: "gListMeta \<Rightarrow> store \<Rightarrow> gListMeta \<times> store" where
  "ListMeta_DeepCopyInto x h =
     (case copyFlat (\<lambda>_. IntCell 0) (\<lambda>b. IntCell (intCell b)) (RemainingItemCount x) h of (n, h1) \<Rightarrow>
       (x\<lparr>RemainingItemCount := n\<rparr>, h1))"

definition ExportCertificateSecretList_DeepCopyInto :: "gList \<Rightarrow> store \<Rightarrow> gList \<times> store" where
  "ExportCertificateSecretList_DeepCopyInto x h =
     (case ListMeta_DeepCopyInto (gListMeta x) h of (m, h1) \<Rightarrow>
      case copySlice zeroExport ExportCertificateSecret_DeepCopyInto Exports exportItems (gItems x) h1 of (p, h2) \<Rightarrow>
        (x\<lparr>gType := gType x, gListMeta := m, gItems := p\<rparr>, h2))"

definition ImportCertificateSecretList_DeepCopyInto :: "gList \<Rightarrow> store \<Rightarrow> gList \<times> store" where
  "ImportCertificateSecretList_DeepCopyInto x h =
     (case ListMeta_DeepCopyInto (gListMeta x) h of (m, h1) \<Rightarrow>
      case copySlice zeroImport ImportCertificateSecret_DeepCopyInto Imports importItems (gItems x) h1 of (p, h2) \<Rightarrow>
        (x\<lparr>gType := gType x, gListMeta := m, gItems := p\<rparr>, h2))"

definition SecretsRef_DeepCopyInto :: "SecretsRef \<Rightarrow> store \<Rightarrow> SecretsRef \<times> store" where
  "SecretsRef_DeepCopyInto x h = (x, h)"

text \<open>The functions \<open>DeepCopy\<close> and \<open>DeepCopyObject\<close>.\<close>

definition CertificateSecretRef_DeepCopy :: "CertificateSecretRef option \<Rightarrow> store \<Rightarrow> CertificateSecretRef option \<times> store" where
  "CertificateSecretRef_DeepCopy = deepCopyPtr CertificateSecretRef_DeepCopyInto"

definition SecretsRef_DeepCopy :: "SecretsRef option \<Rightarrow> store \<Rightarrow> SecretsRef option \<times> store" where
  "SecretsRef_DeepCopy = deepCopyPtr SecretsRef_DeepCopyInto"

definition ServiceAccountRef_DeepCopy :: "gServiceAccountRef option \<Rightarrow> store \<Rightarrow> gServiceAccountRef option \<times> store" where
  "ServiceAccountRef_DeepCopy = deepCopyPtr ServiceAccountRef_DeepCopyInto"

definition ExportAzureKVProvider_DeepCopy :: "gExportProvider option \<Rightarrow> store \<Rightarrow> gExportProvider option \<times> store" where
  "ExportAzureKVProvider_DeepCopy = deepCopyPtr ExportAzureKVProvider_DeepCopyInto"

definition ImportAzureKVProvider_DeepCopy :: "gImportProvider option \<Rightarrow> store \<Rightarrow> gImportProvider option \<times> store" where
  "ImportAzureKVProvider_DeepCopy = deepCopyPtr ImportAzureKVProvider_DeepCopyInto"

definition ExportCertificateSecretSpec_DeepCopy :: "gExportProvider option \<Rightarrow> store \<Rightarrow> gExportProvider option \<times> store" where
  "ExportCertificateSecretSpec_DeepCopy = deepCopyPtr ExportCertificateSecretSpec_DeepCopyInto"

definition ImportCertificateSecretSpec_DeepCopy :: "gImportProvider option \<Rightarrow> store \<Rightarrow> gImportProvider option \<times> store" where
  "ImportCertificateSecretSpec_DeepCopy = deepCopyPtr ImportCertificateSecretSpec_DeepCopyInto"

definition ExportCertificateSecretStatus_DeepCopy :: "gStatus option \<Rightarrow> store \<Rightarrow> gStatus option \<times> store" where
  "ExportCertificateSecretStatus_DeepCopy = deepCopyPtr ExportCertificateSecretStatus_DeepCopyInto"

definition ImportCertificateSecretStatus_DeepCopy :: "gStatus option \<Rightarrow> store \<Rightarrow> gStatus option \<times> store" where
  "ImportCertificateSecretStatus_DeepCopy = deepCopyPtr ImportCertificateSecretStatus_DeepCopyInto"

definition ExportCertificateSecret_DeepCopy :: "gExport option \<Rightarrow> store \<Rightarrow> gExport option \<times> store" where
  "ExportCertificateSecret_DeepCopy = deepCopyPtr ExportCertificateSecret_DeepCopyInto"

definition ImportCertificateSecret_DeepCopy :: "gImport option \<Rightarrow> store \<Rightarrow> gImport option \<times> store" where
  "ImportCertificateSecret_DeepCopy = deepCopyPtr ImportCertificateSecret_DeepCopyInto"

definition ExportCertificateSecretList_DeepCopy :: "gList option \<Rightarrow> store \<Rightarrow> gList option \<times> store" where
  "ExportCertificateSecretList_DeepCopy = deepCopyPtr ExportCertificateSecretList_DeepCopyInto"

definition ImportCertificateSecretList_DeepCopy :: "gList option \<Rightarrow> store \<Rightarrow> gList option \<times> store" where
  "ImportCertificateSecretList_DeepCopy = deepCopyPtr ImportCertificateSecretList_DeepCopyInto"

definition ExportCertificateSecret_DeepCopyObject :: "gExport option \<Rightarrow> store \<Rightarrow> gExport option \<times> store" where
  "ExportCertificateSecret_DeepCopyObject p h = (case ExportCertificateSecret_DeepCopy p h of (Some c, h1) \<Rightarrow> (Some c, h1) | (None, h1) \<Rightarrow> (None, h1))"

definition ImportCertificateSecret_DeepCopyObject :: "gImport option \<Rightarrow> store \<Rightarrow> gImport option \<times> store" where
  "ImportCertificateSecret_DeepCopyObject p h = (case ImportCertificateSecret_DeepCopy p h of (Some c, h1) \<Rightarrow> (Some c, h1) | (None, h1) \<Rightarrow> (None, h1))"

definition ExportCertificateSecretList_DeepCopyObject :: "gList option \<Rightarrow> store \<Rightarrow> gList option \<times> store" where
  "ExportCertificateSecretList_DeepCopyObject p h = (case ExportCertificateSecretList_DeepCopy p h of (Some c, h1) \<Rightarrow> (Some c, h1) | (None, h1) \<Rightarrow> (None, h1))"

definition ImportCertificateSecretList_DeepCopyObject :: "gList option \<Rightarrow> store \<Rightarrow> gList option \<times> store" where
  "ImportCertificateSecretList_DeepCopyObject p h = (case ImportCertificateSecretList_DeepCopy p h of (Some c, h1) \<Rightarrow> (Some c, h1) | (None, h1) \<Rightarrow> (None, h1))"

section \<open>The contract of a copy\<close>

text \<open>
  \<open>refs h x\<close> are the addresses \<open>x\<close> refers to, directly or not, \<open>val h x\<close> what it reads as. A copy
  leaves what is allocated alone, refers to fresh addresses only, and reads as the original.
\<close>

definition grows :: "store \<Rightarrow> store \<Rightarrow> bool" where
  "grows h h' \<longleftrightarrow> next_addr h \<le> next_addr h' \<and> (\<forall>a < next_addr h. cells h' a = cells h a)"

lemma grows_refl: "grows h h"
  by (simp add: grows_def)

lemma grows_trans: "grows h h1 \<Longrightarrow> grows h1 h2 \<Longrightarrow> grows h h2"
  by (auto simp: grows_def)

locale deep_copy =
  fixes copy :: "'x \<Rightarrow> store \<Rightarrow> 'x \<times> store" and refs :: "store \<Rightarrow> 'x \<Rightarrow> addr set" and val :: "store \<Rightarrow> 'x \<Rightarrow> 'v"
  assumes copies: "copy x h = (y, h') \<Longrightarrow> refs h x \<subseteq> {..<next_addr h} \<Longrightarrow>
      grows h h' \<and> refs h' y \<subseteq> {next_addr h..<next_addr h'} \<and> val h' y = val h x"
    and local: "\<forall>a \<in> refs h x. cells h1 a = cells h a \<Longrightarrow> val h1 x = val h x \<and> refs h1 x = refs h x"
begin

lemma kept: "grows h h1 \<Longrightarrow> refs h x \<subseteq> {..<next_addr h} \<Longrightarrow> val h1 x = val h x \<and> refs h1 x = refs h x"
  by (rule local) (auto simp: grows_def)

lemma original_reads:
  "copy x h = (y, h') \<Longrightarrow> refs h x \<subseteq> {..<next_addr h} \<Longrightarrow> val h' x = val h x \<and> refs h' x = refs h x"
  using copies kept by blast

text \<open>A write through the copy is not seen through the original.\<close>

lemma independent:
  assumes "copy x h = (y, h')" and "refs h x \<subseteq> {..<next_addr h}" and "a \<in> refs h' y"
  shows "val (put a b h') x = val h x"
proof -
  have "next_addr h \<le> a" using copies [OF assms(1,2)] assms(3) by (meson atLeastLessThan_iff subsetD)
  with assms(2) have "a \<notin> refs h x" by (meson lessThan_iff linorder_not_less subsetD)
  moreover have kept: "val h' x = val h x" "refs h' x = refs h x" using original_reads [OF assms(1,2)] by auto
  ultimately have "\<forall>c \<in> refs h' x. cells (put a b h') c = cells h' c" by (auto simp: put_def)
  from local [OF this] kept show ?thesis by simp
qed

text \<open>Nor is a write through the original seen through the copy.\<close>

lemma detached:
  assumes "copy x h = (y, h')" and "refs h x \<subseteq> {..<next_addr h}" and "a \<in> refs h x"
  shows "val (put a b h') y = val h x"
proof -
  note c = copies [OF assms(1,2)]
  have "a \<notin> refs h' y" using c assms(2,3) by fastforce
  then have "\<forall>d \<in> refs h' y. cells (put a b h') d = cells h' d" by (auto simp: put_def)
  from local [OF this] c show ?thesis by simp
qed

text \<open>The contract of \<open>DeepCopy\<close>, which copies into a new object.\<close>

lemma pointer:
  assumes "deepCopyPtr copy (Some x) h = (p, h')" and "refs h x \<subseteq> {..<next_addr h}"
  shows "\<exists>y. p = Some y \<and> val h' y = val h x \<and> val h' x = val h x
    \<and> (\<forall>a \<in> refs h' y. \<forall>b. val (put a b h') x = val h x) \<and> (\<forall>a \<in> refs h x. \<forall>b. val (put a b h') y = val h x)"
proof -
  obtain y where y: "copy x h = (y, h')" "p = Some y" using assms(1) by (auto simp: deepCopyPtr_def split: prod.splits)
  show ?thesis
    using copies [OF y(1) assms(2)] original_reads [OF y(1) assms(2)] independent [OF y(1) assms(2)] detached [OF y(1) assms(2)] y(2)
    by blast
qed

end

section \<open>Building copies\<close>

text \<open>Values that refer to nothing, one flat block, two parts in turn, a record around its parts.\<close>

lemma deep_copy_value: "(\<And>x h. copy x h = (x, h)) \<Longrightarrow> deep_copy copy (\<lambda>_ _. {}) (\<lambda>_ x. x)"
  by unfold_locales (auto simp: grows_refl)

lemma deep_copy_flat:
  assumes "\<And>b. read (content b) = read b"
  shows "deep_copy (copyFlat zero content) (\<lambda>_ p. set_option p) (\<lambda>h p. map_option (\<lambda>a. read (cells h a)) p)"
proof
  fix p h h1
  show "\<forall>a \<in> set_option p. cells h1 a = cells h a \<Longrightarrow>
      map_option (\<lambda>a. read (cells h1 a)) p = map_option (\<lambda>a. read (cells h a)) p \<and> set_option p = set_option p"
    by (cases p) auto
qed (auto simp: copyFlat_def make_def put_def grows_def assms split: option.splits)

definition copyBoth :: "('x \<Rightarrow> store \<Rightarrow> 'x \<times> store) \<Rightarrow> ('y \<Rightarrow> store \<Rightarrow> 'y \<times> store) \<Rightarrow> 'x \<times> 'y \<Rightarrow> store \<Rightarrow> ('x \<times> 'y) \<times> store" where
  "copyBoth c d p h = (case c (fst p) h of (x, h1) \<Rightarrow> case d (snd p) h1 of (y, h2) \<Rightarrow> ((x, y), h2))"

lemma deep_copy_both:
  assumes c: "deep_copy c r v" and d: "deep_copy d r' v'"
  shows "deep_copy (copyBoth c d) (\<lambda>h p. r h (fst p) \<union> r' h (snd p)) (\<lambda>h p. (v h (fst p), v' h (snd p)))"
proof
  fix p h q h'
  assume run: "copyBoth c d p h = (q, h')" and "r h (fst p) \<union> r' h (snd p) \<subseteq> {..<next_addr h}"
  then have b: "r h (fst p) \<subseteq> {..<next_addr h}" "r' h (snd p) \<subseteq> {..<next_addr h}" by auto
  from run obtain x h1 y where x: "c (fst p) h = (x, h1)" and y: "d (snd p) h1 = (y, h')" and q: "q = (x, y)"
    by (auto simp: copyBoth_def split: prod.splits)
  note one = deep_copy.copies [OF c x b(1)]
  have keep: "v' h1 (snd p) = v' h (snd p)" "r' h1 (snd p) = r' h (snd p)"
    using deep_copy.kept [OF d _ b(2), of h1] one by auto
  have "r' h1 (snd p) \<subseteq> {..<next_addr h1}" using b(2) one by (fastforce simp: keep grows_def)
  note two = deep_copy.copies [OF d y this]
  have "r h1 x \<subseteq> {..<next_addr h1}" using one by auto
  with deep_copy.kept [OF c _ this, of h'] two have "v h' x = v h1 x" "r h' x = r h1 x" by auto
  then show "grows h h' \<and> r h' (fst q) \<union> r' h' (snd q) \<subseteq> {next_addr h..<next_addr h'}
      \<and> (v h' (fst q), v' h' (snd q)) = (v h (fst p), v' h (snd p))"
    using one two keep q by (auto simp: grows_def intro: order_trans)
next
  fix h h1 :: store and p
  assume "\<forall>a \<in> r h (fst p) \<union> r' h (snd p). cells h1 a = cells h a"
  then show "(v h1 (fst p), v' h1 (snd p)) = (v h (fst p), v' h (snd p)) \<and> r h1 (fst p) \<union> r' h1 (snd p) = r h (fst p) \<union> r' h (snd p)"
    using deep_copy.local [OF c] deep_copy.local [OF d] by blast
qed

lemma deep_copy_record:
  assumes c: "deep_copy c r v"
    and "\<And>x h. copy x h = (case c (parts x) h of (y, h') \<Rightarrow> (build x y, h'))"
    and "\<And>x y. parts (build x y) = y" and "\<And>x y w. view (build x y) w = view x w"
    and refs: "\<And>h x. refs h x = r h (parts x)" and val: "\<And>h x. val h x = view x (v h (parts x))"
  shows "deep_copy copy refs val"
proof
  fix x h y h'
  assume "copy x h = (y, h')" and b: "refs h x \<subseteq> {..<next_addr h}"
  then obtain z where z: "c (parts x) h = (z, h')" and y: "y = build x z" by (auto simp: assms(2) split: prod.splits)
  from deep_copy.copies [OF c z] b
  show "grows h h' \<and> refs h' y \<subseteq> {next_addr h..<next_addr h'} \<and> val h' y = val h x"
    by (simp add: y refs val assms(3,4))
next
  fix h h1 :: store and x
  assume "\<forall>a \<in> refs h x. cells h1 a = cells h a"
  then have "v h1 (parts x) = v h (parts x) \<and> r h1 (parts x) = r h (parts x)"
    unfolding refs by (rule deep_copy.local [OF c])
  then show "val h1 x = val h x \<and> refs h1 x = refs h x" unfolding refs val by simp
qed

text \<open>The loop over the items of a slice.\<close>

lemma copyEach_copies:
  assumes c: "deep_copy c r v" and mk: "\<And>xs. items (mk xs) = xs"
    and "grows h0 h" and "next_addr h0 \<le> b" and "b < next_addr h" and "\<forall>x \<in> set xs. r h0 x \<subseteq> {..<next_addr h0}"
    and "length (items (cells h b)) = i + length xs"
  shows "let h' = copyEach c mk items b i xs h in
    next_addr h \<le> next_addr h' \<and> (\<forall>a < next_addr h. a \<noteq> b \<longrightarrow> cells h' a = cells h a)
    \<and> (\<exists>zs. items (cells h' b) = take i (items (cells h b)) @ zs \<and> map (v h') zs = map (v h0) xs
        \<and> (\<forall>z \<in> set zs. r h' z \<subseteq> {next_addr h..<next_addr h'}))"
  using assms(3-7)
proof (induction xs arbitrary: i h)
  case Nil
  then show ?case by simp
next
  case (Cons x xs)
  obtain y h1 where y: "c x h = (y, h1)" by fastforce
  have rx: "r h0 x \<subseteq> {..<next_addr h0}" using Cons.prems(4) by simp
  have x: "v h x = v h0 x" "r h x = r h0 x" using deep_copy.kept [OF c Cons.prems(1) rx] by simp_all
  have "r h x \<subseteq> {..<next_addr h}" using rx x(2) Cons.prems(1) by (auto simp: grows_def)
  note one = deep_copy.copies [OF c y this]
  let ?ys = "items (cells h b)"
  have b1: "cells h1 b = cells h b" using one Cons.prems(3) by (simp add: grows_def)
  define h2 where "h2 = put b (mk (?ys[i := y])) h1"
  have n2: "next_addr h2 = next_addr h1" and c2: "cells h2 = (cells h1)(b := mk (?ys[i := y]))"
    by (simp_all add: h2_def put_def)
  have "grows h0 h2" using Cons.prems(1,2) one by (auto simp: grows_def n2 c2)
  moreover have "b < next_addr h2" using Cons.prems(3) one by (simp add: n2 grows_def)
  moreover have "length (items (cells h2 b)) = Suc i + length xs" using Cons.prems(5) by (simp add: c2 mk)
  ultimately have ih: "let h' = copyEach c mk items b (Suc i) xs h2 in
    next_addr h2 \<le> next_addr h' \<and> (\<forall>a < next_addr h2. a \<noteq> b \<longrightarrow> cells h' a = cells h2 a)
    \<and> (\<exists>zs. items (cells h' b) = take (Suc i) (items (cells h2 b)) @ zs \<and> map (v h') zs = map (v h0) xs
        \<and> (\<forall>z \<in> set zs. r h' z \<subseteq> {next_addr h2..<next_addr h'}))"
    using Cons.prems(2,4) by (intro Cons.IH) auto
  let ?h = "copyEach c mk items b (Suc i) xs h2"
  from ih obtain zs where nx: "next_addr h2 \<le> next_addr ?h" and old: "\<forall>a < next_addr h2. a \<noteq> b \<longrightarrow> cells ?h a = cells h2 a"
    and zs: "items (cells ?h b) = take (Suc i) (items (cells h2 b)) @ zs" "map (v ?h) zs = map (v h0) xs"
      "\<forall>z \<in> set zs. r ?h z \<subseteq> {next_addr h2..<next_addr ?h}" unfolding Let_def by blast
  have "\<forall>a \<in> r h1 y. cells ?h a = cells h1 a"
  proof
    fix a assume "a \<in> r h1 y"
    with one have "next_addr h \<le> a" "a < next_addr h1" by (meson atLeastLessThan_iff subsetD)+
    with old Cons.prems(3) show "cells ?h a = cells h1 a" by (auto simp: n2 c2)
  qed
  from deep_copy.local [OF c this] one x have vy: "v ?h y = v h0 x" "r ?h y \<subseteq> {next_addr h..<next_addr h1}" by auto
  have "take (Suc i) (items (cells h2 b)) = take i ?ys @ [y]"
    using Cons.prems(5) by (simp add: c2 mk take_Suc_conv_app_nth)
  with zs vy have res: "items (cells ?h b) = take i ?ys @ y # zs" "map (v ?h) (y # zs) = map (v h0) (x # xs)" by simp_all
  have le: "next_addr h \<le> next_addr h1" using one by (simp add: grows_def)
  have "\<forall>z \<in> set (y # zs). r ?h z \<subseteq> {next_addr h..<next_addr ?h}"
    using zs(3) vy(2) nx le by (fastforce simp: n2)
  moreover have "\<forall>a < next_addr h. a \<noteq> b \<longrightarrow> cells ?h a = cells h a"
    using old one le by (auto simp: n2 c2 grows_def)
  moreover have "copyEach c mk items b i (x # xs) h = ?h" by (simp add: y h2_def b1)
  ultimately show ?case using res nx le by (auto simp: Let_def n2)
qed

definition sliceRefs :: "(block \<Rightarrow> 'x list) \<Rightarrow> (store \<Rightarrow> 'x \<Rightarrow> addr set) \<Rightarrow> store \<Rightarrow> addr option \<Rightarrow> addr set" where
  "sliceRefs items r h p = (case p of None \<Rightarrow> {} | Some a \<Rightarrow> insert a (\<Union>x \<in> set (items (cells h a)). r h x))"

definition sliceVal :: "(block \<Rightarrow> 'x list) \<Rightarrow> (store \<Rightarrow> 'x \<Rightarrow> 'v) \<Rightarrow> store \<Rightarrow> addr option \<Rightarrow> 'v list option" where
  "sliceVal items v h p = map_option (\<lambda>a. map (v h) (items (cells h a))) p"

lemma deep_copy_slice:
  assumes c: "deep_copy c r v" and mk: "\<And>xs. items (mk xs) = xs"
  shows "deep_copy (copySlice zero c mk items) (sliceRefs items r) (sliceVal items v)"
proof
  fix p h q h'
  assume run: "copySlice zero c mk items p h = (q, h')" and b: "sliceRefs items r h p \<subseteq> {..<next_addr h}"
  show "grows h h' \<and> sliceRefs items r h' q \<subseteq> {next_addr h..<next_addr h'} \<and> sliceVal items v h' q = sliceVal items v h p"
  proof (cases p)
    case None
    with run show ?thesis by (simp add: copySlice_def grows_refl sliceRefs_def sliceVal_def)
  next
    case (Some a)
    let ?xs = "items (cells h a)" and ?b = "next_addr h"
    define h1 where "h1 = h\<lparr>next_addr := Suc ?b, cells := (cells h)(?b := mk (replicate (length ?xs) zero))\<rparr>"
    from b Some have a: "a < ?b" and xs: "\<forall>x \<in> set ?xs. r h x \<subseteq> {..<?b}" by (auto simp: sliceRefs_def)
    have n1: "next_addr h1 = Suc ?b" and c1: "cells h1 = (cells h)(?b := mk (replicate (length ?xs) zero))" by (simp_all add: h1_def)
    from run Some a have q: "q = Some ?b" and h': "h' = copyEach c mk items ?b 0 ?xs h1"
      by (auto simp: copySlice_def make_def h1_def)
    have "grows h h1" by (simp add: grows_def n1 c1)
    from copyEach_copies [OF c mk this _ _ xs, of ?b 0] obtain zs where nx: "Suc ?b \<le> next_addr h'"
      and old: "\<forall>a < Suc ?b. a \<noteq> ?b \<longrightarrow> cells h' a = cells h1 a" and zs: "items (cells h' ?b) = zs" "map (v h') zs = map (v h) ?xs"
        "\<forall>z \<in> set zs. r h' z \<subseteq> {Suc ?b..<next_addr h'}"
      by (auto simp: Let_def n1 c1 mk h')
    have "grows h h'" unfolding grows_def
    proof (intro conjI allI impI)
      show "next_addr h \<le> next_addr h'" using nx by simp
      fix c assume "c < next_addr h"
      then show "cells h' c = cells h c" using old [rule_format, of c] by (simp add: c1)
    qed
    moreover have "(\<Union>z \<in> set zs. r h' z) \<subseteq> {?b..<next_addr h'}" using zs(3) by fastforce
    then have "sliceRefs items r h' q \<subseteq> {?b..<next_addr h'}" using nx by (simp add: sliceRefs_def q zs(1))
    ultimately show ?thesis using zs Some by (simp add: sliceVal_def q)
  qed
next
  fix h h1 :: store and p
  assume "\<forall>a \<in> sliceRefs items r h p. cells h1 a = cells h a"
  note same = this
  have "cells h1 a = cells h a" and "\<forall>x \<in> set (items (cells h a)). v h1 x = v h x \<and> r h1 x = r h x" if "p = Some a" for a
  proof -
    from same that show "cells h1 a = cells h a" by (simp add: sliceRefs_def)
    show "\<forall>x \<in> set (items (cells h a)). v h1 x = v h x \<and> r h1 x = r h x"
    proof
      fix x assume "x \<in> set (items (cells h a))"
      with same that have "\<forall>a \<in> r h x. cells h1 a = cells h a" by (auto simp: sliceRefs_def)
      from deep_copy.local [OF c this] show "v h1 x = v h x \<and> r h1 x = r h x" .
    qed
  qed
  then show "sliceVal items v h1 p = sliceVal items v h p \<and> sliceRefs items r h1 p = sliceRefs items r h p"
    by (cases p) (auto simp: sliceVal_def sliceRefs_def)
qed

section \<open>The copies of the operator's types\<close>

text \<open>What a resource in the store reads as, in the types of the other theories.\<close>

definition orNil :: "'a list option \<Rightarrow> 'a list" where
  "orNil p = (case p of None \<Rightarrow> [] | Some xs \<Rightarrow> xs)"

definition flatVal :: "(block \<Rightarrow> 'v) \<Rightarrow> store \<Rightarrow> addr option \<Rightarrow> 'v option" where
  "flatVal read h p = map_option (\<lambda>a. read (cells h a)) p"

definition readServiceAccountRef :: "store \<Rightarrow> gServiceAccountRef \<Rightarrow> ServiceAccountRef" where
  "readServiceAccountRef h x = \<lparr>sa_Name = gsaName x, Audiences = orNil (flatVal strings h (gAudiences x))\<rparr>"

definition readExportProvider :: "store \<Rightarrow> gExportProvider \<Rightarrow> ExportAzureKVProvider" where
  "readExportProvider h x = \<lparr>eVaultUrl = geVaultUrl x, eServiceAccountRef = readServiceAccountRef h (geServiceAccountRef x),
     eCertificateSecretRef = orNil (flatVal certRefs h (geCertificateSecretRef x)), OnDeletePurge = geOnDeletePurge x\<rparr>"

definition readImportProvider :: "store \<Rightarrow> gImportProvider \<Rightarrow> ImportAzureKVProvider" where
  "readImportProvider h x = \<lparr>iVaultUrl = giVaultUrl x, iServiceAccountRef = readServiceAccountRef h (giServiceAccountRef x),
     iCertificateSecretRef = orNil (flatVal certRefs h (giCertificateSecretRef x)), SecretNamespace = giSecretNamespace x,
     ScanInterval = giScanInterval x\<rparr>"

definition readConditions :: "store \<Rightarrow> gStatus \<Rightarrow> Condition list" where
  "readConditions h x = orNil (sliceVal conditions (\<lambda>_ c. c) h (gConditions x))"

definition readMeta :: "store \<Rightarrow> gMeta \<Rightarrow> ObjectMeta" where
  "readMeta h x = \<lparr>Name = gName x, Namespace = gNamespace x, UID = gUID x, Generation = gGeneration x,
     DeletionTimestamp = flatVal timeCell h (gDeletionTimestamp x), Finalizers = orNil (flatVal strings h (gFinalizers x)),
     Annotations = flatVal stringMap h (gAnnotations x), Labels = flatVal stringMap h (gLabels x)\<rparr>"

definition readExport :: "store \<Rightarrow> gExport \<Rightarrow> ExportCertificateSecret" where
  "readExport h x = \<lparr>eMeta = readMeta h (geMeta x), eAzureKV = readExportProvider h (geSpec x),
     eStatus = \<lparr>eConditions = readConditions h (geStatus x), eRetryCount = gRetryCount (geStatus x)\<rparr>\<rparr>"

definition readImport :: "store \<Rightarrow> gImport \<Rightarrow> ImportCertificateSecret" where
  "readImport h x = \<lparr>iMeta = readMeta h (giMeta x), iAzureKV = readImportProvider h (giSpec x),
     iStatus = \<lparr>iConditions = readConditions h (giStatus x), iRetryCount = gRetryCount (giStatus x)\<rparr>\<rparr>"

text \<open>The addresses each refers to.\<close>

definition saRefs :: "gServiceAccountRef \<Rightarrow> addr set" where
  "saRefs x = set_option (gAudiences x)"

definition statusRefs :: "store \<Rightarrow> gStatus \<Rightarrow> addr set" where
  "statusRefs h x = sliceRefs conditions (\<lambda>_ _. {}) h (gConditions x)"

definition metaRefs :: "gMeta \<Rightarrow> addr set" where
  "metaRefs x = set_option (gDeletionTimestamp x) \<union> (set_option (gLabels x) \<union> (set_option (gAnnotations x) \<union> set_option (gFinalizers x)))"

definition exportRefs :: "store \<Rightarrow> gExport \<Rightarrow> addr set" where
  "exportRefs h x = metaRefs (geMeta x) \<union> ((saRefs (geServiceAccountRef (geSpec x)) \<union> set_option (geCertificateSecretRef (geSpec x)))
     \<union> statusRefs h (geStatus x))"

definition importRefs :: "store \<Rightarrow> gImport \<Rightarrow> addr set" where
  "importRefs h x = metaRefs (giMeta x) \<union> ((saRefs (giServiceAccountRef (giSpec x)) \<union> set_option (giCertificateSecretRef (giSpec x)))
     \<union> statusRefs h (giStatus x))"

lemmas deep_copy_strings = deep_copy_flat [where zero = "\<lambda>b. Strings (replicate (length (strings b)) [])"
  and read = strings and content = "\<lambda>b. Strings (strings b)", simplified]
lemmas deep_copy_refs = deep_copy_flat [where zero = "\<lambda>b. Refs (replicate (length (certRefs b)) zeroRef)"
  and read = certRefs and content = "\<lambda>b. Refs (certRefs b)", simplified]
lemmas deep_copy_map = deep_copy_flat [where zero = "\<lambda>_. StringMap []"
  and read = stringMap and content = "\<lambda>b. StringMap (stringMap b)", simplified]
lemmas deep_copy_time = deep_copy_flat [where zero = "\<lambda>_. TimeCell 0"
  and read = timeCell and content = "\<lambda>b. TimeCell (timeCell b)", simplified]
lemmas deep_copy_int = deep_copy_flat [where zero = "\<lambda>_. IntCell 0"
  and read = intCell and content = "\<lambda>b. IntCell (intCell b)", simplified]

interpretation sac: deep_copy ServiceAccountRef_DeepCopyInto "\<lambda>_. saRefs" readServiceAccountRef
  by (rule deep_copy_record [OF deep_copy_strings, where parts = gAudiences and build = "\<lambda>x a. x\<lparr>gAudiences := a\<rparr>"
        and view = "\<lambda>x w. \<lparr>sa_Name = gsaName x, Audiences = orNil w\<rparr>"])
     (simp_all add: ServiceAccountRef_DeepCopyInto_def saRefs_def readServiceAccountRef_def flatVal_def)

lemma copyRefs_copies: "deep_copy copyRefs (\<lambda>_ p. set_option p) (flatVal certRefs)"
  using deep_copy_refs unfolding copyRefs_def flatVal_def .

lemma conditions_copies:
  "deep_copy (copySlice zero Condition_DeepCopyInto Conditions conditions) (sliceRefs conditions (\<lambda>_ _. {})) (sliceVal conditions (\<lambda>_ c. c))"
  by (rule deep_copy_slice [OF deep_copy_value]) (simp_all add: Condition_DeepCopyInto_def)

lemmas provider_copies = deep_copy_both [OF sac.deep_copy_axioms copyRefs_copies]

lemmas meta_copies =
  deep_copy_both [OF deep_copy_time deep_copy_both [OF deep_copy_map deep_copy_both [OF deep_copy_map deep_copy_strings]]]

interpretation exp: deep_copy ExportAzureKVProvider_DeepCopyInto
  "\<lambda>_ x. saRefs (geServiceAccountRef x) \<union> set_option (geCertificateSecretRef x)" readExportProvider
  by (rule deep_copy_record [OF provider_copies, where parts = "\<lambda>x. (geServiceAccountRef x, geCertificateSecretRef x)"
        and build = "\<lambda>x p. x\<lparr>geServiceAccountRef := fst p, geCertificateSecretRef := snd p\<rparr>"
        and view = "\<lambda>x w. \<lparr>eVaultUrl = geVaultUrl x, eServiceAccountRef = fst w, eCertificateSecretRef = orNil (snd w), OnDeletePurge = geOnDeletePurge x\<rparr>"])
     (simp_all add: ExportAzureKVProvider_DeepCopyInto_def copyBoth_def readExportProvider_def split: prod.splits)

interpretation imp: deep_copy ImportAzureKVProvider_DeepCopyInto
  "\<lambda>_ x. saRefs (giServiceAccountRef x) \<union> set_option (giCertificateSecretRef x)" readImportProvider
  by (rule deep_copy_record [OF provider_copies, where parts = "\<lambda>x. (giServiceAccountRef x, giCertificateSecretRef x)"
        and build = "\<lambda>x p. x\<lparr>giServiceAccountRef := fst p, giCertificateSecretRef := snd p\<rparr>"
        and view = "\<lambda>x w. \<lparr>iVaultUrl = giVaultUrl x, iServiceAccountRef = fst w, iCertificateSecretRef = orNil (snd w),
          SecretNamespace = giSecretNamespace x, ScanInterval = giScanInterval x\<rparr>"])
     (simp_all add: ImportAzureKVProvider_DeepCopyInto_def copyBoth_def readImportProvider_def split: prod.splits)

interpretation est: deep_copy ExportCertificateSecretStatus_DeepCopyInto statusRefs "\<lambda>h x. (readConditions h x, gRetryCount x)"
  by (rule deep_copy_record [OF conditions_copies, where parts = gConditions and build = "\<lambda>x c. x\<lparr>gConditions := c\<rparr>"
        and view = "\<lambda>x w. (orNil w, gRetryCount x)"])
     (simp_all add: ExportCertificateSecretStatus_DeepCopyInto_def statusRefs_def readConditions_def)

interpretation ist: deep_copy ImportCertificateSecretStatus_DeepCopyInto statusRefs "\<lambda>h x. (readConditions h x, gRetryCount x)"
  by (rule deep_copy_record [OF conditions_copies, where parts = gConditions and build = "\<lambda>x c. x\<lparr>gConditions := c\<rparr>"
        and view = "\<lambda>x w. (orNil w, gRetryCount x)"])
     (simp_all add: ImportCertificateSecretStatus_DeepCopyInto_def statusRefs_def readConditions_def)

interpretation omc: deep_copy ObjectMeta_DeepCopyInto "\<lambda>_. metaRefs" readMeta
  by (rule deep_copy_record [OF meta_copies, where parts = "\<lambda>x. (gDeletionTimestamp x, gLabels x, gAnnotations x, gFinalizers x)"
        and build = "\<lambda>x (d, l, a, f). x\<lparr>gDeletionTimestamp := d, gLabels := l, gAnnotations := a, gFinalizers := f\<rparr>"
        and view = "\<lambda>x (d, l, a, f). \<lparr>Name = gName x, Namespace = gNamespace x, UID = gUID x, Generation = gGeneration x,
          DeletionTimestamp = d, Finalizers = orNil f, Annotations = a, Labels = l\<rparr>"])
     (auto simp: ObjectMeta_DeepCopyInto_def copyBoth_def metaRefs_def readMeta_def flatVal_def split: prod.splits)

lemmas export_parts = deep_copy_both [OF omc.deep_copy_axioms deep_copy_both [OF exp.deep_copy_axioms est.deep_copy_axioms]]
lemmas import_parts = deep_copy_both [OF omc.deep_copy_axioms deep_copy_both [OF imp.deep_copy_axioms ist.deep_copy_axioms]]

text \<open>A resource reads as its type and its fields.\<close>

interpretation ecc: deep_copy ExportCertificateSecret_DeepCopyInto exportRefs "\<lambda>h x. (geType x, readExport h x)"
  by (rule deep_copy_record [OF export_parts, where parts = "\<lambda>x. (geMeta x, geSpec x, geStatus x)"
        and build = "\<lambda>x (m, p, s). x\<lparr>geMeta := m, geSpec := p, geStatus := s\<rparr>"
        and view = "\<lambda>x (m, p, s). (geType x, \<lparr>eMeta = m, eAzureKV = p, eStatus = \<lparr>eConditions = fst s, eRetryCount = snd s\<rparr>\<rparr>)"])
     (auto simp: ExportCertificateSecret_DeepCopyInto_def ExportCertificateSecretSpec_DeepCopyInto_def copyBoth_def
        exportRefs_def readExport_def split: prod.splits)

interpretation icc: deep_copy ImportCertificateSecret_DeepCopyInto importRefs "\<lambda>h x. (giType x, readImport h x)"
  by (rule deep_copy_record [OF import_parts, where parts = "\<lambda>x. (giMeta x, giSpec x, giStatus x)"
        and build = "\<lambda>x (m, p, s). x\<lparr>giMeta := m, giSpec := p, giStatus := s\<rparr>"
        and view = "\<lambda>x (m, p, s). (giType x, \<lparr>iMeta = m, iAzureKV = p, iStatus = \<lparr>iConditions = fst s, iRetryCount = snd s\<rparr>\<rparr>)"])
     (auto simp: ImportCertificateSecret_DeepCopyInto_def ImportCertificateSecretSpec_DeepCopyInto_def copyBoth_def
        importRefs_def readImport_def split: prod.splits)

text \<open>The lists.\<close>

definition readListMeta :: "store \<Rightarrow> gListMeta \<Rightarrow> string \<times> string \<times> int option" where
  "readListMeta h x = (ResourceVersion x, Continue x, flatVal intCell h (RemainingItemCount x))"

interpretation lmc: deep_copy ListMeta_DeepCopyInto "\<lambda>_ x. set_option (RemainingItemCount x)" readListMeta
  by (rule deep_copy_record [OF deep_copy_int, where parts = RemainingItemCount and build = "\<lambda>x n. x\<lparr>RemainingItemCount := n\<rparr>"
        and view = "\<lambda>x w. (ResourceVersion x, Continue x, w)"])
     (simp_all add: ListMeta_DeepCopyInto_def readListMeta_def flatVal_def)

definition exportListRefs :: "store \<Rightarrow> gList \<Rightarrow> addr set" where
  "exportListRefs h x = set_option (RemainingItemCount (gListMeta x)) \<union> sliceRefs exportItems exportRefs h (gItems x)"

definition importListRefs :: "store \<Rightarrow> gList \<Rightarrow> addr set" where
  "importListRefs h x = set_option (RemainingItemCount (gListMeta x)) \<union> sliceRefs importItems importRefs h (gItems x)"

definition readExportList :: "store \<Rightarrow> gList \<Rightarrow> TypeMeta \<times> (string \<times> string \<times> int option) \<times> (TypeMeta \<times> ExportCertificateSecret) list" where
  "readExportList h x = (gType x, readListMeta h (gListMeta x), orNil (sliceVal exportItems (\<lambda>h x. (geType x, readExport h x)) h (gItems x)))"

definition readImportList :: "store \<Rightarrow> gList \<Rightarrow> TypeMeta \<times> (string \<times> string \<times> int option) \<times> (TypeMeta \<times> ImportCertificateSecret) list" where
  "readImportList h x = (gType x, readListMeta h (gListMeta x), orNil (sliceVal importItems (\<lambda>h x. (giType x, readImport h x)) h (gItems x)))"

lemma exports_copy: "deep_copy (copySlice zero ExportCertificateSecret_DeepCopyInto Exports exportItems)
    (sliceRefs exportItems exportRefs) (sliceVal exportItems (\<lambda>h x. (geType x, readExport h x)))"
  by (rule deep_copy_slice [OF ecc.deep_copy_axioms]) simp

lemma imports_copy: "deep_copy (copySlice zero ImportCertificateSecret_DeepCopyInto Imports importItems)
    (sliceRefs importItems importRefs) (sliceVal importItems (\<lambda>h x. (giType x, readImport h x)))"
  by (rule deep_copy_slice [OF icc.deep_copy_axioms]) simp

interpretation elc: deep_copy ExportCertificateSecretList_DeepCopyInto exportListRefs readExportList
  by (rule deep_copy_record [OF deep_copy_both [OF lmc.deep_copy_axioms exports_copy [of zeroExport]],
        where parts = "\<lambda>x. (gListMeta x, gItems x)" and build = "\<lambda>x p. x\<lparr>gListMeta := fst p, gItems := snd p\<rparr>"
        and view = "\<lambda>x w. (gType x, fst w, orNil (snd w))"])
     (auto simp: ExportCertificateSecretList_DeepCopyInto_def copyBoth_def exportListRefs_def readExportList_def split: prod.splits)

interpretation ilc: deep_copy ImportCertificateSecretList_DeepCopyInto importListRefs readImportList
  by (rule deep_copy_record [OF deep_copy_both [OF lmc.deep_copy_axioms imports_copy [of zeroImport]],
        where parts = "\<lambda>x. (gListMeta x, gItems x)" and build = "\<lambda>x p. x\<lparr>gListMeta := fst p, gItems := snd p\<rparr>"
        and view = "\<lambda>x w. (gType x, fst w, orNil (snd w))"])
     (auto simp: ImportCertificateSecretList_DeepCopyInto_def copyBoth_def importListRefs_def readImportList_def split: prod.splits)

section \<open>The copies are deep\<close>

text \<open>
  \<open>DeepCopyObject\<close> of an export resource yields an object that reads as the original; the
  original still reads the same, and a write to anything the one refers to is not seen through
  the other. This is what lets the controllers and the event handler change the object they
  fetched without touching the cache.
\<close>

lemma export_copy_is_deep:
  assumes "ExportCertificateSecret_DeepCopyObject (Some x) h = (p, h')" and "exportRefs h x \<subseteq> {..<next_addr h}"
  shows "\<exists>y. p = Some y \<and> (geType y, readExport h' y) = (geType x, readExport h x) \<and> readExport h' x = readExport h x
    \<and> (\<forall>a \<in> exportRefs h' y. \<forall>b. readExport (put a b h') x = readExport h x)
    \<and> (\<forall>a \<in> exportRefs h x. \<forall>b. readExport (put a b h') y = readExport h x)"
proof -
  have "deepCopyPtr ExportCertificateSecret_DeepCopyInto (Some x) h = (p, h')"
    using assms(1) by (auto simp: ExportCertificateSecret_DeepCopyObject_def ExportCertificateSecret_DeepCopy_def deepCopyPtr_def split: prod.splits)
  from ecc.pointer [OF this assms(2)] show ?thesis by blast
qed

text \<open>
  C40. The same for the list of import resources the cache returns, whose items are copied one by
  one into a fresh array: the copy reads as the original, item by item, and neither sees a write
  made through the other.
\<close>

theorem import_list_copy_is_deep:
  assumes "ImportCertificateSecretList_DeepCopyObject (Some x) h = (p, h')" and "importListRefs h x \<subseteq> {..<next_addr h}"
  shows "\<exists>y. p = Some y \<and> readImportList h' y = readImportList h x \<and> readImportList h' x = readImportList h x
    \<and> (\<forall>a \<in> importListRefs h' y. \<forall>b. readImportList (put a b h') x = readImportList h x)
    \<and> (\<forall>a \<in> importListRefs h x. \<forall>b. readImportList (put a b h') y = readImportList h x)"
proof -
  have "deepCopyPtr ImportCertificateSecretList_DeepCopyInto (Some x) h = (p, h')"
    using assms(1) by (auto simp: ImportCertificateSecretList_DeepCopyObject_def ImportCertificateSecretList_DeepCopy_def deepCopyPtr_def split: prod.splits)
  from ilc.pointer [OF this assms(2)] show ?thesis .
qed

text \<open>An export resource and a list of two import resources that share nothing with each other.\<close>

definition aStore :: store where
  "aStore = \<lparr>next_addr = 6, cells = (\<lambda>_. Strings [])(0 := Strings [FINALIZER], 1 := Refs [zeroRef], 2 := Conditions [zeroCondition],
     3 := Imports [zeroImport\<lparr>giMeta := zeroMeta\<lparr>gName := ''a'', gFinalizers := Some 0\<rparr>\<rparr>,
       zeroImport\<lparr>giMeta := zeroMeta\<lparr>gName := ''b''\<rparr>, giStatus := \<lparr>gConditions = Some 2, gRetryCount = 3\<rparr>\<rparr>], 4 := IntCell 7)\<rparr>"

definition aStoredExport :: gExport where
  "aStoredExport = zeroExport\<lparr>geMeta := zeroMeta\<lparr>gName := ''a'', gFinalizers := Some 0\<rparr>,
     geSpec := (geSpec zeroExport)\<lparr>geCertificateSecretRef := Some 1\<rparr>\<rparr>"

definition aStoredList :: gList where
  "aStoredList = \<lparr>gType = \<lparr>Kind = ''ImportCertificateSecretList'', tmAPIVersion = []\<rparr>,
     gListMeta = \<lparr>ResourceVersion = ''1'', Continue = [], RemainingItemCount = Some 4\<rparr>, gItems = Some 3\<rparr>"

lemmas stored_defs = aStore_def aStoredExport_def aStoredList_def zeroExport_def zeroImport_def zeroMeta_def

lemma export_copy_example:
  "\<exists>y h'. ExportCertificateSecret_DeepCopyObject (Some aStoredExport) aStore = (Some y, h')
     \<and> exportRefs h' y = {6, 7} \<and> Finalizers (eMeta (readExport h' y)) = [FINALIZER]
     \<and> Finalizers (eMeta (readExport (put 6 (Strings []) h') aStoredExport)) = [FINALIZER]"
proof -
  have refs: "exportRefs aStore aStoredExport \<subseteq> {..<next_addr aStore}"
    by (simp add: exportRefs_def metaRefs_def saRefs_def statusRefs_def sliceRefs_def stored_defs)
  obtain p h' where run: "ExportCertificateSecret_DeepCopyObject (Some aStoredExport) aStore = (p, h')" by fastforce
  from export_copy_is_deep [OF this refs] obtain y where y: "p = Some y" "readExport h' y = readExport aStore aStoredExport"
    "\<forall>a \<in> exportRefs h' y. \<forall>b. readExport (put a b h') aStoredExport = readExport aStore aStoredExport" by auto
  have fin: "Finalizers (eMeta (readExport aStore aStoredExport)) = [FINALIZER]" by code_simp
  have "map_option (\<lambda>y. (gFinalizers (geMeta y), geCertificateSecretRef (geSpec y), gDeletionTimestamp (geMeta y), gAnnotations (geMeta y),
      gLabels (geMeta y), gAudiences (geServiceAccountRef (geSpec y)), gConditions (geStatus y)))
      (fst (ExportCertificateSecret_DeepCopyObject (Some aStoredExport) aStore)) = Some (Some 6, Some 7, None, None, None, None, None)"
    by code_simp
  then have "exportRefs h' y = {6, 7}"
    by (simp add: run y(1) exportRefs_def metaRefs_def saRefs_def statusRefs_def sliceRefs_def insert_commute)
  with run y fin show ?thesis by auto
qed

theorem import_list_copy_is_deep_witness:
  "\<exists>y h'. ImportCertificateSecretList_DeepCopyObject (Some aStoredList) aStore = (Some y, h')
     \<and> map (\<lambda>(t, i). (Name (iMeta i), iRetryCount (iStatus i))) (snd (snd (readImportList h' y))) = [(''a'', 0), (''b'', 3)]
     \<and> readImportList (put 3 (Imports []) h') y = readImportList aStore aStoredList"
proof -
  have refs: "importListRefs aStore aStoredList \<subseteq> {..<next_addr aStore}" and three: "3 \<in> importListRefs aStore aStoredList"
    by (simp_all add: importListRefs_def importRefs_def metaRefs_def saRefs_def statusRefs_def sliceRefs_def stored_defs)
  obtain p h' where run: "ImportCertificateSecretList_DeepCopyObject (Some aStoredList) aStore = (p, h')" by fastforce
  have "map (\<lambda>(t, i). (Name (iMeta i), iRetryCount (iStatus i))) (snd (snd (readImportList aStore aStoredList))) = [(''a'', 0), (''b'', 3)]"
    by code_simp
  with import_list_copy_is_deep [OF run refs] run three show ?thesis by auto
qed

end
