(* ===== verification/Unit_Tests.thy ===== *)
theory Unit_Tests
  imports Azure_Kv Workload_Identity Openssl
begin

text \<open>
  The unit tests of the repository, evaluated on the model: the mocks of
  \<open>akv/akv_test.go\<close>, \<open>auth/workloadid_test.go\<close> and \<open>openssl/openssl_test.go\<close> are values of the
  parameters, and what a test asserts is a lemma of the same name.
\<close>

section \<open>Key Vault operations (akv_test.go)\<close>

definition exampleUrl :: string where
  "exampleUrl = ''https://example.vault.azure.net''"

text \<open>The mock client answers what it is told to; other arguments than the expected ones give no answer.\<close>

definition answersFor :: "string \<Rightarrow> 'a \<Rightarrow> 'a \<Rightarrow> string \<Rightarrow> string \<Rightarrow> unit \<Rightarrow> 'a \<times> unit" where
  "answersFor name expected other u n w = ((if u = exampleUrl \<and> n = name then expected else other), w)"

definition mockClient :: "SecretBundle \<times> go_error option \<Rightarrow> AResponse \<times> go_error option \<Rightarrow> unit KeyVaultClient" where
  "mockClient bundle resp =
     (let none = (None, None) in
      \<lparr>SetSecret = \<lambda>u n v _. answersFor ''test-secret'' (if v = ''secret-value'' then bundle else (emptyBundle, None)) (emptyBundle, None) u n,
       ImportCertificate = \<lambda>u n v. answersFor ''test-cert'' (if v = ''cert-value'' then resp else none) none u n,
       DeleteSecret = answersFor ''test-secret'' resp none,
       PurgeDeletedSecret = answersFor ''test-secret'' resp none,
       PurgeDeletedCertificate = answersFor ''test-cert'' resp none,
       DeleteCertificate = answersFor ''test-cert'' resp none,
       GetSecret = \<lambda>u n _. answersFor ''test-secret'' bundle (emptyBundle, None) u n\<rparr>)"

definition vaultFor :: "SecretBundle \<times> go_error option \<Rightarrow> AResponse \<times> go_error option \<Rightarrow> string \<Rightarrow> bytes \<Rightarrow> unit kvst" where
  "vaultFor bundle resp name v = \<lparr>trace = [], world = (),
     kv = \<lparr>Client = mockClient bundle resp, VaultUrl = exampleUrl,
       kvSecret = Some (emptyKvSecret\<lparr>sName := name, sValue := v\<rparr>)\<rparr>\<rparr>"

lemma TestPushSecretToKeyVault:
  "fst (PushSecretToKeyVault (vaultFor (\<lparr>bStatus = Some 200, bValue = Some ''secret-value''\<rparr>, None) (None, None)
     ''test-secret'' ''secret-value'')) = Done None"
  by code_simp

lemma TestPushCertificateToKeyVault:
  "fst (PushCertificateToKeyVault (vaultFor (emptyBundle, None) (Some 200, None) ''test-cert'' ''cert-value'')) = Done None"
  by code_simp

lemma TestDeleteSecretFromKeyVault:
  "fst (DeleteSecretFromKeyVault (vaultFor (emptyBundle, None) (Some 200, None) ''test-secret'' [])) = Done None"
  by code_simp

lemma TestPurgeDeletedSecretFromKeyVault:
  "fst (PurgeDeletedSecretFromKeyVault offlineKube (vaultFor (emptyBundle, None) (Some 200, None) ''test-secret'' [])) = Done None"
  by code_simp

text \<open>With purge protection there is one attempt, and no error.\<close>

definition purgeProtected :: "unit kvst" where
  "purgeProtected = vaultFor (emptyBundle, None)
     (Some 403, Some (PlainError (''Operation '' @ [CHR 0x22] @ ''purge'' @ [CHR 0x22] @ '' is not allowed because purge protection is enabled'')))
     ''test-secret'' []"

lemma TestPurgeDeletedSecretFromKeyVaultWithPurgeProtection:
  "fst (PurgeDeletedSecretFromKeyVault offlineKube purgeProtected) = Done None"
  "trace (snd (PurgeDeletedSecretFromKeyVault offlineKube purgeProtected)) = [KvPurgeSecret exampleUrl ''test-secret'']"
  by code_simp+

lemma TestPurgeDeletedCertificateFromKeyVault:
  "fst (PurgeDeletedCertificateFromKeyVault offlineKube (vaultFor (emptyBundle, None) (Some 200, None) ''test-cert'' [])) = Done None"
  by code_simp

lemma TestDeleteCertificateFromKeyVault:
  "fst (DeleteCertificateFromKeyVault (vaultFor (emptyBundle, None) (Some 200, None) ''test-cert'' [])) = Done None"
  by code_simp

section \<open>Workload identity (workloadid_test.go)\<close>

definition testAccount :: "(string \<times> string) list \<Rightarrow> ServiceAccount" where
  "testAccount annotations = \<lparr>saMeta = emptyMeta\<lparr>Name := ''test-sa'', Namespace := ''default'', Annotations := Some annotations\<rparr>\<rparr>"

text \<open>The reactor of the fake clientset looks at one of the audiences it is sent.\<close>

definition testKube :: "nat \<Rightarrow> unit kube" where
  "testKube i = offlineKube\<lparr>cs_create_token := \<lambda>_ sa auds w.
     ((if i < length auds \<and> auds ! i = ''test-audience'' \<and> sa = ''test-sa'' then Inr ''test-token''
       else Inl (PlainError ''failed to fetch service account token'')), w)\<rparr>"

definition testMsal :: "unit msal" where
  "testMsal = \<lparr>confidential_New = \<lambda>_ _. None, AcquireTokenByCredential = \<lambda>_ _ _ _ w. (Inr ''test-token'', w)\<rparr>"

definition testWorkload :: "(string \<times> string) list \<Rightarrow> WorkloadID" where
  "testWorkload annotations = \<lparr>waServiceAccount = testAccount annotations, SaAudiences = [''test-audience''], Authorizer = None\<rparr>"

abbreviation clientIdAnnotation :: "string \<times> string" where
  "clientIdAnnotation \<equiv> (''azure.workload.identity/client-id'', ''test-client-id'')"
abbreviation tenantIdAnnotation :: "string \<times> string" where
  "tenantIdAnnotation \<equiv> (''azure.workload.identity/tenant-id'', ''test-tenant-id'')"

definition authorizerTest :: "(string \<times> string) list \<Rightarrow> (WorkloadID \<times> go_error option) outcome" where
  "authorizerTest annotations =
     fst (AuthorizerForWorkloadIdentity (testKube 1) testMsal (testWorkload annotations) \<lparr>trace = [], world = ()\<rparr>)"

lemma TestAuthorizerForWorkloadIdentity:
  "authorizerTest [clientIdAnnotation, tenantIdAnnotation]
     = Done ((testWorkload [clientIdAnnotation, tenantIdAnnotation])\<lparr>Authorizer := Some ''test-token''\<rparr>, None)"
  "authorizerTest [tenantIdAnnotation] = Done (testWorkload [tenantIdAnnotation], Some (PlainError ''client ID annotation not found''))"
  "authorizerTest [clientIdAnnotation] = Done (testWorkload [clientIdAnnotation], Some (PlainError ''tenant ID annotation not found''))"
  by code_simp+

definition fetchTest :: "string \<Rightarrow> string list \<Rightarrow> (go_error + string) outcome" where
  "fetchTest sa auds = fst (FetchSAToken (testKube 0) ''default'' sa auds \<lparr>trace = [], world = ()\<rparr>)"

lemma TestFetchSAToken:
  "fetchTest ''test-sa'' [''test-audience''] = Done (Inr ''test-token'')"
  "fetchTest ''invalid-sa'' [''test-audience''] = Done (Inl (PlainError ''failed to fetch service account token''))"
  "fetchTest ''test-sa'' [''invalid-audience''] = Done (Inl (PlainError ''failed to fetch service account token''))"
  by code_simp+

section \<open>Certificate processing (openssl_test.go)\<close>

text \<open>The files are accepted, openssl prints the date of the test, and the read of a file gives its dummy data.\<close>

definition testOs :: "unit os" where
  "testOs = \<lparr>os_CreateTemp = \<lambda>p w. (Inr p, w), os_Write = \<lambda>_ _ w. (None, w), os_Sync = \<lambda>_ w. (None, w),
     os_Close = \<lambda>_ w. (None, w), os_Remove = \<lambda>_ w. (None, w),
     os_Run = \<lambda>_ w. ((''notAfter=Dec 31 23:59:59 2024 GMT'' @ [CHR 0x0A], None), w),
     os_ReadFile = \<lambda>_ w. (Inr ''dummy pfx data'', w)\<rparr>"

definition testX509 :: x509_lib where
  "testX509 = \<lparr>ParseCertificate = \<lambda>b. Inr \<lparr>Raw = b, NotBefore = 0, NotAfter = 1\<rparr>,
     ParsePKCS1PrivateKey = \<lambda>b. Inr b, ParsePKCS8PrivateKey = \<lambda>b. Inr (OtherPrivateKey b),
     time_Parse = \<lambda>t. if t = ''Dec 31 23:59:59 2024 GMT'' then Inr (1735689599 * 1000000000) else Inl refused\<rparr>"

definition runnersWith :: "Certificates \<Rightarrow> unit osst" where
  "runnersWith c = \<lparr>trace = [], world = (), osr = c\<rparr>"

lemma TestGetCertificateExpiration:
  "fst (GetCertificateExpiration testOs testX509 ''crt'' (runnersWith NewOpenSSLRunners)) = Done None"
  "ExpirationTime (osr (snd (GetCertificateExpiration testOs testX509 ''crt'' (runnersWith NewOpenSSLRunners)))) = 1735689599"
  by code_simp+

lemma TestCreatePKCS12:
  "fst (CreatePKCS12 offlineKube testOs (runnersWith (NewOpenSSLRunners
     \<lparr>X509Certificates := [\<lparr>Raw = ''der'', NotBefore = -3600, NotAfter = 3600\<rparr>], PrivateKey := Some (RsaPrivateKey ''key'')\<rparr>))) = Done None"
  by (simp add: CreatePKCS12_def runnersWith_def NewOpenSSLRunners_def checkValidity_def timeNow_def offlineKube_def deferred_def
      writePemFiles_def orWrap_def convertWithOpenssl_def setCerts_def file_defs testOs_def go_run Let_def)

text \<open>Empty certificates, then certificates without a bundle.\<close>

lemma test_enddate:
  "parseEnddate testX509 (''notAfter=Dec 31 23:59:59 2024 GMT'' @ [CHR 0x0A]) = Inr 1735689599000000000"
  by code_simp

lemma test_expiration:
  "\<exists>s'. GetCertificateExpiration testOs testX509 b s = (Done None, s') \<and> osr s' = (osr s)\<lparr>ExpirationTime := 1735689599\<rparr>"
  using test_enddate
  by (simp add: GetCertificateExpiration_def testOs_def file_defs deferred_def setCerts_def unixSeconds_def go_run)

lemma TestProcessCertificates:
  assumes "PemBundle c = []"
  shows "fst (ProcessCertificates offlineKube testOs testX509 (runnersWith c)) = Done None"
proof -
  let ?get = "GetCertificateExpiration testOs testX509" and ?s = "runnersWith c"
  obtain s1 s2 s3 where "?get (TLSCrt c) ?s = (Done None, s1)" "?get (CACrt c) s1 = (Done None, s2)" "?get (CACrt c) ?s = (Done None, s3)"
    using test_expiration by meson
  moreover have "osr ?s = c" by (simp add: runnersWith_def)
  ultimately show ?thesis using assms by (simp add: ProcessCertificates_def orReturn_def go_run)
qed

end
