(* ===== verification/Spec2Isabelle.thy ===== *)
theory Spec2Isabelle
  imports Export_Webhook Operator_Main Program_Init Export_System Export_Integrity Import_System Import_Integrity Import_Deletion Deep_Copy Unit_Tests
begin

text \<open>
  The external certificate operator: a Kubernetes operator that copies TLS secrets between
  clusters through Azure Key Vault. An \<open>ExportCertificateSecret\<close> names Kubernetes secrets that
  the export controller pushes to a vault; an \<open>ImportCertificateSecret\<close> names vault secrets that
  the import controller writes into Kubernetes secrets. Admission webhooks default and validate
  both resources.

  \<^bold>\<open>Theories and the code they model\<close> (paths below \<open>src/\<close>)

  \<^item> \<open>Go_Prelude\<close>: machine integers (\<open>int\<close> and \<open>time.Duration\<close> are 64-bit words), the monad of
    methods (\<open>go\<close>: a method returns or panics, and keeps what it did before a panic), loops over
    slices, the functions of Go's standard library that the program calls, and the rule
    collections \<open>go_run\<close> (running a method step by step) and the Hoare
    rules (\<open>holds\<close>, \<open>keeps\<close>; \<open>adds\<close> in \<open>Go_World\<close> for the requests in the trace).
  \<^item> \<open>Go_Base64\<close> and \<open>Go_Pem\<close>: \<open>encoding/base64\<close> and \<open>encoding/pem\<close> as the program uses them.
  \<^item> \<open>Api_Types\<close>: the custom resources of \<open>api/v1alpha1/*_types.go\<close>, \<open>constants.go\<close>, and
    \<open>internal/shared/vars/contants.go\<close>.
  \<^item> \<open>Go_World\<close>: the Kubernetes API and the clock as records of functions over an arbitrary type of
    worlds; each request is an \<open>effect\<close> in the trace of the state.
  \<^item> \<open>Export_Webhook\<close>, \<open>Import_Webhook\<close>: \<open>api/v1alpha1/*_webhook.go\<close>, and the list of allowed
    namespaces that \<open>cmd/main.go\<close> reads from its flags.
  \<^item> \<open>Utils\<close>, \<open>Event_Handler\<close>: \<open>internal/shared/utils/\<close>.
  \<^item> \<open>Azure_Client\<close>, \<open>Azure_Kv\<close>: the interface of the Key Vault client with the vendored SDK client
    behind it, and \<open>internal/shared/providers/azure/akv/\<close>.
  \<^item> \<open>Workload_Identity\<close>: \<open>internal/shared/providers/azure/auth/workloadid.go\<close>.
  \<^item> \<open>Openssl\<close>: \<open>internal/shared/openssl/\<close>.
  \<^item> \<open>Controller_State\<close>, \<open>Export_Controller\<close>, \<open>Import_Controller\<close>: the reconcilers of
    \<open>internal/controllers/\<close>; \<open>Export_Setup\<close> and \<open>Import_Setup\<close> their \<open>setup.go\<close>.
  \<^item> \<open>Program_Init\<close>: \<open>internal/shared/log/\<close>, \<open>groupversion_info.go\<close> and the \<open>init\<close> functions: what
    happens before \<open>main\<close>.
  \<^item> \<open>Operator_Main\<close>: \<open>cmd/main.go\<close> with the registration of controllers and webhooks.
  \<^item> \<open>Deep_Copy\<close>: \<open>api/v1alpha1/zz_generated.deepcopy.go\<close> over a store; a copy and its original
    read the same and share nothing, which is why the other theories take objects as values.
  \<^item> \<open>Export_Invariants\<close>: two interfaces (locales), of the invariants of a synchronisation
    (\<open>sync_invariant\<close>, interpreted for quantities of the world that no request changes) and of those of a
    reconciliation (\<open>reconcile_invariant\<close>). \<open>Export_Frame\<close> interprets both for the names in the vault,
    \<open>Export_Integrity\<close> the second one for the values that are sent.
  \<^item> \<open>Export_Sync\<close>, \<open>Export_Pem\<close>, \<open>Export_Retries\<close>, \<open>Export_Liveness\<close>, \<open>Export_Flow\<close>, \<open>Export_Frame\<close>,
    \<open>Export_Integrity\<close>, \<open>Export_Deletion\<close>, \<open>Import_Sync\<close>, \<open>Import_Lifecycle\<close>, \<open>Import_Deletion\<close>, \<open>Import_Safety\<close>, \<open>Import_Flow\<close>,
    \<open>Import_Integrity\<close>: what is proved of whole reconciliations. The interface \<open>import_requests\<close> of
    \<open>Import_Flow\<close> carries a claim on the requests of \<open>importSecrets\<close> to the whole reconciliation; it is
    interpreted for the events of a success, and in \<open>Import_Integrity\<close> for the secrets that are created.
  \<^item> \<open>Unit_Tests\<close>: the repository's unit tests of the Key Vault operations, the authentication and the
    certificates, evaluated on the model.
  \<^item> \<open>Export_System\<close>, \<open>Import_System\<close>: each controller with its watches and the manager's queue, as a
    step relation: changes of the cluster, reconciliations, panics and restarts in any order. The property of
    two clusters that share a vault is in this theory.

  \<^bold>\<open>State and calls.\<close> A reconciler's fields that outlive a reconciliation are record fields of the
  state (\<open>AkvClient\<close>, \<open>KubeClient\<close>, and the resource last read): they are shared by all resources
  of a controller, which is what the properties of deletions are about. A pointer that may be
  nil is an option, and its use when nil is a panic. A method of an object behind such a pointer
  runs on a part of the state (\<open>zoom\<close>). An error is \<open>go_error option\<close>, or the left of a sum.

  \<^bold>\<open>What is shown.\<close> Of the webhooks: equivalence with an abstract admission policy,
  idempotent defaulting, and that what is admitted is complete for the controllers. Of the export
  controller: what a reconciliation that succeeds leaves in the vault and which certificates it imports
  (functional), that none touches the names of another resource, or sends a certificate under another name than that
  of its reference (safety), the life of the retry count (at
  most five successes, whatever else happens to the resource), that no failure is forgotten (a run that asks for no
  other one has synchronised all secrets), what a deletion requests, and where these differ from what is documented; of the controller with its queue, that in every reachable
  state each resource is queued or its vault up to date. Of the import controller: the refinement of an
  import to one update of the map of secrets, that no path of a reconciliation changes an imported value,
  that a secret is created whole or not at all, that a reported success is one, the schedule of its retries, that every resource is scanned for ever, and
  how a deletion ends: it asks for another run, or it has removed the finalizer, also when secrets were not deleted. Of the two together: the round trip of a secret from one cluster to another,
  through a whole reconciliation of each. Of the program's start: what is initialised before
  \<open>main\<close>, and one fixed order of registrations, each of them answered without an error before the manager is started. Of the generated copies: that they are deep. Of
  the helpers: round trips of base64, the exact backoff with its wrap-around, the three attempts of a purge,
  temporary files removed on every path, bundles of PEM blocks read to their end.

  \<^bold>\<open>Parameters.\<close> The API server, the vault behind the SDK client, the token service, files and
  processes, \<open>crypto/x509\<close> and \<open>time.Parse\<close> are functions over the worlds, arguments of the definitions.
  The laws some properties need (an update is read back, the vault serves what it stored)
  are hypotheses of the properties or assumptions of locales, and each has a
  witness on a concrete world. A read replaces all of the object it is given, as the reads of the
  manager's cache do. The order in which Go ranges over a map is a parameter that visits each key once.

  \<^bold>\<open>Bounds and termination.\<close> No definition needs fuel: every loop of the program is over a slice or
  counts attempts to a constant, and decoding a PEM bundle shortens the text by each block. Scan intervals
  are bounded by \<open>maxInterval\<close> minutes, beyond which their nanoseconds do not fit an \<open>int64\<close>.

  \<^bold>\<open>Not modelled.\<close> The log lines (no result depends on them); the passing of time
  between a request and its reconciliation, which is one step of the two systems (a change of the cluster
  comes before it or after it); the parsing of the command line; of the metadata of an object the fields the
  program does not use; the sending of HTTP requests inside the SDK. Simplifications: the strategic merge
  patch is that of two secrets that differ in their data, which is how the program calls it; a nil and an empty slice
  are the same list, though \<open>reflect.DeepEqual\<close> in \<open>exportUpdateFunc\<close> distinguishes them, so that the model lets
  through fewer events than the code (no property needs the others); the second \<open>ctrl.SetLogger\<close> of \<open>main\<close> is
  \<open>setFlagLogger\<close> of \<open>Program_Init\<close>, not a call of \<open>Operator_Main\<close>;
  \<open>pem.Encode\<close> to a file is one write; interleavings of the two controllers with each other or
  with other clients are covered in so far as the world may answer each request in any way.
\<close>

section \<open>From one cluster to another\<close>

text \<open>
  C1. The round trip through the vault. A reconciliation of one cluster exports \<open>a\<close>, among other
  references, and asks for no retry; later a reconciliation of another cluster, of an import whose
  reference names the same vault secret, records its success. If the vault had no secret of the name
  before and still holds what was exported, and the other cluster had no such secret, then the other
  cluster's secret holds the exported data under the key of the reference. The one exception is
  data that is itself the base64 encoding of something and was exported without the template: it
  arrives decoded.
\<close>

theorem export_import_roundtrip:
  assumes "finds A reqA (world s) x" and "0 \<le>s GetRetryCount x"
    and "returns_spec (env_kube A)" and "cluster_secrets A sec view" and "vault_apart A view" and "vault_clients A view"
    and "distinct (map vaultName (eCertificateSecretRef (eAzureKV x)))"
    and exported: "Reconcile A reqA s = (Done (res, None), s')" "\<not> 0 <s RequeueAfter res"
    and a: "a \<in> set (eCertificateSecretRef (eAzureKV x))" "RefType a = ''crt''"
    and fresh: "view (world s) (eVaultUrl (eAzureKV x), vaultName a) = None"
    and link: "vault (world u) (eVaultUrl (eAzureKV x), vaultName a) = view (world s') (eVaultUrl (eAzureKV x), vaultName a)"
      "iVaultUrl (iAzureKV y) = eVaultUrl (eAzureKV x)"
    and "import_laws B vault secrets" and "importFinds B reqB (world u) y"
    and imported: "ImportReconcile B reqB u = (r, u')" "trace u' = trace u @ es" "CreateEvent ev \<in> set es"
      "evReason ev = ''CertificateProcessingSucceeded''"
    and b: "wanted (iCertificateSecretRef (iAzureKV y)) name key = Some n" "ToLower n = vaultName a"
    and new: "secrets (world u) (destinationNamespace reqB y, name) = None"
  shows "\<exists>d m. sec (secretKeyOf (nn_Namespace reqA) a) (SecretKey a) = Some d
    \<and> secrets (world u') (destinationNamespace reqB y, name) = Some m
    \<and> (m key = Some d \<longleftrightarrow> Templating a = BASE64EN_TEMPLATING \<or> \<not> IsBase64Encoded d \<or> d = [])"
proof -
  have "\<not> askedAgain (res, None)" using exported(2) by (simp add: askedAgain_def)
  from Reconcile_delivered [OF assms(1-8) this] a
  have "copied sec (nn_Namespace reqA) (eVaultUrl (eAzureKV x)) (view (world s)) (view (world s')) a" by (simp add: delivered_def)
  from copiedD [OF this] fresh obtain d where d: "sec (secretKeyOf (nn_Namespace reqA) a) (SecretKey a) = Some d"
    and v: "view (world s') (eVaultUrl (eAzureKV x), vaultName a) = Some (target a d)" by auto
  let ?data = "importedData (vault (world u)) (iVaultUrl (iAzureKV y)) (wanted (iCertificateSecretRef (iAzureKV y)) name)"
  have "name \<in> SecretName ` set (iCertificateSecretRef (iAzureKV y))" using b(1) by (intro wanted_SecretName) auto
  then have "secrets (world u') (destinationNamespace reqB y, name) = Some (withTlsKeys ?data)"
    using ImportReconcile_reports [OF assms(15-19)] imported(4) by (simp add: importedSecrets_def new afterImport_def)
  moreover have "withTlsKeys ?data key = Some (plain (target a d))"
    using b v link by (simp add: withTlsKeys_def importedData_def)
  moreover have "plain (target a d) = d \<longleftrightarrow> Templating a = BASE64EN_TEMPLATING \<or> \<not> IsBase64Encoded d \<or> d = []"
    by (auto simp: target_def plain_encoded plain_same_iff)
  ultimately show ?thesis using d by auto
qed

text \<open>A concrete export to the vault of the example import, and the import of what it stored.\<close>

definition sourceExport :: ExportCertificateSecret where
  "sourceExport = exampleExport [caseRef ''tls.crt'' ''Web'']\<lparr>eAzureKV := (eAzureKV (exampleExport [caseRef ''tls.crt'' ''Web'']))
     \<lparr>eVaultUrl := ''u''\<rparr>\<rparr>"

definition sourceEnv :: "vault_view env" where
  "sourceEnv = flowEnv\<lparr>env_kube := (env_kube flowEnv)\<lparr>get_export := \<lambda>_ w. (Inr sourceExport, w)\<rparr>\<rparr>"

lemma sourceEnv_laws:
  "returns_spec (env_kube sourceEnv)" "cluster_secrets sourceEnv vaultSecrets (\<lambda>w. w)" "vault_apart sourceEnv (\<lambda>w. w)"
  "vault_clients sourceEnv (\<lambda>w. w)"
  using flowEnv_laws
  by (simp_all add: returns_spec_def cluster_secrets_def vault_apart_def vault_clients_def stable_kube_def sourceEnv_def)

abbreviation arrived :: "string \<times> string \<Rightarrow> (string \<rightharpoonup> bytes) option" where
  "arrived \<equiv> storedSecrets (world (snd (ImportReconcile liveEnv (importKey (syncImport []))
     (liveState (world (snd (Reconcile sourceEnv \<lparr>nn_Namespace = ''prod'', nn_Name = ''web''\<rparr>
       (NewExportCertificateSecretReconciler Map.empty)))) Map.empty))))"

theorem export_import_roundtrip_witness: "\<exists>m. arrived (''prod'', ''web-tls'') = Some m \<and> m ''tls.crt'' = Some ''-cert-''"
proof -
  let ?reqA = "\<lparr>nn_Namespace = ''prod'', nn_Name = ''web''\<rparr>" and ?s = "NewExportCertificateSecretReconciler Map.empty :: vault_view est"
  let ?reqB = "importKey (syncImport [])" and ?a = "caseRef ''tls.crt'' ''Web''"
  let ?y = "syncImport [?a]"
  have "fst (Reconcile sourceEnv ?reqA ?s) = Done (emptyResult, None)" by code_simp
  then obtain s' where exported: "Reconcile sourceEnv ?reqA ?s = (Done (emptyResult, None), s')" by (metis prod.collapse)
  have name: "ToLower ''Web'' = vaultName ?a" and low: "vaultName ?a = ''web''" by (simp_all add: vaultName_def ToLower_Web)
  have s': "world s' = world (snd (Reconcile sourceEnv ?reqA ?s))" by (simp add: exported)
  have fA: "finds sourceEnv ?reqA (world ?s) sourceExport" "0 \<le>s GetRetryCount sourceExport"
    "distinct (map vaultName (eCertificateSecretRef (eAzureKV sourceExport)))"
    "?a \<in> set (eCertificateSecretRef (eAzureKV sourceExport))" "\<not> 0 <s RequeueAfter emptyResult"
    by (simp_all add: finds_def sourceEnv_def flowEnv_def sourceExport_def exampleExport_def emptyMeta_def GetRetryCount_def emptyResult_def)
  let ?u = "liveState (world s') Map.empty"
  have "list_ex reportsSuccess (trace (snd (ImportReconcile liveEnv ?reqB
      (liveState (world (snd (Reconcile sourceEnv ?reqA ?s))) Map.empty))))" by code_simp
  moreover obtain r u' where imported: "ImportReconcile liveEnv ?reqB ?u = (r, u')" by fastforce
  ultimately obtain ev where ev: "CreateEvent ev \<in> set (trace u')" "evReason ev = ''CertificateProcessingSucceeded''"
    by (auto simp: list_ex_iff exported elim: reportsSuccessE)
  have fB: "importFinds liveEnv ?reqB (world ?u) ?y" "trace u' = trace ?u @ trace u'"
    by (simp_all add: importFinds_def liveEnv_def liveKube_def syncImport_def emptyMeta_def liveState_def)
  have w: "wanted (iCertificateSecretRef (iAzureKV ?y)) ''web-tls'' ''tls.crt'' = Some ''Web''"
    by (simp add: wanted_def syncImport_def)
  have start: "world ?s (eVaultUrl (eAzureKV sourceExport), vaultName ?a) = None" "iVaultUrl (iAzureKV ?y) = eVaultUrl (eAzureKV sourceExport)"
    "storedSecrets (world ?u) (destinationNamespace ?reqB ?y, ''web-tls'') = None" "destinationNamespace ?reqB ?y = ''prod''"
    by (simp_all add: NewExportCertificateSecretReconciler_def sourceExport_def exampleExport_def liveState_def storedSecrets_def
        syncImport_def destinationNamespace_def importKey_def metaKey_def emptyMeta_def)
  have eq: "fst (world ?u) k = world s' k" for k by (simp add: liveState_def)
  have t: "\<not> IsBase64Encoded ''-cert-''" by code_simp
  have "RefType ?a = ''crt''" by simp
  from export_import_roundtrip [where view = "\<lambda>w. w" and vault = fst and secrets = storedSecrets, OF fA(1,2) sourceEnv_laws fA(3) exported fA(5,4) this start(1) eq start(2) liveEnv_laws fB(1)
      imported fB(2) ev w name start(3)] t
  show ?thesis unfolding exported snd_conv imported start(4) by (auto simp: vaultSecrets_def)
qed

end
